(* ===== verification/Prelude.thy ===== *)
theory Prelude
  imports Main "HOL-Library.AList"
begin

text \<open>
  What every component shares: Python's exceptions as values, the programs that
  run on a state, emit effects and may raise, and the string and dictionary
  operations of the standard library that the scripts use.

  A method of the code is a \<open>prog\<close>: from the state of the object it returns the
  state it leaves, the effects it had on the world in their order, and either a
  result or the exception it raised.  The state and the effects up to a raise
  are kept, as they are in Python, where nothing is rolled back.
\<close>

named_theorems prog_defs \<open>definitions of the program combinators\<close>

section \<open>Exceptions and programs\<close>

datatype exn =
    KeyError | IndexError | TypeError | ValueError | JSONDecodeError
  | AttributeError | NameError | ZeroDivisionError | OverflowError | RecursionError | EOFError

text \<open>\<open>json.JSONDecodeError\<close> is a subclass of \<open>ValueError\<close>: an \<open>except ValueError\<close>
  catches both.\<close>

definition is_value_error :: "exn \<Rightarrow> bool" where
  "is_value_error x \<longleftrightarrow> x = ValueError \<or> x = JSONDecodeError"

datatype 'a outcome = Done 'a | Raised exn

type_synonym ('s, 'e, 'a) prog = "'s \<Rightarrow> 's \<times> 'e list \<times> 'a outcome"
type_synonym ('s, 'e) stmt = "('s, 'e, unit) prog"

definition p_ret :: "'a \<Rightarrow> ('s, 'e, 'a) prog" where
  [prog_defs]: "p_ret x = (\<lambda>s. (s, [], Done x))"

definition p_skip :: "('s, 'e) stmt" where
  [prog_defs]: "p_skip = (\<lambda>s. (s, [], Done ()))"

definition p_raise :: "exn \<Rightarrow> ('s, 'e, 'a) prog" where
  [prog_defs]: "p_raise x = (\<lambda>s. (s, [], Raised x))"

definition p_upd :: "('s \<Rightarrow> 's) \<Rightarrow> ('s, 'e) stmt" where
  [prog_defs]: "p_upd f = (\<lambda>s. (f s, [], Done ()))"

definition p_emit :: "'e \<Rightarrow> ('s, 'e) stmt" where
  [prog_defs]: "p_emit e = (\<lambda>s. (s, [e], Done ()))"

definition p_bind :: "('s, 'e, 'a) prog \<Rightarrow> ('a \<Rightarrow> ('s, 'e, 'b) prog) \<Rightarrow> ('s, 'e, 'b) prog" where
  "p_bind m k = (\<lambda>s.
     case m s of (s1, es, r) \<Rightarrow>
       (case r of
          Raised x \<Rightarrow> (s1, es, Raised x)
        | Done a \<Rightarrow> (case k a s1 of (s2, es', r') \<Rightarrow> (s2, es @ es', r'))))"

primrec p_block :: "('s, 'e) stmt list \<Rightarrow> ('s, 'e) stmt" where
  "p_block [] = p_skip"
| "p_block (c # cs) = p_bind c (\<lambda>_. p_block cs)"

text \<open>An expression that reads the state, and one that may raise.\<close>

definition p_read :: "('s \<Rightarrow> 'a) \<Rightarrow> ('a \<Rightarrow> ('s, 'e, 'b) prog) \<Rightarrow> ('s, 'e, 'b) prog" where
  [prog_defs]: "p_read f k = (\<lambda>s. k (f s) s)"

definition p_val :: "exn + 'a \<Rightarrow> ('a \<Rightarrow> ('s, 'e, 'b) prog) \<Rightarrow> ('s, 'e, 'b) prog" where
  [prog_defs]: "p_val v k = (case v of Inl x \<Rightarrow> p_raise x | Inr a \<Rightarrow> k a)"

definition p_if :: "('s \<Rightarrow> bool) \<Rightarrow> ('s, 'e, 'a) prog \<Rightarrow> ('s, 'e, 'a) prog \<Rightarrow> ('s, 'e, 'a) prog" where
  [prog_defs]: "p_if b c d = (\<lambda>s. if b s then c s else d s)"

definition p_when :: "('s \<Rightarrow> bool) \<Rightarrow> ('s, 'e) stmt \<Rightarrow> ('s, 'e) stmt" where
  [prog_defs]: "p_when b c = p_if b c p_skip"

text \<open>\<open>try: m\<close> with one \<open>except\<close> clause, which catches the exceptions in \<open>P\<close>.\<close>

definition p_try :: "(exn \<Rightarrow> bool) \<Rightarrow> ('s, 'e, 'a) prog \<Rightarrow> ('s, 'e, 'a) prog \<Rightarrow> ('s, 'e, 'a) prog" where
  "p_try P m h = (\<lambda>s.
     case m s of (s1, es, r) \<Rightarrow>
       (case r of
          Done a \<Rightarrow> (s1, es, Done a)
        | Raised x \<Rightarrow>
            (if P x then (case h s1 of (s2, es', r') \<Rightarrow> (s2, es @ es', r'))
             else (s1, es, Raised x))))"

primrec p_for :: "'a list \<Rightarrow> ('a \<Rightarrow> ('s, 'e) stmt) \<Rightarrow> ('s, 'e) stmt" where
  "p_for [] body = p_skip"
| "p_for (x # xs) body = p_bind (body x) (\<lambda>_. p_for xs body)"

text \<open>A program on a part of the state.\<close>

definition p_lift :: "('s \<Rightarrow> 't) \<Rightarrow> ('t \<Rightarrow> 's \<Rightarrow> 's) \<Rightarrow> ('t, 'e, 'a) prog \<Rightarrow> ('s, 'e, 'a) prog" where
  [prog_defs]: "p_lift get_part put_part m = (\<lambda>s.
     case m (get_part s) of (t, es, r) \<Rightarrow> (put_part t s, es, r))"

abbreviation state_of :: "'s \<times> 'e list \<times> 'a outcome \<Rightarrow> 's" where
  "state_of r \<equiv> fst r"

abbreviation effects_of :: "'s \<times> 'e list \<times> 'a outcome \<Rightarrow> 'e list" where
  "effects_of r \<equiv> fst (snd r)"

abbreviation outcome_of :: "'s \<times> 'e list \<times> 'a outcome \<Rightarrow> 'a outcome" where
  "outcome_of r \<equiv> snd (snd r)"

subsection \<open>Running a program on a state\<close>

lemma p_bind_Done [simp]:
  "m s = (s1, es, Done a) \<Longrightarrow>
   p_bind m k s = (case k a s1 of (s2, es', r') \<Rightarrow> (s2, es @ es', r'))"
  by (simp add: p_bind_def)

lemma p_bind_Raised [simp]: "m s = (s1, es, Raised x) \<Longrightarrow> p_bind m k s = (s1, es, Raised x)"
  by (simp add: p_bind_def)

lemma p_bind_assoc: "p_bind (p_bind m k) l = p_bind m (\<lambda>a. p_bind (k a) l)"
  by (auto simp: p_bind_def fun_eq_iff split: prod.splits outcome.splits)

lemma p_bind_skip [simp]: "p_bind m (\<lambda>_. p_skip) = (m :: ('s, 'e) stmt)"
  by (auto simp: p_bind_def p_skip_def fun_eq_iff split: prod.splits outcome.splits)

text \<open>The last statement of a block keeps its own effects and outcome.\<close>

lemma p_block_single [simp]: "p_block [c] = c"
  by simp

lemma p_block_more [simp]: "p_block (c # d # cs) = p_bind c (\<lambda>_. p_block (d # cs))"
  by simp

lemma p_block_append: "p_block (cs @ ds) = p_bind (p_block cs) (\<lambda>_. p_block ds)"
proof (induction cs)
  case Nil
  show ?case
    by (simp add: p_bind_def p_skip_def fun_eq_iff)
next
  case (Cons c cs)
  then show ?case
    by (simp only: append_Cons p_block.simps p_bind_assoc)
qed

declare p_block.simps(2) [simp del]

lemmas run_prog = p_bind_def p_try_def prog_defs

subsection \<open>Invariants of programs\<close>

text \<open>\<open>keeps I m\<close>: whatever \<open>m\<close> does, raising included, \<open>I\<close> still holds afterwards.\<close>

definition keeps :: "('s \<Rightarrow> bool) \<Rightarrow> ('s, 'e, 'a) prog \<Rightarrow> bool" where
  "keeps I m \<longleftrightarrow> (\<forall>s. I s \<longrightarrow> I (state_of (m s)))"

named_theorems keeps_intros \<open>invariants of composed programs\<close>

lemma keepsI: "(\<And>s. I s \<Longrightarrow> I (state_of (m s))) \<Longrightarrow> keeps I m"
  by (simp add: keeps_def)

lemma keepsD: "keeps I m \<Longrightarrow> I s \<Longrightarrow> I (state_of (m s))"
  by (simp add: keeps_def)

lemma keeps_skip [keeps_intros]: "keeps I p_skip"
  by (simp add: keeps_def p_skip_def)

lemma keeps_ret [keeps_intros]: "keeps I (p_ret x)"
  by (simp add: keeps_def p_ret_def)

lemma keeps_raise [keeps_intros]: "keeps I (p_raise x)"
  by (simp add: keeps_def p_raise_def)

lemma keeps_emit [keeps_intros]: "keeps I (p_emit e)"
  by (simp add: keeps_def p_emit_def)

lemma keeps_upd [keeps_intros]: "(\<And>s. I s \<Longrightarrow> I (f s)) \<Longrightarrow> keeps I (p_upd f)"
  by (simp add: keeps_def p_upd_def)

lemma keeps_bind [keeps_intros]:
  assumes "keeps I m" and "\<And>a. keeps I (k a)"
  shows "keeps I (p_bind m k)"
proof (rule keepsI)
  fix s
  assume "I s"
  obtain s1 es r where m: "m s = (s1, es, r)"
    by (cases "m s") auto
  with keepsD [OF assms(1) \<open>I s\<close>] have "I s1"
    by simp
  with assms(2) show "I (state_of (p_bind m k s))"
    by (cases r) (simp_all add: p_bind_def m keeps_def split_beta)
qed

lemma keeps_block [keeps_intros]:
  "keeps I (p_block [])"
  "keeps I c \<Longrightarrow> keeps I (p_block cs) \<Longrightarrow> keeps I (p_block (c # cs))"
  by (auto simp: p_block.simps intro!: keeps_intros)

lemma keeps_If [keeps_intros]: "(b \<Longrightarrow> keeps I c) \<Longrightarrow> (\<not> b \<Longrightarrow> keeps I d) \<Longrightarrow> keeps I (if b then c else d)"
  by simp

lemma keeps_sum [keeps_intros]:
  "(\<And>x. keeps I (f x)) \<Longrightarrow> (\<And>y. keeps I (g y)) \<Longrightarrow> keeps I (case v of Inl x \<Rightarrow> f x | Inr y \<Rightarrow> g y)"
  by (simp split: sum.split)

lemma keeps_option [keeps_intros]:
  "keeps I c \<Longrightarrow> (\<And>x. keeps I (f x)) \<Longrightarrow> keeps I (case v of None \<Rightarrow> c | Some x \<Rightarrow> f x)"
  by (simp split: option.split)

lemma keeps_for [keeps_intros]: "(\<And>x. x \<in> set xs \<Longrightarrow> keeps I (body x)) \<Longrightarrow> keeps I (p_for xs body)"
  by (induction xs) (auto intro!: keeps_intros)

lemma keeps_read [keeps_intros]: "(\<And>a. keeps I (k a)) \<Longrightarrow> keeps I (p_read f k)"
  by (simp add: keeps_def p_read_def)

lemma keeps_val [keeps_intros]: "(\<And>a. v = Inr a \<Longrightarrow> keeps I (k a)) \<Longrightarrow> keeps I (p_val v k)"
  by (auto simp: p_val_def intro: keeps_raise split: sum.split)

lemma keeps_if [keeps_intros]: "keeps I c \<Longrightarrow> keeps I d \<Longrightarrow> keeps I (p_if b c d)"
  by (simp add: keeps_def p_if_def)

lemma keeps_when [keeps_intros]: "keeps I c \<Longrightarrow> keeps I (p_when b c)"
  by (simp add: p_when_def keeps_intros)

lemma keeps_try [keeps_intros]:
  assumes "keeps I m" and "keeps I h"
  shows "keeps I (p_try P m h)"
proof (rule keepsI)
  fix s
  assume "I s"
  obtain s1 es r where m: "m s = (s1, es, r)"
    by (cases "m s") auto
  with keepsD [OF assms(1) \<open>I s\<close>] have "I s1"
    by simp
  with assms(2) show "I (state_of (p_try P m h s))"
    by (cases r) (simp_all add: p_try_def m keeps_def split_beta)
qed

subsection \<open>Effects of programs\<close>

text \<open>\<open>emits_only P m\<close>: every effect of \<open>m\<close>, from any state, satisfies \<open>P\<close>.\<close>

definition emits_only :: "('e \<Rightarrow> bool) \<Rightarrow> ('s, 'e, 'a) prog \<Rightarrow> bool" where
  "emits_only P m \<longleftrightarrow> (\<forall>s. \<forall>e \<in> set (effects_of (m s)). P e)"

named_theorems emits_intros \<open>effects of composed programs\<close>

lemma emits_onlyD: "emits_only P m \<Longrightarrow> e \<in> set (effects_of (m s)) \<Longrightarrow> P e"
  by (simp add: emits_only_def)

lemma emits_silent [emits_intros]:
  "emits_only P p_skip" "emits_only P (p_ret x)" "emits_only P (p_raise ex)" "emits_only P (p_upd f)"
  by (simp_all add: emits_only_def prog_defs)

lemma emits_emit [emits_intros]: "P e \<Longrightarrow> emits_only P (p_emit e)"
  by (simp add: emits_only_def prog_defs)

lemma emits_bind [emits_intros]:
  "emits_only P m \<Longrightarrow> (\<And>a. emits_only P (k a)) \<Longrightarrow> emits_only P (p_bind m k)"
  by (fastforce simp: emits_only_def p_bind_def split_beta split: outcome.split)

lemma emits_block [emits_intros]:
  "emits_only P (p_block [])"
  "emits_only P c \<Longrightarrow> emits_only P (p_block cs) \<Longrightarrow> emits_only P (p_block (c # cs))"
  by (auto simp: p_block.simps intro!: emits_intros)

lemma emits_If [emits_intros]:
  "(b \<Longrightarrow> emits_only P c) \<Longrightarrow> (\<not> b \<Longrightarrow> emits_only P d) \<Longrightarrow> emits_only P (if b then c else d)"
  by simp

lemma emits_for [emits_intros]: "(\<And>x. x \<in> set xs \<Longrightarrow> emits_only P (body x)) \<Longrightarrow> emits_only P (p_for xs body)"
  by (induction xs) (auto intro!: emits_intros)

lemma emits_read [emits_intros]: "(\<And>a. emits_only P (k a)) \<Longrightarrow> emits_only P (p_read f k)"
  by (simp add: emits_only_def prog_defs)

lemma emits_val [emits_intros]: "(\<And>a. v = Inr a \<Longrightarrow> emits_only P (k a)) \<Longrightarrow> emits_only P (p_val v k)"
  by (auto simp: p_val_def intro: emits_silent split: sum.split)

lemma emits_if [emits_intros]: "emits_only P c \<Longrightarrow> emits_only P d \<Longrightarrow> emits_only P (p_if b c d)"
  by (simp add: emits_only_def p_if_def)

lemma emits_when [emits_intros]: "emits_only P c \<Longrightarrow> emits_only P (p_when b c)"
  by (simp add: p_when_def emits_intros)

lemma emits_try [emits_intros]: "emits_only P m \<Longrightarrow> emits_only P h \<Longrightarrow> emits_only P (p_try Q m h)"
  by (fastforce simp: emits_only_def p_try_def split_beta split: outcome.split)

section \<open>Event systems\<close>

text \<open>
  The bot calls one method of the strategy per event and logs what it raises
  (application.cpp: every call is in a \<open>try\<close> that catches
  \<open>error_already_set\<close>), so the state after a raise is a state the next event
  meets.  \<open>reach handle s0\<close> holds of the states some sequence of events leads to.
\<close>

inductive reach :: "('ev \<Rightarrow> ('s, 'e, 'a) prog) \<Rightarrow> 's \<Rightarrow> 's \<Rightarrow> bool"
  for handle :: "'ev \<Rightarrow> ('s, 'e, 'a) prog" and s0 :: 's
where
  reach_init: "reach handle s0 s0"
| reach_event: "reach handle s0 s \<Longrightarrow> reach handle s0 (state_of (handle ev s))"

fun run_events :: "('ev \<Rightarrow> ('s, 'e, 'a) prog) \<Rightarrow> 'ev list \<Rightarrow> 's \<Rightarrow> 's \<times> 'e list" where
  "run_events handle [] s = (s, [])"
| "run_events handle (ev # evs) s =
     (case handle ev s of (s1, es, _) \<Rightarrow>
        (case run_events handle evs s1 of (s2, es') \<Rightarrow> (s2, es @ es')))"

lemma reach_run_events: "reach handle s0 s \<Longrightarrow> reach handle s0 (fst (run_events handle evs s))"
proof (induction evs arbitrary: s)
  case Nil
  then show ?case by simp
next
  case (Cons ev evs)
  obtain s1 es r where step: "handle ev s = (s1, es, r)"
    by (cases "handle ev s") auto
  have "reach handle s0 s1"
    using reach_event [OF Cons.prems, of ev] step by simp
  then show ?case
    using Cons.IH [of s1] step by (simp add: split_beta)
qed

locale event_system =
  fixes handle :: "'ev \<Rightarrow> ('s, 'e, 'a) prog"
    and s0 :: 's
    and inv :: "'s \<Rightarrow> bool"
  assumes inv_init: "inv s0"
    and inv_event: "inv s \<Longrightarrow> inv (state_of (handle ev s))"
begin

lemma inv_reach: "reach handle s0 s \<Longrightarrow> inv s"
  by (induction rule: reach.induct) (auto intro: inv_init inv_event)

lemma inv_run: "inv s \<Longrightarrow> inv (fst (run_events handle evs s))"
proof (induction evs arbitrary: s)
  case Nil
  then show ?case by simp
next
  case (Cons ev evs)
  obtain s1 es r where step: "handle ev s = (s1, es, r)"
    by (cases "handle ev s") auto
  with inv_event [OF Cons.prems, of ev] have "inv s1"
    by simp
  from Cons.IH [OF this] step show ?case
    by (simp add: split_beta)
qed

text \<open>A property of the effects of one event, under the invariant, holds of every
  event of a run.\<close>

lemma effects_run:
  assumes P: "\<And>s ev e. inv s \<Longrightarrow> e \<in> set (effects_of (handle ev s)) \<Longrightarrow> P e"
  shows "inv s \<Longrightarrow> e \<in> set (snd (run_events handle evs s)) \<Longrightarrow> P e"
proof (induction evs arbitrary: s)
  case Nil
  then show ?case by simp
next
  case (Cons ev evs)
  obtain s1 es r where step: "handle ev s = (s1, es, r)"
    by (cases "handle ev s") auto
  with inv_event [OF Cons.prems(1), of ev] have "inv s1"
    by simp
  with Cons.IH [of s1] Cons.prems step P [OF Cons.prems(1), of e ev] show ?case
    by (auto split: prod.splits)
qed

end

section \<open>Strings and dictionaries\<close>

text \<open>Character codes are read as \<open>int\<close>, whose numerals evaluate in binary.\<close>

definition ord_char :: "char \<Rightarrow> int" where
  "ord_char c = of_char c"

definition chr_int :: "int \<Rightarrow> char" where
  "chr_int k = char_of k"

lemma ord_char_bounds: "0 \<le> ord_char c" "ord_char c < 256"
  by (simp_all add: ord_char_def of_char_def)

lemma ord_chr [simp]: "0 \<le> k \<Longrightarrow> k < 256 \<Longrightarrow> ord_char (chr_int k) = k"
  by (simp add: ord_char_def chr_int_def)

text \<open>\<open>str.upper\<close> on ASCII letters.\<close>

definition upper_char :: "char \<Rightarrow> char" where
  "upper_char c = (if 97 \<le> ord_char c \<and> ord_char c \<le> 122 then chr_int (ord_char c - 32) else c)"

definition py_upper :: "string \<Rightarrow> string" where
  "py_upper = map upper_char"

text \<open>\<open>s.split(sep)\<close> for a separator of one character: always at least one part.\<close>

fun py_split :: "char \<Rightarrow> string \<Rightarrow> string list" where
  "py_split sep [] = [[]]"
| "py_split sep (c # cs) =
     (if c = sep then [] # py_split sep cs
      else (case py_split sep cs of
              [] \<Rightarrow> [[c]]
            | p # ps \<Rightarrow> (c # p) # ps))"

text \<open>\<open>s.replace(old, '')\<close>: the occurrences are removed from the left, not
  overlapping.  \<open>old\<close> is not empty in the code.\<close>

function py_remove :: "string \<Rightarrow> string \<Rightarrow> string" where
  "py_remove old s =
     (if old \<noteq> [] \<and> take (length old) s = old \<and> s \<noteq> [] then py_remove old (drop (length old) s)
      else (case s of [] \<Rightarrow> [] | c # cs \<Rightarrow> c # py_remove old cs))"
  by pat_completeness auto
termination
  by (relation "measure (\<lambda>(old, s). length s)") auto

declare py_remove.simps [simp del]

text \<open>\<open>s.strip(chars)\<close>.\<close>

definition py_strip :: "(char \<Rightarrow> bool) \<Rightarrow> string \<Rightarrow> string" where
  "py_strip P s = rev (dropWhile P (rev (dropWhile P s)))"

text \<open>\<open>str(n)\<close> of a non-negative integer, and the value of a run of digits.\<close>

definition digit_char :: "int \<Rightarrow> char" where
  "digit_char d = chr_int (48 + d)"

function py_str_int :: "int \<Rightarrow> string" where
  "py_str_int n = (if n < 10 then [digit_char n] else py_str_int (n div 10) @ [digit_char (n mod 10)])"
  by pat_completeness auto
termination
  by (relation "measure nat") auto

declare py_str_int.simps [simp del]

definition is_digit :: "char \<Rightarrow> bool" where
  "is_digit c \<longleftrightarrow> 48 \<le> ord_char c \<and> ord_char c \<le> 57"

definition digit_val :: "char \<Rightarrow> int" where
  "digit_val c = ord_char c - 48"

lemma digit_char_digit: "0 \<le> d \<Longrightarrow> d < 10 \<Longrightarrow> is_digit (digit_char d)"
  by (simp add: is_digit_def digit_char_def)

lemma digit_val_char: "0 \<le> d \<Longrightarrow> d < 10 \<Longrightarrow> digit_val (digit_char d) = d"
  by (simp add: digit_val_def digit_char_def)

definition int_of_digits :: "string \<Rightarrow> int" where
  "int_of_digits = foldl (\<lambda>a c. 10 * a + digit_val c) 0"

lemma int_of_digits_snoc: "int_of_digits (ds @ [c]) = 10 * int_of_digits ds + digit_val c"
  by (simp add: int_of_digits_def)

lemma int_of_str_int: "0 \<le> n \<Longrightarrow> int_of_digits (py_str_int n) = n"
proof (induction n rule: py_str_int.induct)
  case (1 n)
  show ?case
  proof (cases "n < 10")
    case True
    with "1.prems" show ?thesis
      by (simp add: py_str_int.simps [of n] int_of_digits_def digit_val_char)
  next
    case False
    with 1 have "int_of_digits (py_str_int (n div 10)) = n div 10"
      by simp
    moreover have "10 * (n div 10) + n mod 10 = n"
      by simp
    ultimately show ?thesis
      using False by (simp add: py_str_int.simps [of n] int_of_digits_snoc digit_val_char)
  qed
qed

lemma py_str_int_inj: "py_str_int m = py_str_int n \<Longrightarrow> 0 \<le> m \<Longrightarrow> 0 \<le> n \<Longrightarrow> m = n"
  by (metis int_of_str_int)

lemma py_str_int_digits: "0 \<le> n \<Longrightarrow> \<forall>c \<in> set (py_str_int n). is_digit c"
proof (induction n rule: py_str_int.induct)
  case (1 n)
  then show ?case
    by (cases "n < 10") (auto simp: py_str_int.simps [of n] digit_char_digit)
qed

text \<open>A text is cut at the first occurrence of a character in one way.\<close>

lemma sep_unique:
  "xs @ c # us = ys @ c # vs \<Longrightarrow> c \<notin> set xs \<Longrightarrow> c \<notin> set ys \<Longrightarrow> xs = ys \<and> us = vs"
proof (induction xs arbitrary: ys)
  case Nil
  then show ?case by (cases ys) auto
next
  case (Cons x xs)
  then show ?case by (cases ys) auto
qed

text \<open>A \<open>dict\<close> keeps its insertion order: an association list with distinct keys.
  Assigning to a key updates it in its place or appends it.\<close>

type_synonym 'v dict = "(string \<times> 'v) list"

definition dict_get :: "'v dict \<Rightarrow> string \<Rightarrow> exn + 'v" where
  "dict_get d k = (case map_of d k of None \<Rightarrow> Inl KeyError | Some v \<Rightarrow> Inr v)"

definition dict_set :: "string \<Rightarrow> 'v \<Rightarrow> 'v dict \<Rightarrow> 'v dict" where
  "dict_set k v d = AList.update k v d"

definition dict_has :: "'v dict \<Rightarrow> string \<Rightarrow> bool" where
  "dict_has d k \<longleftrightarrow> map_of d k \<noteq> None"

lemma dict_get_set: "dict_get (dict_set k v d) k' = (if k = k' then Inr v else dict_get d k')"
  by (simp add: dict_get_def dict_set_def update_conv')

lemma map_of_dict_set [simp]: "map_of (dict_set k v d) = (map_of d)(k \<mapsto> v)"
  by (simp add: dict_set_def update_conv')

lemma dict_has_set [simp]: "dict_has (dict_set k v d) k' \<longleftrightarrow> k = k' \<or> dict_has d k'"
  by (simp add: dict_has_def)

lemma distinct_dict_set: "distinct (map fst d) \<Longrightarrow> distinct (map fst (dict_set k v d))"
  by (simp add: dict_set_def distinct_update)

lemma keys_dict_set: "dict_has d k \<Longrightarrow> map fst (dict_set k v d) = map fst d"
  unfolding dict_set_def dict_has_def
  by (induction d) (auto split: if_splits)

end
