(* ===== verification/PyFloat.thy ===== *)
theory PyFloat
  imports Prelude Complex_Main
begin

text \<open>
  Python's \<open>float\<close>: IEEE 754 binary64 with rounding to nearest, ties to even.

  A finite value is a sign and a magnitude, a non-negative rational; the sign of
  zero is kept.  Every arithmetic operation is the exact one on rationals followed
  by \<open>fround\<close>, as the standard asks.  \<open>float(str)\<close>, \<open>round(x, n)\<close> and
  \<open>'%f' % x\<close> are correctly rounded in CPython and are modelled so.
\<close>

named_theorems float_defs \<open>definitions of the float operations\<close>

section \<open>Values\<close>

datatype pyfloat = NaN | Inf bool | Fin bool rat

definition signed :: "bool \<Rightarrow> rat \<Rightarrow> rat" where
  "signed s m = (if s then - m else m)"

fun fval :: "pyfloat \<Rightarrow> rat" where
  "fval (Fin s m) = signed s m"
| "fval _ = 0"

fun is_fin :: "pyfloat \<Rightarrow> bool" where
  "is_fin (Fin _ _) = True"
| "is_fin _ = False"

section \<open>Rounding\<close>

definition round_half_even :: "rat \<Rightarrow> int" where
  "round_half_even x =
     (let f = \<lfloor>x\<rfloor>; d = x - of_int f
      in if d < 1 / 2 then f
         else if 1 / 2 < d then f + 1
         else if even f then f else f + 1)"

text \<open>The binary logarithm of a positive number, rounded down.\<close>

function ilog2_int :: "int \<Rightarrow> int" where
  "ilog2_int n = (if n < 2 then 0 else 1 + ilog2_int (n div 2))"
  by pat_completeness auto
termination
  by (relation "measure nat") auto

declare ilog2_int.simps [simp del]

definition pow2 :: "int \<Rightarrow> rat" where
  "pow2 e = (if 0 \<le> e then 2 ^ nat e else 1 / 2 ^ nat (- e))"

definition ilog2 :: "rat \<Rightarrow> int" where
  "ilog2 m =
     (case quotient_of m of (p, q) \<Rightarrow>
        let k = ilog2_int p - ilog2_int q
        in if pow2 k \<le> m then k else k - 1)"

text \<open>
  The exponent of the last bit of the double next to \<open>m\<close>: 53 significant bits, and
  never below \<open>2 ^ -1074\<close>, the least positive double.
\<close>

definition ulp_exp :: "rat \<Rightarrow> int" where
  "ulp_exp m = max (ilog2 m - 52) (- 1074)"

definition fround :: "bool \<Rightarrow> rat \<Rightarrow> pyfloat" where
  "fround s m =
     (if m = 0 then Fin s 0
      else let e = ulp_exp m;
               v = of_int (round_half_even (m / pow2 e)) * pow2 e
           in if e < 971 then Fin s v else if v < 2 ^ 1024 then Fin s v else Inf s)"

text \<open>The double next to a rational; an exact zero takes the sign \<open>z\<close>.\<close>

definition fround_rat :: "bool \<Rightarrow> rat \<Rightarrow> pyfloat" where
  "fround_rat z x = (if x = 0 then Fin z 0 else fround (x < 0) \<bar>x\<bar>)"

text \<open>A decimal literal of the code.\<close>

definition flit :: "rat \<Rightarrow> pyfloat" where
  "flit x = fround_rat False x"

section \<open>Comparison\<close>

fun float_le :: "pyfloat \<Rightarrow> pyfloat \<Rightarrow> bool" where
  "float_le NaN _ = False"
| "float_le _ NaN = False"
| "float_le (Inf s) (Inf t) = (s \<or> \<not> t)"
| "float_le (Inf s) (Fin _ _) = s"
| "float_le (Fin _ _) (Inf t) = (\<not> t)"
| "float_le (Fin s m) (Fin t n) = (signed s m \<le> signed t n)"

instantiation pyfloat :: ord
begin

definition less_eq_pyfloat :: "pyfloat \<Rightarrow> pyfloat \<Rightarrow> bool" where
  "less_eq_pyfloat x y = float_le x y"

definition less_pyfloat :: "pyfloat \<Rightarrow> pyfloat \<Rightarrow> bool" where
  "less_pyfloat x y = (float_le x y \<and> \<not> float_le y x)"

instance ..

end

text \<open>Python's \<open>==\<close> on floats: not the equality of the model, since \<open>NaN != NaN\<close>
  and \<open>0.0 == -0.0\<close>.\<close>

definition float_eq :: "pyfloat \<Rightarrow> pyfloat \<Rightarrow> bool" where
  "float_eq x y \<longleftrightarrow> float_le x y \<and> float_le y x"

definition f0 :: pyfloat where
  "f0 = Fin False 0"

definition is_zero :: "pyfloat \<Rightarrow> bool" where
  "is_zero x \<longleftrightarrow> float_eq x f0"

section \<open>Arithmetic\<close>

fun fneg :: "pyfloat \<Rightarrow> pyfloat" where
  "fneg NaN = NaN"
| "fneg (Inf s) = Inf (\<not> s)"
| "fneg (Fin s m) = Fin (\<not> s) m"

text \<open>An exact zero sum is \<open>+0.0\<close> unless both operands are negative zeros.\<close>

fun fadd :: "pyfloat \<Rightarrow> pyfloat \<Rightarrow> pyfloat" where
  "fadd NaN _ = NaN"
| "fadd _ NaN = NaN"
| "fadd (Inf s) (Inf t) = (if s = t then Inf s else NaN)"
| "fadd (Inf s) (Fin _ _) = Inf s"
| "fadd (Fin _ _) (Inf t) = Inf t"
| "fadd (Fin s m) (Fin t n) = fround_rat (s \<and> t) (signed s m + signed t n)"

definition fsub :: "pyfloat \<Rightarrow> pyfloat \<Rightarrow> pyfloat" where
  "fsub x y = fadd x (fneg y)"

fun fmul :: "pyfloat \<Rightarrow> pyfloat \<Rightarrow> pyfloat" where
  "fmul NaN _ = NaN"
| "fmul _ NaN = NaN"
| "fmul (Inf s) (Inf t) = Inf (s \<noteq> t)"
| "fmul (Inf s) (Fin t n) = (if n = 0 then NaN else Inf (s \<noteq> t))"
| "fmul (Fin s m) (Inf t) = (if m = 0 then NaN else Inf (s \<noteq> t))"
| "fmul (Fin s m) (Fin t n) = fround (s \<noteq> t) (m * n)"

text \<open>Python raises where IEEE 754 would divide by zero.\<close>

fun fdiv :: "pyfloat \<Rightarrow> pyfloat \<Rightarrow> exn + pyfloat" where
  "fdiv x (Fin t n) =
     (if n = 0 then Inl ZeroDivisionError
      else Inr (case x of NaN \<Rightarrow> NaN | Inf s \<Rightarrow> Inf (s \<noteq> t) | Fin s m \<Rightarrow> fround (s \<noteq> t) (m / n)))"
| "fdiv x (Inf t) =
     Inr (case x of NaN \<Rightarrow> NaN | Inf s \<Rightarrow> NaN | Fin s m \<Rightarrow> Fin (s \<noteq> t) 0)"
| "fdiv x NaN = Inr NaN"

section \<open>Decimal text\<close>

definition is_space :: "char \<Rightarrow> bool" where
  "is_space c \<longleftrightarrow> (let k = ord_char c in 9 \<le> k \<and> k \<le> 13 \<or> k = 32)"

text \<open>
  A run of digits, with single underscores between digits: the number read so far,
  how many digits it had, and the rest of the text.
\<close>

fun scan_digits :: "string \<Rightarrow> int \<Rightarrow> nat \<Rightarrow> int \<times> nat \<times> string" where
  "scan_digits [] a n = (a, n, [])"
| "scan_digits (c # cs) a n =
     (if is_digit c then scan_digits cs (10 * a + digit_val c) (Suc n)
      else if c = CHR ''_'' \<and> 0 < n \<and> cs \<noteq> [] \<and> is_digit (hd cs) then scan_digits cs a n
      else (a, n, c # cs))"

fun scan_sign :: "string \<Rightarrow> bool \<times> string" where
  "scan_sign (c # cs) =
     (if c = CHR ''-'' then (True, cs) else if c = CHR ''+'' then (False, cs) else (False, c # cs))"
| "scan_sign [] = (False, [])"

text \<open>\<open>float(s)\<close> of a text; None is the \<open>ValueError\<close>.\<close>

definition scan_exponent :: "string \<Rightarrow> int option" where
  "scan_exponent s =
     (case s of
        [] \<Rightarrow> Some 0
      | c # cs \<Rightarrow>
          if c = CHR ''e'' then
            (case scan_sign cs of (neg, ds) \<Rightarrow>
               (case scan_digits ds 0 0 of (x, k, rest) \<Rightarrow>
                  if 0 < k \<and> rest = [] then Some (if neg then - x else x) else None))
          else None)"

definition pow10 :: "int \<Rightarrow> rat" where
  "pow10 e = (if 0 \<le> e then 10 ^ nat e else 1 / 10 ^ nat (- e))"

definition lower_char :: "char \<Rightarrow> char" where
  "lower_char c = (if 65 \<le> ord_char c \<and> ord_char c \<le> 90 then chr_int (ord_char c + 32) else c)"

definition parse_float :: "string \<Rightarrow> pyfloat option" where
  "parse_float txt =
     (case scan_sign (map lower_char (py_strip is_space txt)) of (neg, s) \<Rightarrow>
        if s = ''inf'' \<or> s = ''infinity'' then Some (Inf neg)
        else if s = ''nan'' then Some NaN
        else
          (case scan_digits s 0 0 of (a, n, rest) \<Rightarrow>
             (case (if rest \<noteq> [] \<and> hd rest = CHR ''.'' then scan_digits (tl rest) 0 0 else (0, 0, rest)) of
                (b, m, rest') \<Rightarrow>
                  if n + m = 0 then None
                  else map_option
                         (\<lambda>ex. fround neg (of_int (a * 10 ^ m + b) * pow10 (ex - int m)))
                         (scan_exponent rest'))))"

text \<open>\<open>int(s)\<close> of a text in base ten.\<close>

definition parse_int :: "string \<Rightarrow> int option" where
  "parse_int txt =
     (case scan_sign (py_strip is_space txt) of (neg, s) \<Rightarrow>
        (case scan_digits s 0 0 of (a, n, rest) \<Rightarrow>
           if 0 < n \<and> rest = [] then Some (if neg then - a else a) else None))"

text \<open>\<open>round(x, 6)\<close>-like rounding to \<open>n\<close> decimal digits.\<close>

fun fround_dec :: "pyfloat \<Rightarrow> nat \<Rightarrow> pyfloat" where
  "fround_dec (Fin s m) n = fround s (of_int (round_half_even (m * 10 ^ n)) / 10 ^ n)"
| "fround_dec x n = x"

text \<open>\<open>'%f' % x\<close>: six digits after the point.\<close>

definition pad_zeros :: "nat \<Rightarrow> string \<Rightarrow> string" where
  "pad_zeros n s = replicate (n - length s) (CHR ''0'') @ s"

fun fmt_f :: "pyfloat \<Rightarrow> string" where
  "fmt_f NaN = ''nan''"
| "fmt_f (Inf s) = (if s then ''-inf'' else ''inf'')"
| "fmt_f (Fin s m) =
     (let k = round_half_even (m * 10 ^ 6)
      in (if s then ''-'' else '''') @ py_str_int (k div 10 ^ 6) @ ''.'' @ pad_zeros 6 (py_str_int (k mod 10 ^ 6)))"

section \<open>Facts\<close>

subsection \<open>Comparison\<close>

lemma float_le_NaN [simp]: "\<not> float_le NaN x" "\<not> float_le x NaN"
  by (cases x; simp)+

lemma less_eq_Fin [simp]: "Fin s m \<le> Fin t n \<longleftrightarrow> signed s m \<le> signed t n"
  by (simp add: less_eq_pyfloat_def)

lemma less_Fin [simp]: "Fin s m < Fin t n \<longleftrightarrow> signed s m < signed t n"
  by (auto simp: less_pyfloat_def)

lemma float_eq_Fin [simp]: "float_eq (Fin s m) (Fin t n) \<longleftrightarrow> signed s m = signed t n"
  by (auto simp: float_eq_def)

lemma is_zero_Fin [simp]: "is_zero (Fin s m) \<longleftrightarrow> m = 0"
  by (simp add: is_zero_def f0_def signed_def)

lemma is_zero_f0 [simp]: "is_zero f0"
  by (simp add: f0_def)

lemma is_zero_iff: "is_zero x \<longleftrightarrow> (\<exists>s. x = Fin s 0)"
  by (cases x) (auto simp: is_zero_def f0_def float_eq_def signed_def)

lemma fval_le: "is_fin x \<Longrightarrow> is_fin y \<Longrightarrow> x \<le> y \<longleftrightarrow> fval x \<le> fval y"
  by (cases x; cases y) simp_all

lemma fdiv_error: "fdiv x y = Inl e \<longleftrightarrow> is_zero y \<and> e = ZeroDivisionError"
  by (cases y) (auto simp: is_zero_iff)

subsection \<open>Rounding to an integer\<close>

lemma round_half_even_of_int [simp]: "round_half_even (of_int k) = k"
  by (simp add: round_half_even_def)

lemma round_half_even_cases:
  "round_half_even x = \<lfloor>x\<rfloor> \<and> x - of_int \<lfloor>x\<rfloor> \<le> 1 / 2 \<or>
   round_half_even x = \<lfloor>x\<rfloor> + 1 \<and> 1 / 2 \<le> x - of_int \<lfloor>x\<rfloor>"
  unfolding round_half_even_def Let_def
  by (cases "x - of_int \<lfloor>x\<rfloor>" "1 / 2 :: rat" rule: linorder_cases) simp_all

lemma round_half_even_bounds:
  "of_int (round_half_even x) - 1 / 2 \<le> x" "x \<le> of_int (round_half_even x) + 1 / 2"
  using round_half_even_cases [of x] of_int_floor_le [of x] floor_correct [of x]
  by (auto simp del: of_int_floor_le)

lemma round_half_even_mono:
  assumes "x \<le> y"
  shows "round_half_even x \<le> round_half_even y"
proof (rule ccontr)
  assume "\<not> ?thesis"
  then have lt: "of_int (round_half_even y) + 1 \<le> (of_int (round_half_even x) :: rat)"
    by linarith
  with assms round_half_even_bounds [of x] round_half_even_bounds [of y]
  have "x = y"
    by linarith
  with lt show False
    by simp
qed

lemma round_half_even_nonneg: "0 \<le> x \<Longrightarrow> 0 \<le> round_half_even x"
  using round_half_even_mono [of 0 x] round_half_even_of_int [of 0] by simp

subsection \<open>Decimal formatting\<close>

lemma split_on_digits: "\<forall>c \<in> set s. c \<noteq> sep \<Longrightarrow> py_split sep (s @ sep # t) = s # py_split sep t"
  by (induction s) auto

lemma split_no_sep: "\<forall>c \<in> set s. c \<noteq> sep \<Longrightarrow> py_split sep s = [s]"
  by (induction s) auto

lemma length_str_int: "0 \<le> n \<Longrightarrow> n < 10 ^ k \<Longrightarrow> 0 < k \<Longrightarrow> length (py_str_int n) \<le> k"
proof (induction n arbitrary: k rule: py_str_int.induct)
  case (1 n)
  show ?case
  proof (cases "n < 10")
    case True
    with "1.prems" show ?thesis
      by (simp add: py_str_int.simps [of n])
  next
    case False
    with "1.prems" obtain k' where k: "k = Suc k'" "0 < k'"
      by (cases k; cases "k - 1") auto
    with "1.prems" have "0 \<le> n div 10" "n div 10 < 10 ^ k'"
      by auto
    with "1.IH" [OF False _ _ k(2)] False k show ?thesis
      by (simp add: py_str_int.simps [of n])
  qed
qed

lemma digit_not_point: "is_digit c \<Longrightarrow> c \<noteq> CHR ''.''" "is_digit c \<Longrightarrow> c \<noteq> CHR ''-''"
  by (auto simp: is_digit_def ord_char_def)

lemma digits_no_point: "0 \<le> n \<Longrightarrow> \<forall>c \<in> set (py_str_int n). c \<noteq> CHR ''.''"
  using py_str_int_digits [of n] digit_not_point(1) by blast

lemma pad_zeros_no_point:
  "\<forall>c \<in> set s. c \<noteq> CHR ''.'' \<Longrightarrow> \<forall>c \<in> set (pad_zeros n s). c \<noteq> CHR ''.''"
  by (simp add: pad_zeros_def ball_Un)

text \<open>A finite number is printed with exactly six digits after one point.\<close>

lemma fmt_f_decimals:
  assumes "0 \<le> m"
  obtains whole frac where "py_split (CHR ''.'') (fmt_f (Fin s m)) = [whole, frac]" and "length frac = 6"
proof -
  define k where "k = round_half_even (m * 10 ^ 6)"
  have k: "0 \<le> k"
    using assms by (simp add: k_def round_half_even_nonneg)
  define sgn_txt where "sgn_txt = (if s then ''-'' else '''')"
  define whole where "whole = sgn_txt @ py_str_int (k div 10 ^ 6)"
  define frac where "frac = pad_zeros 6 (py_str_int (k mod 10 ^ 6))"
  have "length (py_str_int (k mod 10 ^ 6)) \<le> 6"
    by (rule length_str_int) simp_all
  then have len: "length frac = 6"
    by (simp add: frac_def pad_zeros_def)
  have "\<forall>c \<in> set sgn_txt. c \<noteq> CHR ''.''"
    by (simp add: sgn_txt_def)
  moreover have "\<forall>c \<in> set (py_str_int (k div 10 ^ 6)). c \<noteq> CHR ''.''"
    by (rule digits_no_point) (simp add: k pos_imp_zdiv_nonneg_iff)
  ultimately have whole: "\<forall>c \<in> set whole. c \<noteq> CHR ''.''"
    unfolding whole_def by (metis Un_iff set_append)
  have "\<forall>c \<in> set (py_str_int (k mod 10 ^ 6)). c \<noteq> CHR ''.''"
    by (rule digits_no_point) simp
  then have frac: "\<forall>c \<in> set frac. c \<noteq> CHR ''.''"
    unfolding frac_def by (rule pad_zeros_no_point)
  have "fmt_f (Fin s m) = whole @ CHR ''.'' # frac"
    unfolding fmt_f.simps Let_def whole_def frac_def sgn_txt_def k_def by simp
  then have "py_split (CHR ''.'') (fmt_f (Fin s m)) = whole # py_split (CHR ''.'') frac"
    using split_on_digits [OF whole] by simp
  also have "\<dots> = [whole, frac]"
    using split_no_sep [OF frac] by simp
  finally show ?thesis
    using len by (rule that)
qed

end
