(* ===== verification/PyJson.thy ===== *)
theory PyJson
  imports PyFloat
begin

text \<open>
  The values \<open>json.loads\<close> returns and \<open>json.dumps\<close> sends, with the Python
  operations the scripts apply to them.  An operation on a value of the wrong
  type raises, as it does in Python; the handlers are modelled on every value
  the exchange or the web client can send, not on well-formed messages only.

  Texts the scripts compose for a human reader are kept as the format string
  and its arguments (\<open>JFmt\<close>; the Russian format strings are given in English,
  and no script reads such a text again), and \<open>str(x)\<close> of a float is
  \<open>JStrOf x\<close>: Python prints the shortest decimal that reads back as \<open>x\<close>, so
  \<open>float(str(x))\<close> is \<open>x\<close>.
\<close>

datatype json =
    JNull
  | JBool bool
  | JInt int
  | JFloat pyfloat
  | JStr string
  | JStrOf pyfloat
  | JFmt string "json list"
  | JList "json list"
  | JObj "(string \<times> json) list"

text \<open>\<open>j[key]\<close> for a string key: only a \<open>dict\<close> has string keys.\<close>

fun getitem :: "json \<Rightarrow> string \<Rightarrow> exn + json" where
  "getitem (JObj d) k = dict_get d k"
| "getitem _ _ = Inl TypeError"

text \<open>\<open>for x in j\<close>: lists, the keys of a dict, the characters of a string.\<close>

fun py_iter :: "json \<Rightarrow> exn + json list" where
  "py_iter (JList xs) = Inr xs"
| "py_iter (JObj d) = Inr (map (\<lambda>kv. JStr (fst kv)) d)"
| "py_iter (JStr s) = Inr (map (\<lambda>c. JStr [c]) s)"
| "py_iter _ = Inl TypeError"

definition float_of_int :: "int \<Rightarrow> exn + pyfloat" where
  "float_of_int i =
     (case fround_rat False (of_int i) of Inf s \<Rightarrow> Inl OverflowError | x \<Rightarrow> Inr x)"

text \<open>\<open>float(j)\<close>.\<close>

fun float_of :: "json \<Rightarrow> exn + pyfloat" where
  "float_of (JBool b) = Inr (flit (if b then 1 else 0))"
| "float_of (JInt i) = float_of_int i"
| "float_of (JFloat x) = Inr x"
| "float_of (JStr s) = (case parse_float s of None \<Rightarrow> Inl ValueError | Some x \<Rightarrow> Inr x)"
| "float_of (JStrOf x) = Inr x"
| "float_of (JFmt f xs) = Inl ValueError"
| "float_of _ = Inl TypeError"

text \<open>\<open>int(j)\<close>.\<close>

definition int_of_float :: "pyfloat \<Rightarrow> exn + int" where
  "int_of_float x =
     (case x of NaN \<Rightarrow> Inl ValueError | Inf s \<Rightarrow> Inl OverflowError
      | Fin s m \<Rightarrow> Inr (if s then - \<lfloor>m\<rfloor> else \<lfloor>m\<rfloor>))"

fun int_of :: "json \<Rightarrow> exn + int" where
  "int_of (JBool b) = Inr (if b then 1 else 0)"
| "int_of (JInt i) = Inr i"
| "int_of (JFloat x) = int_of_float x"
| "int_of (JStr s) = (case parse_int s of None \<Rightarrow> Inl ValueError | Some i \<Rightarrow> Inr i)"
| "int_of (JStrOf x) = Inl ValueError"
| "int_of (JFmt f xs) = Inl ValueError"
| "int_of _ = Inl TypeError"

text \<open>\<open>j.replace("USDT", '')\<close>: a method of strings only.\<close>

fun replace_usdt :: "json \<Rightarrow> exn + json" where
  "replace_usdt (JStr s) = Inr (JStr (py_remove ''USDT'' s))"
| "replace_usdt _ = Inl AttributeError"

text \<open>\<open>j in d\<close>: a list or a dict is not hashable.\<close>

fun in_dict :: "json \<Rightarrow> 'v dict \<Rightarrow> exn + bool" where
  "in_dict (JStr s) d = Inr (dict_has d s)"
| "in_dict (JList _) d = Inl TypeError"
| "in_dict (JObj _) d = Inl TypeError"
| "in_dict _ d = Inr False"

fun the_str :: "json \<Rightarrow> string" where
  "the_str (JStr s) = s"
| "the_str _ = []"

definition bind_sum :: "exn + 'a \<Rightarrow> ('a \<Rightarrow> exn + 'b) \<Rightarrow> exn + 'b" where
  "bind_sum v f = (case v of Inl x \<Rightarrow> Inl x | Inr a \<Rightarrow> f a)"

lemma bind_sum_simps [simp]: "bind_sum (Inl x) f = Inl x" "bind_sum (Inr a) f = f a"
  by (simp_all add: bind_sum_def)

text \<open>\<open>float(j[key])\<close> and \<open>float(j[key1][key2])\<close>.\<close>

definition float_at :: "json \<Rightarrow> string \<Rightarrow> exn + pyfloat" where
  "float_at j k = bind_sum (getitem j k) float_of"

definition float_at2 :: "json \<Rightarrow> string \<Rightarrow> string \<Rightarrow> exn + pyfloat" where
  "float_at2 j k l = bind_sum (getitem j k) (\<lambda>v. float_at v l)"

section \<open>Facts\<close>

lemma in_dict_True: "in_dict j d = Inr True \<longleftrightarrow> (\<exists>s. j = JStr s \<and> dict_has d s)"
  by (cases j) auto

lemma p_val_Inr [simp]: "p_val (Inr a) k = k a"
  by (simp add: p_val_def)

lemma p_val_Inl [simp]: "p_val (Inl x) k = p_raise x"
  by (simp add: p_val_def)

text \<open>Well-formed floats have a non-negative magnitude: every float the scripts
  compute or read is one.\<close>

fun wf_float :: "pyfloat \<Rightarrow> bool" where
  "wf_float (Fin s m) \<longleftrightarrow> 0 \<le> m"
| "wf_float _ \<longleftrightarrow> True"

lemma pow2_pos: "0 < pow2 e"
  by (simp add: pow2_def)

lemma wf_fround [simp]: "0 \<le> m \<Longrightarrow> wf_float (fround s m)"
  using pow2_pos by (simp add: fround_def Let_def round_half_even_nonneg less_imp_le)

lemma wf_fround_rat [simp]: "wf_float (fround_rat z x)"
  by (simp add: fround_rat_def)

lemma scan_digits_nonneg: "0 \<le> a \<Longrightarrow> scan_digits s a n = (b, k, rest) \<Longrightarrow> 0 \<le> b"
proof (induction s a n rule: scan_digits.induct)
  case (2 c cs a n)
  have "is_digit c \<Longrightarrow> 0 \<le> digit_val c"
    by (simp add: is_digit_def digit_val_def)
  with 2 show ?case
    by (auto split: if_splits)
qed simp

lemma pow10_pos: "0 < pow10 e"
  by (simp add: pow10_def)

lemma wf_parse_float: "parse_float s = Some x \<Longrightarrow> wf_float x"
  unfolding parse_float_def
  by (auto simp: pow10_pos less_imp_le dest!: scan_digits_nonneg [rotated] split: prod.splits if_splits)

lemma wf_float_of_int: "float_of_int i = Inr x \<Longrightarrow> wf_float x"
  using wf_fround_rat [of False "of_int i"]
  by (auto simp: float_of_int_def split: pyfloat.splits)

end
