(* ===== verification/Framework.thy ===== *)
theory Framework
  imports PyJson
begin

text \<open>
  What the scripts take from the module \<open>StrategyFramework\<close> (py_wrapper.cpp; the
  \<open>debug\<close> branch of the scripts defines the same names in Python): the order and
  its enumerations, and the methods of \<open>StrategyInstance\<close>, which hand a message,
  an order or a timer to the bot and return nothing.  Each call is an effect of
  the program; the bot's answer comes back as a later event.  What the scripts
  \<open>print\<close> is not modelled.
\<close>

datatype order_type = MARKET | LIMIT

datatype side = BUY | SELL

datatype time_in_force = GTC | IOC | FOK

record order =
  o_symbol :: string
  o_newClientOrderId :: string
  o_quantity :: pyfloat
  o_price :: pyfloat
  o_stopPrice :: pyfloat
  o_timeInForce :: time_in_force
  o_side :: side
  o_type :: order_type

definition Order :: order where
  "Order =
     \<lparr>o_symbol = [], o_newClientOrderId = [], o_quantity = f0, o_price = f0, o_stopPrice = f0,
      o_timeInForce = GTC, o_side = SELL, o_type = LIMIT\<rparr>"

record balance =
  b_free :: pyfloat
  b_locked :: pyfloat

definition Balance :: balance where
  "Balance = \<lparr>b_free = f0, b_locked = f0\<rparr>"

datatype effect =
    ToLog json
  | ToJournal json
  | ToWeb json
  | ToAlertChannel json
  | ExecOrder order
  | DeleteOrder order
  | CreateTimer string
  | StartTimer string int
  | StopTimer string
  | SendMessage json bool
  | RequestValue json
  | RequestCommand json "json list"
  | CreateIntervalTimer string int bool
  | GetPrice string

text \<open>The orders a run sent to the exchange, and those it asked the exchange to cancel.\<close>

fun orders_of :: "effect list \<Rightarrow> order list" where
  "orders_of [] = []"
| "orders_of (ExecOrder ord # es) = ord # orders_of es"
| "orders_of (_ # es) = orders_of es"

fun deleted_of :: "effect list \<Rightarrow> order list" where
  "deleted_of [] = []"
| "deleted_of (DeleteOrder ord # es) = ord # deleted_of es"
| "deleted_of (_ # es) = deleted_of es"

fun web_of :: "effect list \<Rightarrow> json list" where
  "web_of [] = []"
| "web_of (ToWeb j # es) = j # web_of es"
| "web_of (_ # es) = web_of es"

lemma orders_of_append [simp]: "orders_of (es @ fs) = orders_of es @ orders_of fs"
  by (induction es rule: orders_of.induct) auto

lemma deleted_of_append [simp]: "deleted_of (es @ fs) = deleted_of es @ deleted_of fs"
  by (induction es rule: deleted_of.induct) auto

lemma web_of_append [simp]: "web_of (es @ fs) = web_of es @ web_of fs"
  by (induction es rule: web_of.induct) auto

lemma orders_of_set: "ord \<in> set (orders_of es) \<longleftrightarrow> ExecOrder ord \<in> set es"
  by (induction es rule: orders_of.induct) auto

text \<open>An effect that neither places nor deletes an order.\<close>

definition no_trade :: "effect \<Rightarrow> bool" where
  "no_trade e \<longleftrightarrow> (case e of ExecOrder _ \<Rightarrow> False | DeleteOrder _ \<Rightarrow> False | _ \<Rightarrow> True)"

lemma no_trade_simps [simp]:
  "no_trade (ToLog j)" "no_trade (ToJournal j)" "no_trade (ToWeb j)" "no_trade (ToAlertChannel j)"
  "no_trade (CreateTimer t)" "no_trade (StartTimer t k)" "no_trade (StopTimer t)" "no_trade (SendMessage j b)"
  "no_trade (RequestValue j)" "no_trade (RequestCommand j js)" "no_trade (CreateIntervalTimer t k b)"
  "no_trade (GetPrice t)" "\<not> no_trade (ExecOrder ord)" "\<not> no_trade (DeleteOrder ord)"
  by (simp_all add: no_trade_def)

lemma no_trade_effects:
  "\<forall>e \<in> set es. no_trade e \<Longrightarrow> orders_of es = [] \<and> deleted_of es = []"
  by (induction es rule: orders_of.induct) (auto simp: no_trade_def)

lemma emits_no_trade:
  assumes "emits_only no_trade m"
  shows "orders_of (effects_of (m s)) = []" and "deleted_of (effects_of (m s)) = []"
  using assms no_trade_effects [of "effects_of (m s)"] by (simp_all add: emits_only_def)

end
