(* ===== verification/Fsm.thy ===== *)
theory Fsm
  imports Prelude
begin

text \<open>
  The class \<open>StateMachine\<close>, which every strategy script carries: a table from state
  names to handlers (bound methods of the owner), the end states, the current and
  the previous state.  A handler is a tag of the owner's type \<open>'h\<close>; the owner
  says what each tag does.  A state registered with the handler \<open>None\<close> has
  \<open>None\<close> in the table: calling it raises.
\<close>

named_theorems fsm_names \<open>the state names as strings\<close>

section \<open>State names\<close>

definition ST_START :: string where
  [fsm_names]: "ST_START = ''FSM_ST_START''"

definition ST_READY :: string where
  [fsm_names]: "ST_READY = ''FSM_ST_READY''"

definition ST_CHANGE :: string where
  [fsm_names]: "ST_CHANGE = ''FSM_ST_CHANGE''"

definition ST_STOP :: string where
  [fsm_names]: "ST_STOP = ''FSM_ST_STOP''"

definition ST_RESUME :: string where
  [fsm_names]: "ST_RESUME = ''FSM_ST_RESUME''"

definition ST_WAIT_PRICE :: string where
  [fsm_names]: "ST_WAIT_PRICE = ''FSM_ST_WAIT_PRICE''"

definition ST_IN_PRICE :: string where
  [fsm_names]: "ST_IN_PRICE = ''FSM_ST_IN_PRICE''"

definition ST_WAIT_ORDER_CMPL :: string where
  [fsm_names]: "ST_WAIT_ORDER_CMPL = ''FSM_ST_WAIT_ORDER_CMPL''"

definition ST_WAIT_ORDER_FILL :: string where
  [fsm_names]: "ST_WAIT_ORDER_FILL = ''FSM_ST_WAIT_ORDER_FILL''"

definition ST_WAIT_ORDER_DEL :: string where
  [fsm_names]: "ST_WAIT_ORDER_DEL = ''FSM_ST_WAIT_ORDER_DEL''"

definition ST_WAIT_USER_COMMAND :: string where
  [fsm_names]: "ST_WAIT_USER_COMMAND = ''FSM_ST_WAIT_USER_COMMAND''"

definition ST_WAIT_INP_TRIGGER :: string where
  [fsm_names]: "ST_WAIT_INP_TRIGGER = ''FSM_ST_WAIT_INP_TRIGGER''"

definition ST_WAIT_INP_PRICE :: string where
  [fsm_names]: "ST_WAIT_INP_PRICE = ''FSM_ST_WAIT_INP_PRICE''"

definition ST_WAIT_INP_QUANTITY :: string where
  [fsm_names]: "ST_WAIT_INP_QUANTITY = ''FSM_ST_WAIT_INP_QUANTITY''"

definition ST_READY_TO_TRADE :: string where
  [fsm_names]: "ST_READY_TO_TRADE = ''FSM_ST_READY_TO_TRADE''"

definition ST_START_TRADE :: string where
  [fsm_names]: "ST_START_TRADE = ''FSM_ST_START_TRADE''"

lemma fsm_names_upper [simp]:
  "py_upper ST_START = ST_START"
  "py_upper ST_READY = ST_READY"
  "py_upper ST_CHANGE = ST_CHANGE"
  "py_upper ST_STOP = ST_STOP"
  "py_upper ST_RESUME = ST_RESUME"
  "py_upper ST_WAIT_PRICE = ST_WAIT_PRICE"
  "py_upper ST_IN_PRICE = ST_IN_PRICE"
  "py_upper ST_WAIT_ORDER_CMPL = ST_WAIT_ORDER_CMPL"
  "py_upper ST_WAIT_ORDER_FILL = ST_WAIT_ORDER_FILL"
  "py_upper ST_WAIT_ORDER_DEL = ST_WAIT_ORDER_DEL"
  "py_upper ST_WAIT_USER_COMMAND = ST_WAIT_USER_COMMAND"
  "py_upper ST_WAIT_INP_TRIGGER = ST_WAIT_INP_TRIGGER"
  "py_upper ST_WAIT_INP_PRICE = ST_WAIT_INP_PRICE"
  "py_upper ST_WAIT_INP_QUANTITY = ST_WAIT_INP_QUANTITY"
  "py_upper ST_READY_TO_TRADE = ST_READY_TO_TRADE"
  "py_upper ST_START_TRADE = ST_START_TRADE"
  unfolding fsm_names by (code_simp+)

lemma fsm_names_differ:
  "ST_START \<noteq> ST_READY" "ST_START \<noteq> ST_CHANGE" "ST_START \<noteq> ST_STOP" "ST_START \<noteq> ST_RESUME" "ST_START \<noteq> ST_WAIT_PRICE" "ST_START \<noteq> ST_IN_PRICE" "ST_START \<noteq> ST_WAIT_ORDER_CMPL" "ST_START \<noteq> ST_WAIT_ORDER_FILL" "ST_START \<noteq> ST_WAIT_ORDER_DEL" "ST_START \<noteq> ST_WAIT_USER_COMMAND" "ST_START \<noteq> ST_WAIT_INP_TRIGGER" "ST_START \<noteq> ST_WAIT_INP_PRICE" "ST_START \<noteq> ST_WAIT_INP_QUANTITY" "ST_START \<noteq> ST_READY_TO_TRADE" "ST_START \<noteq> ST_START_TRADE"
  "ST_READY \<noteq> ST_CHANGE" "ST_READY \<noteq> ST_STOP" "ST_READY \<noteq> ST_RESUME" "ST_READY \<noteq> ST_WAIT_PRICE" "ST_READY \<noteq> ST_IN_PRICE" "ST_READY \<noteq> ST_WAIT_ORDER_CMPL" "ST_READY \<noteq> ST_WAIT_ORDER_FILL" "ST_READY \<noteq> ST_WAIT_ORDER_DEL" "ST_READY \<noteq> ST_WAIT_USER_COMMAND" "ST_READY \<noteq> ST_WAIT_INP_TRIGGER" "ST_READY \<noteq> ST_WAIT_INP_PRICE" "ST_READY \<noteq> ST_WAIT_INP_QUANTITY" "ST_READY \<noteq> ST_READY_TO_TRADE" "ST_READY \<noteq> ST_START_TRADE"
  "ST_CHANGE \<noteq> ST_STOP" "ST_CHANGE \<noteq> ST_RESUME" "ST_CHANGE \<noteq> ST_WAIT_PRICE" "ST_CHANGE \<noteq> ST_IN_PRICE" "ST_CHANGE \<noteq> ST_WAIT_ORDER_CMPL" "ST_CHANGE \<noteq> ST_WAIT_ORDER_FILL" "ST_CHANGE \<noteq> ST_WAIT_ORDER_DEL" "ST_CHANGE \<noteq> ST_WAIT_USER_COMMAND" "ST_CHANGE \<noteq> ST_WAIT_INP_TRIGGER" "ST_CHANGE \<noteq> ST_WAIT_INP_PRICE" "ST_CHANGE \<noteq> ST_WAIT_INP_QUANTITY" "ST_CHANGE \<noteq> ST_READY_TO_TRADE" "ST_CHANGE \<noteq> ST_START_TRADE"
  "ST_STOP \<noteq> ST_RESUME" "ST_STOP \<noteq> ST_WAIT_PRICE" "ST_STOP \<noteq> ST_IN_PRICE" "ST_STOP \<noteq> ST_WAIT_ORDER_CMPL" "ST_STOP \<noteq> ST_WAIT_ORDER_FILL" "ST_STOP \<noteq> ST_WAIT_ORDER_DEL" "ST_STOP \<noteq> ST_WAIT_USER_COMMAND" "ST_STOP \<noteq> ST_WAIT_INP_TRIGGER" "ST_STOP \<noteq> ST_WAIT_INP_PRICE" "ST_STOP \<noteq> ST_WAIT_INP_QUANTITY" "ST_STOP \<noteq> ST_READY_TO_TRADE" "ST_STOP \<noteq> ST_START_TRADE"
  "ST_RESUME \<noteq> ST_WAIT_PRICE" "ST_RESUME \<noteq> ST_IN_PRICE" "ST_RESUME \<noteq> ST_WAIT_ORDER_CMPL" "ST_RESUME \<noteq> ST_WAIT_ORDER_FILL" "ST_RESUME \<noteq> ST_WAIT_ORDER_DEL" "ST_RESUME \<noteq> ST_WAIT_USER_COMMAND" "ST_RESUME \<noteq> ST_WAIT_INP_TRIGGER" "ST_RESUME \<noteq> ST_WAIT_INP_PRICE" "ST_RESUME \<noteq> ST_WAIT_INP_QUANTITY" "ST_RESUME \<noteq> ST_READY_TO_TRADE" "ST_RESUME \<noteq> ST_START_TRADE"
  "ST_WAIT_PRICE \<noteq> ST_IN_PRICE" "ST_WAIT_PRICE \<noteq> ST_WAIT_ORDER_CMPL" "ST_WAIT_PRICE \<noteq> ST_WAIT_ORDER_FILL" "ST_WAIT_PRICE \<noteq> ST_WAIT_ORDER_DEL" "ST_WAIT_PRICE \<noteq> ST_WAIT_USER_COMMAND" "ST_WAIT_PRICE \<noteq> ST_WAIT_INP_TRIGGER" "ST_WAIT_PRICE \<noteq> ST_WAIT_INP_PRICE" "ST_WAIT_PRICE \<noteq> ST_WAIT_INP_QUANTITY" "ST_WAIT_PRICE \<noteq> ST_READY_TO_TRADE" "ST_WAIT_PRICE \<noteq> ST_START_TRADE"
  "ST_IN_PRICE \<noteq> ST_WAIT_ORDER_CMPL" "ST_IN_PRICE \<noteq> ST_WAIT_ORDER_FILL" "ST_IN_PRICE \<noteq> ST_WAIT_ORDER_DEL" "ST_IN_PRICE \<noteq> ST_WAIT_USER_COMMAND" "ST_IN_PRICE \<noteq> ST_WAIT_INP_TRIGGER" "ST_IN_PRICE \<noteq> ST_WAIT_INP_PRICE" "ST_IN_PRICE \<noteq> ST_WAIT_INP_QUANTITY" "ST_IN_PRICE \<noteq> ST_READY_TO_TRADE" "ST_IN_PRICE \<noteq> ST_START_TRADE"
  "ST_WAIT_ORDER_CMPL \<noteq> ST_WAIT_ORDER_FILL" "ST_WAIT_ORDER_CMPL \<noteq> ST_WAIT_ORDER_DEL" "ST_WAIT_ORDER_CMPL \<noteq> ST_WAIT_USER_COMMAND" "ST_WAIT_ORDER_CMPL \<noteq> ST_WAIT_INP_TRIGGER" "ST_WAIT_ORDER_CMPL \<noteq> ST_WAIT_INP_PRICE" "ST_WAIT_ORDER_CMPL \<noteq> ST_WAIT_INP_QUANTITY" "ST_WAIT_ORDER_CMPL \<noteq> ST_READY_TO_TRADE" "ST_WAIT_ORDER_CMPL \<noteq> ST_START_TRADE"
  "ST_WAIT_ORDER_FILL \<noteq> ST_WAIT_ORDER_DEL" "ST_WAIT_ORDER_FILL \<noteq> ST_WAIT_USER_COMMAND" "ST_WAIT_ORDER_FILL \<noteq> ST_WAIT_INP_TRIGGER" "ST_WAIT_ORDER_FILL \<noteq> ST_WAIT_INP_PRICE" "ST_WAIT_ORDER_FILL \<noteq> ST_WAIT_INP_QUANTITY" "ST_WAIT_ORDER_FILL \<noteq> ST_READY_TO_TRADE" "ST_WAIT_ORDER_FILL \<noteq> ST_START_TRADE"
  "ST_WAIT_ORDER_DEL \<noteq> ST_WAIT_USER_COMMAND" "ST_WAIT_ORDER_DEL \<noteq> ST_WAIT_INP_TRIGGER" "ST_WAIT_ORDER_DEL \<noteq> ST_WAIT_INP_PRICE" "ST_WAIT_ORDER_DEL \<noteq> ST_WAIT_INP_QUANTITY" "ST_WAIT_ORDER_DEL \<noteq> ST_READY_TO_TRADE" "ST_WAIT_ORDER_DEL \<noteq> ST_START_TRADE"
  "ST_WAIT_USER_COMMAND \<noteq> ST_WAIT_INP_TRIGGER" "ST_WAIT_USER_COMMAND \<noteq> ST_WAIT_INP_PRICE" "ST_WAIT_USER_COMMAND \<noteq> ST_WAIT_INP_QUANTITY" "ST_WAIT_USER_COMMAND \<noteq> ST_READY_TO_TRADE" "ST_WAIT_USER_COMMAND \<noteq> ST_START_TRADE"
  "ST_WAIT_INP_TRIGGER \<noteq> ST_WAIT_INP_PRICE" "ST_WAIT_INP_TRIGGER \<noteq> ST_WAIT_INP_QUANTITY" "ST_WAIT_INP_TRIGGER \<noteq> ST_READY_TO_TRADE" "ST_WAIT_INP_TRIGGER \<noteq> ST_START_TRADE"
  "ST_WAIT_INP_PRICE \<noteq> ST_WAIT_INP_QUANTITY" "ST_WAIT_INP_PRICE \<noteq> ST_READY_TO_TRADE" "ST_WAIT_INP_PRICE \<noteq> ST_START_TRADE"
  "ST_WAIT_INP_QUANTITY \<noteq> ST_READY_TO_TRADE" "ST_WAIT_INP_QUANTITY \<noteq> ST_START_TRADE"
  "ST_READY_TO_TRADE \<noteq> ST_START_TRADE"
  by (simp_all add: fsm_names)

lemmas fsm_names_distinct [simp] = fsm_names_differ fsm_names_differ [symmetric]

section \<open>The machine\<close>

record 'h fsm =
  fsm_handlers :: "'h option dict"
  fsm_startState :: "string option"
  fsm_endStates :: "string list"
  fsm_state :: string
  fsm_old_state :: string
  fsm_symbol :: string

definition StateMachine :: "'h fsm" where
  "StateMachine =
     \<lparr>fsm_handlers = [], fsm_startState = None, fsm_endStates = [],
      fsm_state = ST_START, fsm_old_state = ST_START, fsm_symbol = []\<rparr>"

definition add_state :: "string \<Rightarrow> 'h option \<Rightarrow> bool \<Rightarrow> 'h fsm \<Rightarrow> 'h fsm" where
  "add_state name handler end_state m =
     (let nm = py_upper name;
          m' = m\<lparr>fsm_handlers := dict_set nm handler (fsm_handlers m)\<rparr>
      in if end_state then m'\<lparr>fsm_endStates := fsm_endStates m' @ [nm]\<rparr> else m')"

definition set_start :: "string \<Rightarrow> 'h fsm \<Rightarrow> 'h fsm" where
  "set_start name m = m\<lparr>fsm_startState := Some (py_upper name)\<rparr>"

definition set_state :: "string \<Rightarrow> 'h fsm \<Rightarrow> 'h fsm" where
  "set_state st m =
     (if fsm_state m \<in> set (fsm_endStates m) then m
      else m\<lparr>fsm_old_state := fsm_state m, fsm_state := st\<rparr>)"

definition get_state :: "'h fsm \<Rightarrow> string" where
  "get_state m = fsm_state m"

text \<open>
  \<open>run\<close> calls a method of the machine's owner, so it is a program on the owner's
  state: \<open>getm\<close> reads the machine out of it and \<open>exec\<close> runs a handler.
\<close>

definition run :: "('s \<Rightarrow> 'h fsm) \<Rightarrow> ('h \<Rightarrow> 'a \<Rightarrow> ('s, 'e) stmt) \<Rightarrow> 'a \<Rightarrow> ('s, 'e) stmt" where
  "run getm exec arg = (\<lambda>s.
     let m = getm s
     in if fsm_state m \<in> set (fsm_endStates m) then p_skip s
        else p_val (dict_get (fsm_handlers m) (fsm_state m))
               (\<lambda>h. case h of None \<Rightarrow> p_raise TypeError | Some h' \<Rightarrow> exec h' arg) s)"

text \<open>
  A handler may call \<open>run\<close> again, so \<open>run\<close> and the handlers are mutually recursive.
  The owner ties the knot with fuel: the depth of nested calls of \<open>run\<close>, beyond which
  Python's stack is exhausted and \<open>RecursionError\<close> is raised.  A nested call takes two
  frames of the 1000 that CPython allows.
\<close>

definition run_depth :: nat where
  "run_depth = 400"

section \<open>Facts\<close>

lemma keeps_run [keeps_intros]: "(\<And>h. keeps I (exec h arg)) \<Longrightarrow> keeps I (run getm exec arg)"
  by (auto simp: run_def Let_def keeps_def p_skip_def p_val_def p_raise_def split: sum.split option.split)

lemma add_state_simps [simp]:
  "fsm_handlers (add_state name h e m) = dict_set (py_upper name) h (fsm_handlers m)"
  "fsm_endStates (add_state name h e m) = fsm_endStates m @ (if e then [py_upper name] else [])"
  "fsm_state (add_state name h e m) = fsm_state m"
  "fsm_startState (add_state name h e m) = fsm_startState m"
  by (simp_all add: add_state_def Let_def)

lemma set_start_simps [simp]:
  "fsm_handlers (set_start name m) = fsm_handlers m"
  "fsm_endStates (set_start name m) = fsm_endStates m"
  "fsm_state (set_start name m) = fsm_state m"
  by (simp_all add: set_start_def)

lemma set_state_simps [simp]:
  "fsm_handlers (set_state st m) = fsm_handlers m"
  "fsm_endStates (set_state st m) = fsm_endStates m"
  "fsm_startState (set_state st m) = fsm_startState m"
  "fsm_state (set_state st m) = (if fsm_state m \<in> set (fsm_endStates m) then fsm_state m else st)"
  by (simp_all add: set_state_def)

text \<open>An end state is never left.\<close>

lemma set_state_end: "fsm_state m \<in> set (fsm_endStates m) \<Longrightarrow> set_state st m = m"
  by (simp add: set_state_def)

text \<open>
  An object that owns a machine: the interface its handlers are written against.
  \<open>map_fsm f\<close> is the assignment that applies a method of the machine in place.
\<close>

locale fsm_host =
  fixes get_fsm :: "'s \<Rightarrow> 'h fsm"
    and map_fsm :: "('h fsm \<Rightarrow> 'h fsm) \<Rightarrow> 's \<Rightarrow> 's"
    and exec :: "'h \<Rightarrow> 'a \<Rightarrow> ('s, 'e) stmt"
  assumes get_map: "get_fsm (map_fsm f s) = f (get_fsm s)"
begin

lemma run_handler:
  assumes "fsm_state (get_fsm s) \<notin> set (fsm_endStates (get_fsm s))"
    and "map_of (fsm_handlers (get_fsm s)) (fsm_state (get_fsm s)) = Some (Some h)"
  shows "run get_fsm exec arg s = exec h arg s"
  using assms by (simp add: run_def Let_def dict_get_def p_val_def)

lemma run_end:
  assumes "fsm_state (get_fsm s) \<in> set (fsm_endStates (get_fsm s))"
  shows "run get_fsm exec arg s = (s, [], Done ())"
  using assms by (simp add: run_def Let_def p_skip_def)

lemma run_unregistered:
  assumes "fsm_state (get_fsm s) \<notin> set (fsm_endStates (get_fsm s))"
    and "map_of (fsm_handlers (get_fsm s)) (fsm_state (get_fsm s)) = None"
  shows "run get_fsm exec arg s = (s, [], Raised KeyError)"
  using assms by (simp add: run_def Let_def dict_get_def p_val_def p_raise_def)

text \<open>The scripts' idiom \<open>set_state(st); run(arg)\<close> runs the handler of \<open>st\<close>.\<close>

lemma goto_handler:
  assumes "fsm_state (get_fsm s) \<notin> set (fsm_endStates (get_fsm s))"
    and "st \<notin> set (fsm_endStates (get_fsm s))"
    and "map_of (fsm_handlers (get_fsm s)) st = Some (Some h)"
  shows "run get_fsm exec arg (map_fsm (set_state st) s) = exec h arg (map_fsm (set_state st) s)"
  using assms by (intro run_handler) (simp_all add: get_map)

end

end
