(* ===== verification/SymbolData.thy ===== *)
theory SymbolData
  imports Framework Fsm
begin

text \<open>
  The class \<open>SymbolData\<close> of mstrategy.py: the trading cycle of one currency.  Its
  machine waits for the price to reach a trigger, places an order, waits until the
  exchange confirms and fills it, corrects the quantity by the commission, and goes
  on with the opposite order.

  The two orders live in the list \<open>self.orders\<close>, and \<open>self.wait_order_fill\<close> is either
  a fresh \<open>Order()\<close> or the same object as one of them: it is a reference here
  (\<open>order_ref\<close>), so an assignment to a field of the order is seen through it.
\<close>

section \<open>State\<close>

datatype order_ref = NewOrder | SlotOrder nat

datatype sd_handler =
    H_ready | H_wait_price | H_in_price | H_wait_order_compl | H_wait_order_fill
  | H_wait_order_del | H_resume

record symbol_data =
  sd_step :: nat
  sd_orders :: "order list"
  sd_wait_order_fill :: order_ref
  sd_fsm :: "sd_handler fsm"
  sd_wait_price :: bool
  sd_running :: bool
  sd_change_mode :: bool
  sd_counter :: int
  sd_symbol :: string
  sd_price :: "pyfloat list"
  sd_trigger :: "pyfloat list"
  sd_trade_state :: "json dict"
  sd_temp_price :: "pyfloat list"
  sd_temp_trigger :: "pyfloat list"
  sd_temp_quantity :: pyfloat
  sd_balance :: balance
  sd_balance_usdt :: balance
  sd_t_commission :: pyfloat
  sd_m_commission :: pyfloat
  sd_quotePrecision :: int
  sd_quoteAssetPrecision :: int
  sd_tickSize :: pyfloat
  sd_stepSize :: pyfloat
  sd_minNotional :: pyfloat
  sd_multiplierUp :: json
  sd_multiplierDown :: pyfloat
  sd_report :: "json option"

type_synonym sd_act = "(symbol_data, effect) stmt"

text \<open>The machine \<open>__init__\<close> builds: \<open>FSM_ST_START\<close> has no handler.\<close>

definition sd_fsm_init :: "sd_handler fsm" where
  "sd_fsm_init =
     add_state ST_STOP None True
      (add_state ST_RESUME (Some H_resume) False
        (add_state ST_WAIT_ORDER_DEL (Some H_wait_order_del) False
          (add_state ST_WAIT_ORDER_FILL (Some H_wait_order_fill) False
            (add_state ST_WAIT_ORDER_CMPL (Some H_wait_order_compl) False
              (add_state ST_IN_PRICE (Some H_in_price) False
                (add_state ST_WAIT_PRICE (Some H_wait_price) False
                  (add_state ST_READY (Some H_ready) False
                    (set_start ST_START StateMachine))))))))"

definition SymbolData :: "string \<Rightarrow> symbol_data" where
  "SymbolData symbol =
     \<lparr>sd_step = 0,
      sd_orders =
        [Order\<lparr>o_symbol := symbol @ ''USDT'', o_type := LIMIT, o_timeInForce := GTC, o_side := BUY\<rparr>,
         Order\<lparr>o_symbol := symbol @ ''USDT'', o_type := LIMIT, o_timeInForce := GTC, o_side := SELL\<rparr>],
      sd_wait_order_fill = NewOrder,
      sd_fsm = sd_fsm_init,
      sd_wait_price = False, sd_running = False, sd_change_mode = False,
      sd_counter = 0, sd_symbol = symbol,
      sd_price = [f0, f0], sd_trigger = [f0, f0],
      sd_trade_state =
        [(''e'', JStr ''tradeState''), (''s'', JStr (symbol @ ''USDT'')), (''x'', JStr ''data''),
         (''a'', JStr ''wait''), (''m'', JFmt ''Trading stopped. Waiting for trade data'' [])],
      sd_temp_price = [f0, f0], sd_temp_trigger = [f0, f0], sd_temp_quantity = f0,
      sd_balance = Balance, sd_balance_usdt = Balance,
      sd_t_commission = f0, sd_m_commission = f0,
      sd_quotePrecision = 8, sd_quoteAssetPrecision = 8,
      sd_tickSize = flit (1 / 100), sd_stepSize = flit (1 / 1000000),
      sd_minNotional = flit 10, sd_multiplierUp = JInt 5, sd_multiplierDown = flit (2 / 10),
      sd_report = None\<rparr>"

section \<open>Helpers\<close>

definition sd_set_state :: "string \<Rightarrow> sd_act" where
  "sd_set_state st = p_upd (\<lambda>s. s\<lparr>sd_fsm := set_state st (sd_fsm s)\<rparr>)"

text \<open>\<open>self.trade_state[k] = v\<close>, and \<open>self.h_send_to_web(json.dumps(self.trade_state))\<close>.\<close>

definition ts_set :: "string \<Rightarrow> json \<Rightarrow> sd_act" where
  "ts_set k v = p_upd (\<lambda>s. s\<lparr>sd_trade_state := dict_set k v (sd_trade_state s)\<rparr>)"

definition send_trade_state :: sd_act where
  "send_trade_state = p_read (\<lambda>s. JObj (sd_trade_state s)) (\<lambda>j. p_emit (ToWeb j))"

text \<open>\<open>self.h_to_journal\<close> is \<open>Strategy.to_db_journal\<close>.\<close>

definition to_db_journal :: "string \<Rightarrow> json \<Rightarrow> json" where
  "to_db_journal symbol msg = JFmt (''{}'' @ [CHR 0x40] @ ''{}'') [JStr symbol, msg]"

definition h_to_journal :: "json \<Rightarrow> sd_act" where
  "h_to_journal msg = p_read sd_symbol (\<lambda>sym. p_emit (ToJournal (to_db_journal sym msg)))"

definition log_fsm :: "string \<Rightarrow> sd_act" where
  "log_fsm func =
     p_read (\<lambda>s. [JStr (sd_symbol s), JStr (get_state (sd_fsm s)), JStr func])
       (\<lambda>args. p_emit (ToLog (JFmt ''{} - FSM state: {} func: {}'' args)))"

definition log_fsm_short :: "string \<Rightarrow> sd_act" where
  "log_fsm_short func =
     p_read (\<lambda>s. [JStr (get_state (sd_fsm s)), JStr func])
       (\<lambda>args. p_emit (ToLog (JFmt ''FSM state: {} func: {}'' args)))"

definition compl_timer :: "string \<Rightarrow> string" where
  "compl_timer symbol = symbol @ ''_compl_timer''"

definition py_nth :: "'a list \<Rightarrow> nat \<Rightarrow> exn + 'a" where
  "py_nth xs i = (if i < length xs then Inr (xs ! i) else Inl IndexError)"

definition upd_order :: "nat \<Rightarrow> (order \<Rightarrow> order) \<Rightarrow> symbol_data \<Rightarrow> symbol_data" where
  "upd_order i f s = s\<lparr>sd_orders := (sd_orders s)[i := f (sd_orders s ! i)]\<rparr>"

section \<open>Common functions\<close>

definition percent :: "pyfloat \<Rightarrow> pyfloat \<Rightarrow> exn + pyfloat" where
  "percent val prc = bind_sum (fdiv val (flit 100)) (\<lambda>x. Inr (fmul x prc))"

text \<open>The subtraction of a step is computed and then overwritten, as in the code.\<close>

definition round_at_step :: "pyfloat \<Rightarrow> pyfloat \<Rightarrow> exn + pyfloat" where
  "round_at_step val step =
     (let fstr = fmt_f step
      in bind_sum (py_nth (py_split (CHR ''.'') fstr) 1)
           (\<lambda>frac.
              let step_prec = length frac;
                  round_val = fround_dec val step_prec;
                  round_val = (if val \<le> round_val then fsub round_val step else round_val);
                  round_val = fround_dec val step_prec
              in Inr round_val))"

definition reset :: sd_act where
  "reset = p_block [log_fsm_short ''reset'', p_upd (\<lambda>s. s\<lparr>sd_wait_price := False, sd_step := 0\<rparr>)]"

definition deref_order :: "symbol_data \<Rightarrow> order_ref \<Rightarrow> order" where
  "deref_order s r = (case r of NewOrder \<Rightarrow> Order | SlotOrder i \<Rightarrow> sd_orders s ! i)"

definition waited_order :: "symbol_data \<Rightarrow> order" where
  "waited_order s = deref_order s (sd_wait_order_fill s)"

definition wait_order_act :: "symbol_data \<Rightarrow> bool" where
  "wait_order_act s \<longleftrightarrow> o_newClientOrderId (waited_order s) \<noteq> []"

definition current_order :: "symbol_data \<Rightarrow> order" where
  "current_order s = sd_orders s ! sd_step s"

definition empty_report :: json where
  "empty_report =
     JObj [(''X'', JStr ''EMPTY''), (''c'', JStr []), (''p'', JInt 0), (''q'', JInt 0), (''n'', JInt 0)]"

definition reset_order_report :: sd_act where
  "reset_order_report = p_upd (\<lambda>s. s\<lparr>sd_report := Some empty_report\<rparr>)"

text \<open>\<open>self.report[k]\<close>; the attribute does not exist before the first report.\<close>

definition report_item :: "string \<Rightarrow> symbol_data \<Rightarrow> exn + json" where
  "report_item k s = (case sd_report s of None \<Rightarrow> Inl AttributeError | Some r \<Rightarrow> getitem r k)"

definition is_trigger_in_price :: "pyfloat \<Rightarrow> symbol_data \<Rightarrow> exn + bool" where
  "is_trigger_in_price val s =
     bind_sum (py_nth (sd_price s) 0) (\<lambda>p0.
       if is_zero p0 then Inr False
       else bind_sum (py_nth (sd_price s) 1) (\<lambda>p1.
         if is_zero p1 then Inr False
         else Inr ((p0 \<le> val \<and> val \<le> p1) \<or> (val \<le> p0 \<and> p1 \<le> val))))"

fun json_of_side :: "side \<Rightarrow> json" where
  "json_of_side BUY = JStr ''BUY''"
| "json_of_side SELL = JStr ''SELL''"

fun json_of_type :: "order_type \<Rightarrow> json" where
  "json_of_type LIMIT = JStr ''LIMIT''"
| "json_of_type MARKET = JStr ''MARKET''"

fun json_of_tif :: "time_in_force \<Rightarrow> json" where
  "json_of_tif GTC = JStr ''GTC''"
| "json_of_tif IOC = JStr ''IOC''"
| "json_of_tif FOK = JStr ''FOK''"

definition print_order_to_string :: "order \<Rightarrow> json" where
  "print_order_to_string ord =
     JFmt ''ORDER: {} pair: {} operation: {} quantity: {} price: {} type: {} kind: {}''
       [JStr (o_newClientOrderId ord), JStr (o_symbol ord), json_of_side (o_side ord),
        JStrOf (o_quantity ord), JStrOf (o_price ord), json_of_type (o_type ord),
        json_of_tif (o_timeInForce ord)]"

definition send_orders_change :: "json \<Rightarrow> sd_act" where
  "send_orders_change msg = p_block [
     log_fsm_short ''send_orders_change'',
     p_read (\<lambda>s. JObj
         [(''e'', JStr ''getFilters''), (''s'', JStr (sd_symbol s)), (''m'', msg),
          (''B'', JObj [(''p'', JFloat (o_price (sd_orders s ! 0))), (''q'', JFloat (o_quantity (sd_orders s ! 0)))]),
          (''S'', JObj [(''p'', JFloat (o_price (sd_orders s ! 1))), (''q'', JFloat (o_quantity (sd_orders s ! 1)))])])
       (\<lambda>j. p_emit (ToWeb j))]"

text \<open>The float arguments are printed with \<open>%f\<close>.\<close>

definition print_trade_pos :: "json \<Rightarrow> bool \<Rightarrow> symbol_data \<Rightarrow> json" where
  "print_trade_pos header temp s =
     JFmt ''{}: USDT -> {} trigger {} price {} quantity {} {} -> USDT trigger {} price {} quantity {}''
       (if \<not> temp then
          [header, JStr (sd_symbol s), JStr (fmt_f (sd_trigger s ! 0)), JStr (fmt_f (o_price (sd_orders s ! 0))),
           JStr (fmt_f (o_quantity (sd_orders s ! 0))), JStr (sd_symbol s), JStr (fmt_f (sd_trigger s ! 1)),
           JStr (fmt_f (o_price (sd_orders s ! 1))), JStr (fmt_f (o_quantity (sd_orders s ! 1)))]
        else
          [header, JStr (sd_symbol s), JStr (fmt_f (sd_temp_trigger s ! 0)), JStr (fmt_f (sd_temp_price s ! 0)),
           JStr (fmt_f (sd_temp_quantity s)), JStr (sd_symbol s), JStr (fmt_f (sd_temp_trigger s ! 1)),
           JStr (fmt_f (sd_temp_price s ! 1)), JStr (fmt_f (sd_temp_quantity s))])"

end
