(* ===== verification/SymbolFsm.thy ===== *)
theory SymbolFsm
  imports SymbolData
begin

text \<open>
  The handlers of the machine of \<open>SymbolData\<close> and the methods the strategy calls on
  it when an event arrives.  A handler that calls \<open>self.fsm.run(None)\<close> takes the
  rest of the machine as its argument \<open>go\<close>; \<open>sd_run\<close> ties the knot.
\<close>

section \<open>Handlers\<close>

definition fsm_start :: sd_act where
  "fsm_start = log_fsm_short ''fsm_start''"

definition fsm_ready :: sd_act where
  "fsm_ready = p_block [
     log_fsm ''fsm_ready'',
     ts_set ''x'' (JStr ''data''),
     ts_set ''a'' (JStr ''ready''),
     ts_set ''m'' (JFmt ''Trade data is ready'' [])]"

definition fsm_wait_price :: "sd_act \<Rightarrow> sd_act" where
  "fsm_wait_price go =
     p_read (\<lambda>s. is_trigger_in_price (sd_trigger s ! sd_step s) s) (\<lambda>hit.
       p_val hit (\<lambda>b.
         if b then p_block [
           p_upd (\<lambda>s. s\<lparr>sd_wait_price := False\<rparr>),
           sd_set_state ST_IN_PRICE,
           go]
         else p_skip))"

text \<open>The names of the orders; the code tests \<open>step == 1\<close> first.\<close>

definition order_id :: "nat \<Rightarrow> string \<Rightarrow> int \<Rightarrow> string" where
  "order_id step symbol counter =
     (if step = 1 then ''order_'' @ symbol @ ''_to_USDT_'' @ py_str_int counter
      else ''order_USDT_to_'' @ symbol @ ''_'' @ py_str_int counter)"

definition name_order :: sd_act where
  "name_order =
     p_upd (\<lambda>s. upd_order (sd_step s)
       (\<lambda>ord. ord\<lparr>o_newClientOrderId := order_id (sd_step s) (sd_symbol s) (sd_counter s)\<rparr>) s)"

definition placed_msg :: "symbol_data \<Rightarrow> json" where
  "placed_msg s =
     JFmt (if sd_step s = 1 then ''Order placed to sell {} at {} USDT'' else ''Order placed to buy {} at {} USDT'')
       [JStr (sd_symbol s), JStrOf (o_price (current_order s))]"

definition fsm_in_price :: sd_act where
  "fsm_in_price = p_block [
     p_read (\<lambda>s. [JStr (get_state (sd_fsm s)), JStr ''fsm_in_price'', JStr (sd_symbol s)])
       (\<lambda>args. p_emit (ToLog (JFmt ''FSM state: {} func: {} symbol {}'' args))),
     p_read (\<lambda>s. JFmt ''Trigger {}-{} fired'' [JStr (sd_symbol s), JStrOf (sd_trigger s ! sd_step s)]) (\<lambda>msg.
       p_block [
         ts_set ''x'' (JStr ''trigger''),
         ts_set ''a'' (JStr ''ready''),
         ts_set ''m'' msg,
         send_trade_state,
         h_to_journal msg,
         p_when (\<lambda>s. sd_step s = 1 \<or> sd_step s = 0) name_order,
         p_read (\<lambda>s. if sd_step s = 1 \<or> sd_step s = 0 then placed_msg s else msg) (\<lambda>msg.
           p_block [
             p_read current_order (\<lambda>ord. p_emit (ExecOrder ord)),
             p_upd (\<lambda>s. s\<lparr>sd_wait_order_fill := SlotOrder (sd_step s)\<rparr>),
             p_read sd_symbol (\<lambda>sym. p_emit (StartTimer (compl_timer sym) 5)),
             h_to_journal msg,
             p_read (\<lambda>s. print_order_to_string (current_order s)) h_to_journal,
             sd_set_state ST_WAIT_ORDER_CMPL])])]"

definition is_key_error :: "exn \<Rightarrow> bool" where
  "is_key_error x \<longleftrightarrow> x = KeyError"

definition stop_compl_timer :: sd_act where
  "stop_compl_timer = p_read sd_symbol (\<lambda>sym. p_emit (StopTimer (compl_timer sym)))"

text \<open>\<open>self.current_order().newClientOrderId == self.report['c'] and status == self.report['X']\<close>.\<close>

definition report_is :: "string \<Rightarrow> symbol_data \<Rightarrow> exn + bool" where
  "report_is status s =
     bind_sum (report_item ''c'' s) (\<lambda>c.
       if c = JStr (o_newClientOrderId (current_order s))
       then bind_sum (report_item ''X'' s) (\<lambda>x. Inr (x = JStr status))
       else Inr False)"

definition fsm_wait_order_compl :: sd_act where
  "fsm_wait_order_compl = p_block [
     log_fsm ''fsm_wait_order_compl'',
     p_try is_key_error
       (p_read (report_is ''NEW'') (\<lambda>r. p_val r (\<lambda>b.
          if b then
            (let msg = JFmt ''Order confirmed by Binance, waiting for it to be filled'' [] in p_block [
              reset_order_report,
              stop_compl_timer,
              ts_set ''x'' (JStr ''order''),
              ts_set ''a'' (JStr ''wait''),
              ts_set ''m'' msg,
              send_trade_state,
              h_to_journal msg,
              sd_set_state ST_WAIT_ORDER_FILL])
          else p_skip)))
       (p_emit (ToLog (JFmt ''Binance report: key error 'c' or 'X' '' [])))]"

text \<open>
  The quantity of both orders after a commission \<open>cmsn\<close>: it is taken from the order
  of the step just entered, and rounded.
\<close>

definition correct_quantity :: "pyfloat \<Rightarrow> sd_act" where
  "correct_quantity cmsn = p_block [
     p_upd (\<lambda>s. upd_order 0
       (\<lambda>ord. ord\<lparr>o_quantity := fsub (o_quantity (current_order s)) cmsn\<rparr>) s),
     p_read (\<lambda>s. round_at_step (o_quantity (sd_orders s ! 0)) (sd_stepSize s)) (\<lambda>r. p_val r (\<lambda>q.
       p_upd (upd_order 0 (\<lambda>ord. ord\<lparr>o_quantity := q\<rparr>)))),
     p_upd (\<lambda>s. upd_order 1 (\<lambda>ord. ord\<lparr>o_quantity := o_quantity (sd_orders s ! 0)\<rparr>) s)]"

definition log_correction :: sd_act where
  "log_correction =
     p_read (\<lambda>s. [JStr (o_newClientOrderId (current_order s)), JStrOf (o_quantity (current_order s))])
       (\<lambda>args. p_emit (ToLog (JFmt ''Correction order {}: new quantity {}'' args)))"

definition apply_commission :: "json \<Rightarrow> sd_act" where
  "apply_commission cmsn_asset =
     (if cmsn_asset = JStr ''USDT'' then
        p_read (\<lambda>s.
            bind_sum (bind_sum (report_item ''n'' s) float_of) (\<lambda>n.
            bind_sum (bind_sum (report_item ''p'' s) float_of) (\<lambda>p. fdiv n p)))
          (\<lambda>r. p_val r (\<lambda>cmsn_symb. p_block [
             correct_quantity cmsn_symb,
             send_orders_change (JFmt ''Commission in USDT, order quantity reduced'' []),
             log_correction]))
      else if cmsn_asset \<noteq> JStr ''BNB'' then
        p_read (\<lambda>s. bind_sum (report_item ''n'' s) float_of)
          (\<lambda>r. p_val r (\<lambda>n. p_block [
             correct_quantity n,
             send_orders_change (JFmt ''Commission in {}, order quantity reduced'' [cmsn_asset]),
             log_correction]))
      else p_skip)"

definition settle_commission :: sd_act where
  "settle_commission =
     p_read (report_item ''N'') (\<lambda>r. p_val r (\<lambda>cmsn_asset.
       p_block [
         p_read (report_item ''n'') (\<lambda>r. p_val r (\<lambda>n.
           p_emit (ToLog (JFmt ''Commission {}/{}'' [cmsn_asset, n])))),
         apply_commission cmsn_asset]))"

definition next_step :: sd_act where
  "next_step = p_upd (\<lambda>s.
     if sd_step s = 0 then s\<lparr>sd_step := 1\<rparr>
     else if sd_step s = 1 then s\<lparr>sd_step := 0, sd_counter := sd_counter s + 1\<rparr>
     else s)"

definition fsm_wait_order_fill :: sd_act where
  "fsm_wait_order_fill = p_block [
     log_fsm ''fsm_wait_order_fill'',
     p_read (report_is ''FILLED'') (\<lambda>r. p_val r (\<lambda>b.
       if b then
         (let msg = JFmt ''Order filled by Binance'' [] in p_block [
           stop_compl_timer,
           p_upd (\<lambda>s. s\<lparr>sd_wait_order_fill := NewOrder\<rparr>),
           ts_set ''a'' (JStr ''ready''),
           ts_set ''m'' msg,
           send_trade_state,
           h_to_journal msg,
           p_read (\<lambda>s. [JStr (sd_symbol s), JInt (sd_counter s), JInt (int (sd_step s))])
             (\<lambda>args. p_emit (ToLog (JFmt ''symbol {} cycle {} step {} '' args))),
           next_step,
           settle_commission,
           p_upd (\<lambda>s. s\<lparr>sd_wait_price := True\<rparr>),
           sd_set_state ST_WAIT_PRICE])
       else p_skip))]"

definition fsm_wait_order_del :: "sd_act \<Rightarrow> sd_act" where
  "fsm_wait_order_del go = p_block [
     log_fsm ''fsm_wait_order_del'',
     p_read (report_item ''X'') (\<lambda>r. p_val r (\<lambda>x.
       if x = JStr ''CANCELED'' then
         p_read (\<lambda>s. JFmt ''Order {} cancelled'' [JStr (o_newClientOrderId (waited_order s))]) (\<lambda>msg. p_block [
           stop_compl_timer,
           p_upd (\<lambda>s. s\<lparr>sd_wait_order_fill := NewOrder\<rparr>),
           h_to_journal msg,
           ts_set ''x'' (JStr ''order''),
           ts_set ''a'' (JStr ''stop''),
           ts_set ''m'' msg,
           send_trade_state,
           p_if sd_change_mode
             (p_block [
               p_upd (\<lambda>s. s\<lparr>sd_wait_price := True\<rparr>),
               sd_set_state ST_WAIT_PRICE,
               p_upd (\<lambda>s. s\<lparr>sd_change_mode := False\<rparr>)])
             (p_block [
               sd_set_state ST_RESUME,
               go])])
       else p_skip))]"

definition fsm_resume :: sd_act where
  "fsm_resume = p_block [
     log_fsm ''fsm_resume'',
     stop_compl_timer,
     reset,
     p_upd (\<lambda>s. s\<lparr>sd_running := False\<rparr>),
     p_read (\<lambda>s. JFmt ''Trading {} stopped'' [JStr (sd_symbol s)]) (\<lambda>msg. p_block [
       ts_set ''x'' (JStr ''script''),
       ts_set ''a'' (JStr ''stop''),
       ts_set ''m'' msg,
       send_trade_state,
       p_emit (ToAlertChannel msg),
       h_to_journal msg])]"

section \<open>The machine\<close>

fun sd_exec :: "sd_act \<Rightarrow> sd_handler \<Rightarrow> unit \<Rightarrow> sd_act" where
  "sd_exec go H_ready _ = fsm_ready"
| "sd_exec go H_wait_price _ = fsm_wait_price go"
| "sd_exec go H_in_price _ = fsm_in_price"
| "sd_exec go H_wait_order_compl _ = fsm_wait_order_compl"
| "sd_exec go H_wait_order_fill _ = fsm_wait_order_fill"
| "sd_exec go H_wait_order_del _ = fsm_wait_order_del go"
| "sd_exec go H_resume _ = fsm_resume"

primrec sd_run :: "nat \<Rightarrow> sd_act" where
  "sd_run 0 s = (s, [], Raised RecursionError)"
| "sd_run (Suc n) s = run sd_fsm (sd_exec (sd_run n)) () s"

definition sd_fsm_run :: sd_act where
  "sd_fsm_run = sd_run run_depth"

section \<open>Events\<close>

definition sd_on_exchange_info :: "json \<Rightarrow> sd_act" where
  "sd_on_exchange_info json_info = p_block [
     p_val (bind_sum (getitem json_info ''quotePrecision'') int_of) (\<lambda>i.
       p_upd (\<lambda>s. s\<lparr>sd_quotePrecision := i\<rparr>)),
     p_val (bind_sum (getitem json_info ''quoteAssetPrecision'') int_of) (\<lambda>i.
       p_upd (\<lambda>s. s\<lparr>sd_quoteAssetPrecision := i\<rparr>)),
     p_val (getitem json_info ''filters'') (\<lambda>filters. p_block [
       p_read sd_symbol (\<lambda>sym. p_emit (ToLog (JFmt ''Filters {}:'' [JStr sym]))),
       p_val (py_iter filters) (\<lambda>fs. p_for fs (\<lambda>f.
         p_val (getitem f ''filterType'') (\<lambda>ft.
           if ft = JStr ''PRICE_FILTER'' then p_block [
             p_val (float_at f ''tickSize'') (\<lambda>x. p_upd (\<lambda>s. s\<lparr>sd_tickSize := x\<rparr>)),
             p_val (getitem f ''tickSize'') (\<lambda>v. p_emit (ToLog (JFmt ''Filter: {} = {}'' [ft, v])))]
           else if ft = JStr ''LOT_SIZE'' then p_block [
             p_val (float_at f ''stepSize'') (\<lambda>x. p_upd (\<lambda>s. s\<lparr>sd_stepSize := x\<rparr>)),
             p_val (getitem f ''stepSize'') (\<lambda>v. p_emit (ToLog (JFmt ''Filter: {} = {}'' [ft, v])))]
           else if ft = JStr ''PERCENT_PRICE'' then p_block [
             p_val (float_at f ''multiplierUp'') (\<lambda>x. p_upd (\<lambda>s. s\<lparr>sd_multiplierUp := JFloat x\<rparr>)),
             p_val (float_at f ''multiplierDown'') (\<lambda>x. p_upd (\<lambda>s. s\<lparr>sd_multiplierDown := x\<rparr>)),
             p_val (getitem f ''multiplierUp'') (\<lambda>u. p_val (getitem f ''multiplierDown'') (\<lambda>d.
               p_emit (ToLog (JFmt ''Filter: {} = Up {}, Down {}'' [ft, u, d]))))]
           else if ft = JStr ''MIN_NOTIONAL'' then p_block [
             p_val (float_at f ''minNotional'') (\<lambda>x. p_upd (\<lambda>s. s\<lparr>sd_minNotional := x\<rparr>)),
             p_val (getitem f ''minNotional'') (\<lambda>v. p_emit (ToLog (JFmt ''Filter: {} = {}'' [ft, v])))]
           else p_skip)))])]"

text \<open>The \<open>set\<close> request: the new data wait in \<open>temp_*\<close> until trading is (re)started.\<close>

definition set_temp_data :: "json \<Rightarrow> sd_act" where
  "set_temp_data j = p_block [
     p_val (float_at2 j ''B'' ''t'') (\<lambda>x. p_upd (\<lambda>s. s\<lparr>sd_temp_trigger := (sd_temp_trigger s)[0 := x]\<rparr>)),
     p_val (float_at2 j ''B'' ''p'') (\<lambda>x. p_upd (\<lambda>s. s\<lparr>sd_temp_price := (sd_temp_price s)[0 := x]\<rparr>)),
     p_val (float_at2 j ''S'' ''t'') (\<lambda>x. p_upd (\<lambda>s. s\<lparr>sd_temp_trigger := (sd_temp_trigger s)[1 := x]\<rparr>)),
     p_val (float_at2 j ''S'' ''p'') (\<lambda>x. p_upd (\<lambda>s. s\<lparr>sd_temp_price := (sd_temp_price s)[1 := x]\<rparr>)),
     p_val (float_at j ''q'') (\<lambda>x. p_upd (\<lambda>s. s\<lparr>sd_temp_quantity := x\<rparr>))]"

definition trade_data_reply :: "symbol_data \<Rightarrow> json dict \<Rightarrow> json dict" where
  "trade_data_reply s d =
     dict_set ''m'' (JStr ''Ok'') (dict_set ''c'' (JStr ''000'')
      (dict_set ''S'' (JObj [(''t'', JStrOf (sd_temp_trigger s ! 1)), (''p'', JStrOf (sd_temp_price s ! 1))])
        (dict_set ''B'' (JObj [(''t'', JStrOf (sd_temp_trigger s ! 0)), (''p'', JStrOf (sd_temp_price s ! 0))])
          (dict_set ''r'' (JStr ''1s'')
            (dict_set ''q'' (JStrOf (sd_temp_quantity s)) d)))))"

text \<open>\<open>json_out_data\<close> is \<open>json_in_data\<close> itself: the reply is the request with keys
  overwritten, and the keys are read after \<open>e\<close> is set.\<close>

definition sd_on_trade_data :: "json \<Rightarrow> sd_act" where
  "sd_on_trade_data json_in_data =
     (case json_in_data of
        JObj d0 \<Rightarrow>
          (let d = dict_set ''e'' (JStr ''tradeData'') d0; j = JObj d in
           p_bind
             (p_try is_key_error
               (p_bind
                 (p_block [
                   p_val (getitem j ''a'') (\<lambda>a.
                     if a = JStr ''set'' then p_block [
                       set_temp_data j,
                       p_if (\<lambda>s. \<not> sd_running s)
                         (p_block [sd_set_state ST_READY, sd_fsm_run])
                         (p_block [
                           ts_set ''x'' (JStr ''script''),
                           ts_set ''a'' (JStr ''wait''),
                           ts_set ''m'' (JFmt ''Data changed. Trading is running'' [])])]
                     else p_skip),
                   send_trade_state])
                 (\<lambda>_. p_read (\<lambda>s. trade_data_reply s d) p_ret))
               (p_ret (dict_set ''m'' (JFmt ''JSON key not found'' []) (dict_set ''c'' (JStr ''002'') d))))
             (\<lambda>out. p_emit (ToWeb (JObj out))))
      | _ \<Rightarrow> p_raise TypeError)"

text \<open>The data set before become those traded with.\<close>

definition take_temp_data :: "symbol_data \<Rightarrow> symbol_data" where
  "take_temp_data s =
     upd_order 1 (\<lambda>ord. ord\<lparr>o_price := sd_temp_price s ! 1, o_quantity := sd_temp_quantity s\<rparr>)
      (upd_order 0 (\<lambda>ord. ord\<lparr>o_price := sd_temp_price s ! 0, o_quantity := sd_temp_quantity s\<rparr>)
        (s\<lparr>sd_trigger := (sd_trigger s)[0 := sd_temp_trigger s ! 0, 1 := sd_temp_trigger s ! 1]\<rparr>))"

definition choose_step :: "json \<Rightarrow> sd_act" where
  "choose_step side = p_upd (\<lambda>s. s\<lparr>sd_step := (if side = JStr ''BUY'' then 0 else 1)\<rparr>)"

definition trade_run_start :: "json \<Rightarrow> sd_act" where
  "trade_run_start side = p_block [
     p_upd take_temp_data,
     choose_step side,
     p_upd (\<lambda>s. s\<lparr>sd_running := True, sd_wait_price := True\<rparr>),
     ts_set ''x'' (JStr ''script''),
     ts_set ''a'' (JStr ''start''),
     p_read (\<lambda>s. JFmt ''Trading started. Waiting for trigger {}-{}'' [JStr (sd_symbol s), side]) (ts_set ''m''),
     send_trade_state,
     p_read (\<lambda>s. JFmt ''Trading {} started'' [JStr (sd_symbol s)]) (\<lambda>msg. p_emit (ToAlertChannel msg)),
     h_to_journal (JFmt ''Trading started'' []),
     p_read (print_trade_pos (JFmt ''Trade data'' []) False) h_to_journal,
     sd_set_state ST_WAIT_PRICE,
     sd_fsm_run]"

definition trade_run_idle_stop :: sd_act where
  "trade_run_idle_stop = p_block [
     ts_set ''x'' (JStr ''script''),
     ts_set ''a'' (JStr ''stop''),
     ts_set ''m'' (JFmt ''Trading is not started.'' []),
     send_trade_state,
     h_to_journal (JFmt ''Request to stop trading'' [])]"

definition await_deletion_msg :: "symbol_data \<Rightarrow> json" where
  "await_deletion_msg s = JFmt ''Waiting for deletion of order {}'' [JStr (o_newClientOrderId (current_order s))]"

definition delete_waited_order :: sd_act where
  "delete_waited_order = p_read waited_order (\<lambda>ord. p_emit (DeleteOrder ord))"

definition trade_run_change :: "json \<Rightarrow> sd_act" where
  "trade_run_change side = p_block [
     p_upd take_temp_data,
     choose_step side,
     p_read (\<lambda>s. JFmt ''Trading {} started with new data'' [JStr (sd_symbol s)]) (\<lambda>msg. p_emit (ToAlertChannel msg)),
     p_read (print_trade_pos (JFmt ''Trade data'' []) False) h_to_journal,
     p_if wait_order_act
       (p_block [
         p_upd (\<lambda>s. s\<lparr>sd_change_mode := True\<rparr>),
         delete_waited_order,
         sd_set_state ST_WAIT_ORDER_DEL,
         ts_set ''x'' (JStr ''order''),
         ts_set ''a'' (JStr ''wait''),
         p_read await_deletion_msg (\<lambda>msg. p_block [
           ts_set ''m'' msg,
           h_to_journal msg])])
       (p_block [
         ts_set ''x'' (JStr ''script''),
         ts_set ''a'' (JStr ''start''),
         p_read (\<lambda>s. JFmt ''Trading {} started with new data'' [JStr (sd_symbol s)]) (\<lambda>msg. p_block [
           ts_set ''m'' msg,
           h_to_journal msg])]),
     send_trade_state]"

definition trade_run_stop :: sd_act where
  "trade_run_stop = p_block [
     p_read (\<lambda>s. JFmt ''Trading {} stopped by the user'' [JStr (sd_symbol s)]) (\<lambda>msg. p_emit (ToAlertChannel msg)),
     p_if wait_order_act
       (p_block [
         delete_waited_order,
         sd_set_state ST_WAIT_ORDER_DEL,
         ts_set ''x'' (JStr ''order''),
         ts_set ''a'' (JStr ''wait''),
         p_read await_deletion_msg (ts_set ''m''),
         send_trade_state])
       (p_block [sd_set_state ST_RESUME, sd_fsm_run])]"

definition sd_on_trade_run :: "json \<Rightarrow> sd_act" where
  "sd_on_trade_run rjdata =
     p_val (getitem rjdata ''a'') (\<lambda>a. p_val (getitem rjdata ''p'') (\<lambda>side.
       let go = (a = JStr ''start'') in
       p_if (\<lambda>s. \<not> sd_running s)
         (if go then trade_run_start side else trade_run_idle_stop)
         (if go then trade_run_change side else trade_run_stop)))"

text \<open>\<open>self.price.pop()\<close> comes before \<open>float(price)\<close>, which may raise.\<close>

definition sd_on_price :: "json \<Rightarrow> sd_act" where
  "sd_on_price price = p_block [
     p_read sd_price (\<lambda>ps.
       if ps = [] then p_raise IndexError else p_upd (\<lambda>s. s\<lparr>sd_price := butlast (sd_price s)\<rparr>)),
     p_val (float_of price) (\<lambda>x. p_upd (\<lambda>s. s\<lparr>sd_price := x # sd_price s\<rparr>)),
     p_when sd_wait_price sd_fsm_run]"

definition sd_on_order_report :: "json \<Rightarrow> sd_act" where
  "sd_on_order_report jreport = p_block [
     log_fsm ''on_order_report'',
     p_upd (\<lambda>s. s\<lparr>sd_report := Some jreport\<rparr>),
     p_when (\<lambda>s. get_state (sd_fsm s) \<noteq> ST_RESUME) sd_fsm_run]"

definition sd_on_order_complete_timeout :: sd_act where
  "sd_on_order_complete_timeout = p_block [
     log_fsm ''on_order_complete_timeout'',
     p_read (\<lambda>s. JFmt ''FSM: no confirmation of order {}'' [JStr (o_newClientOrderId (current_order s))]) h_to_journal,
     p_upd (\<lambda>s. s\<lparr>sd_wait_order_fill := NewOrder\<rparr>),
     ts_set ''x'' (JStr ''order''),
     ts_set ''a'' (JStr ''error''),
     ts_set ''m'' (JFmt ''No confirmation of the order from Binance'' []),
     send_trade_state,
     p_read (\<lambda>s. JFmt ''Trading {} stopped by timeout'' [JStr (sd_symbol s)]) (\<lambda>msg. p_emit (ToAlertChannel msg)),
     sd_set_state ST_RESUME,
     sd_fsm_run]"

definition sd_get_trade_steps :: "(symbol_data, effect, string list) prog" where
  "sd_get_trade_steps =
     p_bind (log_fsm ''get_trade_steps'') (\<lambda>_. p_read (\<lambda>s.
       let q_symb = fadd (b_free (sd_balance s)) (b_locked (sd_balance s));
           q_usdt = fadd (b_free (sd_balance_usdt s)) (b_locked (sd_balance s));
           sell = (if sd_temp_quantity s \<le> q_symb then [''SELL''] else [])
       in if f0 < sd_temp_price s ! 0
          then bind_sum (fdiv q_usdt (sd_temp_price s ! 0)) (\<lambda>q.
                 Inr ((if sd_temp_quantity s \<le> q then [''BUY''] else []) @ sell))
          else Inr sell)
     (\<lambda>r. p_val r p_ret))"

section \<open>Events of one currency\<close>

datatype sd_event =
    TradeData json
  | TradeRun json
  | Price json
  | Report json
  | Timeout
  | ExchangeInfo json

fun sd_handle :: "sd_event \<Rightarrow> sd_act" where
  "sd_handle (TradeData j) = sd_on_trade_data j"
| "sd_handle (TradeRun j) = sd_on_trade_run j"
| "sd_handle (Price j) = sd_on_price j"
| "sd_handle (Report j) = sd_on_order_report j"
| "sd_handle Timeout = sd_on_order_complete_timeout"
| "sd_handle (ExchangeInfo j) = sd_on_exchange_info j"

end
