(* ===== verification/SymbolFacts.thy ===== *)
theory SymbolFacts
  imports SymbolFsm
begin

text \<open>
  What each handler and event of \<open>SymbolData\<close> does, in closed form: the state it
  leaves, the orders it places and asks to delete, and its outcome.
\<close>

named_theorems sd_stmts \<open>the statements the handlers are made of\<close>

declare sd_set_state_def [sd_stmts] ts_set_def [sd_stmts] send_trade_state_def [sd_stmts]
  h_to_journal_def [sd_stmts] log_fsm_def [sd_stmts] log_fsm_short_def [sd_stmts]
  stop_compl_timer_def [sd_stmts] reset_order_report_def [sd_stmts]
  name_order_def [sd_stmts] choose_step_def [sd_stmts] delete_waited_order_def [sd_stmts]
  log_correction_def [sd_stmts] send_orders_change_def [sd_stmts]

section \<open>The machine of a currency\<close>

definition machine_ok :: "symbol_data \<Rightarrow> bool" where
  "machine_ok s \<longleftrightarrow>
     fsm_handlers (sd_fsm s) = fsm_handlers sd_fsm_init \<and> fsm_endStates (sd_fsm s) = [ST_STOP] \<and>
     fsm_state (sd_fsm s) \<noteq> ST_STOP"

lemma sd_handlers [simp]:
  "map_of (fsm_handlers sd_fsm_init) ST_READY = Some (Some H_ready)"
  "map_of (fsm_handlers sd_fsm_init) ST_WAIT_PRICE = Some (Some H_wait_price)"
  "map_of (fsm_handlers sd_fsm_init) ST_IN_PRICE = Some (Some H_in_price)"
  "map_of (fsm_handlers sd_fsm_init) ST_WAIT_ORDER_CMPL = Some (Some H_wait_order_compl)"
  "map_of (fsm_handlers sd_fsm_init) ST_WAIT_ORDER_FILL = Some (Some H_wait_order_fill)"
  "map_of (fsm_handlers sd_fsm_init) ST_WAIT_ORDER_DEL = Some (Some H_wait_order_del)"
  "map_of (fsm_handlers sd_fsm_init) ST_RESUME = Some (Some H_resume)"
  "map_of (fsm_handlers sd_fsm_init) ST_START = None"
  by (simp_all add: sd_fsm_init_def StateMachine_def)

lemma sd_fsm_init_simps [simp]:
  "fsm_endStates sd_fsm_init = [ST_STOP]" "fsm_state sd_fsm_init = ST_START"
  by (simp_all add: sd_fsm_init_def StateMachine_def)

lemma sd_fsm_init_handlers:
  "map_of (fsm_handlers sd_fsm_init) st \<noteq> None \<longleftrightarrow>
   st \<in> {ST_STOP, ST_RESUME, ST_WAIT_ORDER_DEL, ST_WAIT_ORDER_FILL, ST_WAIT_ORDER_CMPL,
         ST_IN_PRICE, ST_WAIT_PRICE, ST_READY}"
  by (simp add: sd_fsm_init_def StateMachine_def)

interpretation sd_host: fsm_host sd_fsm sd_fsm_update "sd_exec go"
  for go
  by unfold_locales simp

lemma machine_ok_goto [simp]:
  "machine_ok s \<Longrightarrow> fsm_state (set_state st (sd_fsm s)) = st"
  "machine_ok s \<Longrightarrow> fsm_handlers (set_state st (sd_fsm s)) = fsm_handlers sd_fsm_init"
  "machine_ok s \<Longrightarrow> fsm_endStates (set_state st (sd_fsm s)) = [ST_STOP]"
  by (auto simp: machine_ok_def)

text \<open>One call of \<open>run\<close> in a registered state is the handler of the state.\<close>

lemma sd_run_handler:
  assumes "machine_ok s" and "map_of (fsm_handlers sd_fsm_init) (fsm_state (sd_fsm s)) = Some (Some h)"
  shows "sd_run (Suc n) s = sd_exec (sd_run n) h () s"
  using assms by (simp add: machine_ok_def sd_host.run_handler)

lemma sd_run_start:
  assumes "machine_ok s" and "fsm_state (sd_fsm s) = ST_START"
  shows "sd_run (Suc n) s = (s, [], Raised KeyError)"
  using assms by (simp add: machine_ok_def sd_host.run_unregistered)

lemma run_depth_Suc: "run_depth = Suc (Suc 398)"
  by (simp add: run_depth_def)

lemma sd_fsm_run_handler:
  assumes "machine_ok s" and "map_of (fsm_handlers sd_fsm_init) (fsm_state (sd_fsm s)) = Some (Some h)"
  shows "sd_fsm_run s = sd_exec (sd_run (Suc 398)) h () s"
  using assms unfolding sd_fsm_run_def run_depth_Suc by (rule sd_run_handler)

lemma sd_fsm_run_start:
  assumes "machine_ok s" and "fsm_state (sd_fsm s) = ST_START"
  shows "sd_fsm_run s = (s, [], Raised KeyError)"
  using assms unfolding sd_fsm_run_def run_depth_Suc by (rule sd_run_start)

section \<open>Handlers in closed form\<close>

definition ts3 :: "json \<Rightarrow> json \<Rightarrow> json \<Rightarrow> json dict \<Rightarrow> json dict" where
  "ts3 x a m d = dict_set ''m'' m (dict_set ''a'' a (dict_set ''x'' x d))"

lemma fsm_resume_run:
  "state_of (fsm_resume s) =
     s\<lparr>sd_wait_price := False, sd_step := 0, sd_running := False,
       sd_trade_state := ts3 (JStr ''script'') (JStr ''stop'') (JFmt ''Trading {} stopped'' [JStr (sd_symbol s)]) (sd_trade_state s)\<rparr>"
  "orders_of (effects_of (fsm_resume s)) = []"
  "deleted_of (effects_of (fsm_resume s)) = []"
  "outcome_of (fsm_resume s) = Done ()"
  by (simp_all add: fsm_resume_def run_prog sd_stmts reset_def ts3_def)

lemma fsm_ready_run:
  "state_of (fsm_ready s) =
     s\<lparr>sd_trade_state := ts3 (JStr ''data'') (JStr ''ready'') (JFmt ''Trade data is ready'' []) (sd_trade_state s)\<rparr>"
  "orders_of (effects_of (fsm_ready s)) = []"
  "deleted_of (effects_of (fsm_ready s)) = []"
  "outcome_of (fsm_ready s) = Done ()"
  by (simp_all add: fsm_ready_def run_prog sd_stmts ts3_def)

text \<open>The order of the current step as it is placed.\<close>

definition placed_order :: "symbol_data \<Rightarrow> order" where
  "placed_order s =
     (current_order s)\<lparr>o_newClientOrderId := order_id (sd_step s) (sd_symbol s) (sd_counter s)\<rparr>"

definition place_order :: "symbol_data \<Rightarrow> symbol_data" where
  "place_order s =
     s\<lparr>sd_orders := (sd_orders s)[sd_step s := placed_order s],
       sd_trade_state := ts3 (JStr ''trigger'') (JStr ''ready'')
         (JFmt ''Trigger {}-{} fired'' [JStr (sd_symbol s), JStrOf (sd_trigger s ! sd_step s)]) (sd_trade_state s),
       sd_wait_order_fill := SlotOrder (sd_step s),
       sd_fsm := set_state ST_WAIT_ORDER_CMPL (sd_fsm s)\<rparr>"

lemma fsm_in_price_run:
  assumes "sd_step s < 2" and "length (sd_orders s) = 2"
  shows "state_of (fsm_in_price s) = place_order s"
    and "orders_of (effects_of (fsm_in_price s)) = [placed_order s]"
    and "deleted_of (effects_of (fsm_in_price s)) = []"
    and "outcome_of (fsm_in_price s) = Done ()"
proof -
  have "sd_step s = 1 \<or> sd_step s = 0"
    using assms(1) by linarith
  then show "state_of (fsm_in_price s) = place_order s"
    and "orders_of (effects_of (fsm_in_price s)) = [placed_order s]"
    and "deleted_of (effects_of (fsm_in_price s)) = []"
    and "outcome_of (fsm_in_price s) = Done ()"
    using assms
    by (auto simp: fsm_in_price_def run_prog sd_stmts place_order_def placed_order_def upd_order_def current_order_def ts3_def)
qed

text \<open>\<open>fsm_wait_price\<close> followed by \<open>fsm_in_price\<close>: the trigger fires, or nothing happens.\<close>

definition fire :: "symbol_data \<Rightarrow> symbol_data" where
  "fire s = place_order (s\<lparr>sd_wait_price := False, sd_fsm := set_state ST_IN_PRICE (sd_fsm s)\<rparr>)"

lemma fsm_wait_price_quiet:
  "is_trigger_in_price (sd_trigger s ! sd_step s) s = Inr False \<Longrightarrow> fsm_wait_price go s = (s, [], Done ())"
  "is_trigger_in_price (sd_trigger s ! sd_step s) s = Inl x \<Longrightarrow> fsm_wait_price go s = (s, [], Raised x)"
  by (simp_all add: fsm_wait_price_def run_prog)

lemma fsm_wait_price_fires:
  assumes "is_trigger_in_price (sd_trigger s ! sd_step s) s = Inr True"
    and "machine_ok s" and "sd_step s < 2" and "length (sd_orders s) = 2"
  shows "state_of (fsm_wait_price (sd_run (Suc n)) s) = fire s"
    and "orders_of (effects_of (fsm_wait_price (sd_run (Suc n)) s)) = [placed_order s]"
    and "deleted_of (effects_of (fsm_wait_price (sd_run (Suc n)) s)) = []"
    and "outcome_of (fsm_wait_price (sd_run (Suc n)) s) = Done ()"
proof -
  define t where "t = s\<lparr>sd_wait_price := False, sd_fsm := set_state ST_IN_PRICE (sd_fsm s)\<rparr>"
  have t: "machine_ok t" "fsm_state (sd_fsm t) = ST_IN_PRICE"
    using assms(2) by (simp_all add: t_def machine_ok_def)
  then have "sd_run (Suc n) t = fsm_in_price t"
    using sd_run_handler [of t H_in_price n] by simp
  then have "fsm_wait_price (sd_run (Suc n)) s = fsm_in_price t"
    using assms(1) by (simp add: fsm_wait_price_def run_prog sd_stmts t_def del: sd_run.simps)
  moreover have "placed_order t = placed_order s"
    by (simp add: t_def placed_order_def current_order_def)
  ultimately show "state_of (fsm_wait_price (sd_run (Suc n)) s) = fire s"
    and "orders_of (effects_of (fsm_wait_price (sd_run (Suc n)) s)) = [placed_order s]"
    and "deleted_of (effects_of (fsm_wait_price (sd_run (Suc n)) s)) = []"
    and "outcome_of (fsm_wait_price (sd_run (Suc n)) s) = Done ()"
    using fsm_in_price_run [of t] assms(3,4) by (simp_all add: fire_def t_def)
qed


subsection \<open>Confirmation\<close>

definition confirmed :: "symbol_data \<Rightarrow> symbol_data" where
  "confirmed s =
     s\<lparr>sd_report := Some empty_report,
       sd_trade_state := ts3 (JStr ''order'') (JStr ''wait'')
         (JFmt ''Order confirmed by Binance, waiting for it to be filled'' []) (sd_trade_state s),
       sd_fsm := set_state ST_WAIT_ORDER_FILL (sd_fsm s)\<rparr>"

lemma fsm_wait_order_compl_run:
  "state_of (fsm_wait_order_compl s) = (if report_is ''NEW'' s = Inr True then confirmed s else s)"
  "orders_of (effects_of (fsm_wait_order_compl s)) = []"
  "deleted_of (effects_of (fsm_wait_order_compl s)) = []"
  "outcome_of (fsm_wait_order_compl s) =
     (case report_is ''NEW'' s of
        Inl x \<Rightarrow> if x = KeyError then Done () else Raised x
      | Inr b \<Rightarrow> Done ())"
  by (cases "report_is ''NEW'' s";
      simp add: fsm_wait_order_compl_def run_prog sd_stmts confirmed_def ts3_def is_key_error_def Let_def)+

subsection \<open>Settlement\<close>

text \<open>What a correction of the quantities may change.\<close>

definition requantified :: "symbol_data \<Rightarrow> symbol_data \<Rightarrow> bool" where
  "requantified s u \<longleftrightarrow>
     u = s\<lparr>sd_orders := sd_orders u\<rparr> \<and> length (sd_orders u) = length (sd_orders s) \<and>
     (\<forall>i < length (sd_orders s). sd_orders u ! i = (sd_orders s ! i)\<lparr>o_quantity := o_quantity (sd_orders u ! i)\<rparr>)"

lemma requantified_refl [simp]: "requantified s s"
  by (simp add: requantified_def)

lemma correct_quantity_run:
  assumes "length (sd_orders s) = 2"
    and q: "q = fsub (o_quantity (current_order s)) c"
  shows "state_of (correct_quantity c s) =
      (case round_at_step q (sd_stepSize s) of
         Inl x \<Rightarrow> upd_order 0 (\<lambda>ord. ord\<lparr>o_quantity := q\<rparr>) s
       | Inr r \<Rightarrow> upd_order 1 (\<lambda>ord. ord\<lparr>o_quantity := r\<rparr>) (upd_order 0 (\<lambda>ord. ord\<lparr>o_quantity := r\<rparr>) s))"
    and "orders_of (effects_of (correct_quantity c s)) = []"
    and "deleted_of (effects_of (correct_quantity c s)) = []"
    and "outcome_of (correct_quantity c s) =
      (case round_at_step q (sd_stepSize s) of Inl x \<Rightarrow> Raised x | Inr r \<Rightarrow> Done ())"
  using assms
  by (cases "round_at_step q (sd_stepSize s)";
      simp add: correct_quantity_def run_prog upd_order_def current_order_def)+

lemma correct_quantity_frame: "length (sd_orders s) = 2 \<Longrightarrow> requantified s (state_of (correct_quantity c s))"
  by (auto simp: correct_quantity_run requantified_def upd_order_def nth_list_update less_2_cases_iff split: sum.split)

lemma apply_commission_frame:
  assumes "length (sd_orders s) = 2"
  shows "requantified s (state_of (apply_commission asset s))"
    and "orders_of (effects_of (apply_commission asset s)) = []"
    and "deleted_of (effects_of (apply_commission asset s)) = []"
proof -
  have emits: "state_of (log_correction t) = t" "outcome_of (log_correction t) = Done ()"
    "orders_of (effects_of (log_correction t)) = []" "deleted_of (effects_of (log_correction t)) = []"
    "state_of (send_orders_change m t) = t" "outcome_of (send_orders_change m t) = Done ()"
    "orders_of (effects_of (send_orders_change m t)) = []" "deleted_of (effects_of (send_orders_change m t)) = []"
    for t m
    by (simp_all add: sd_stmts run_prog)
  show "requantified s (state_of (apply_commission asset s))"
    and "orders_of (effects_of (apply_commission asset s)) = []"
    and "deleted_of (effects_of (apply_commission asset s)) = []"
    using correct_quantity_frame [OF assms] correct_quantity_run(2,3) [OF assms refl] emits
    by (auto simp: apply_commission_def p_read_def p_val_def p_raise_def p_skip_def p_bind_def split_beta
        split: sum.split outcome.split)
qed

lemma settle_commission_frame:
  assumes "length (sd_orders s) = 2"
  shows "requantified s (state_of (settle_commission s))"
    and "orders_of (effects_of (settle_commission s)) = []"
    and "deleted_of (effects_of (settle_commission s)) = []"
  using apply_commission_frame [OF assms]
  by (auto simp: settle_commission_def run_prog split_beta split: sum.split)

subsection \<open>Filling\<close>

definition stepped :: "symbol_data \<Rightarrow> symbol_data" where
  "stepped s =
     (if sd_step s = 0 then s\<lparr>sd_step := 1\<rparr>
      else if sd_step s = 1 then s\<lparr>sd_step := 0, sd_counter := sd_counter s + 1\<rparr>
      else s)"

lemma next_step_stepped: "next_step = p_upd stepped"
  by (rule arg_cong [where f = p_upd, THEN trans [OF next_step_def]]) (simp add: stepped_def fun_eq_iff)

definition filled :: "symbol_data \<Rightarrow> symbol_data" where
  "filled s =
     stepped (s\<lparr>sd_wait_order_fill := NewOrder,
               sd_trade_state := dict_set ''m'' (JFmt ''Order filled by Binance'' [])
                 (dict_set ''a'' (JStr ''ready'') (sd_trade_state s))\<rparr>)"

text \<open>The settlement may raise: then the state in which it raised stays.\<close>

definition rearmed :: "symbol_data \<Rightarrow> symbol_data" where
  "rearmed u = u\<lparr>sd_wait_price := True, sd_fsm := set_state ST_WAIT_PRICE (sd_fsm u)\<rparr>"

lemma length_orders_filled [simp]: "length (sd_orders (filled s)) = length (sd_orders s)"
  by (simp add: filled_def stepped_def)

lemma fsm_wait_order_fill_hit:
  assumes "report_is ''FILLED'' s = Inr True" and "length (sd_orders s) = 2"
  shows "state_of (fsm_wait_order_fill s) =
      (case outcome_of (settle_commission (filled s)) of
         Done _ \<Rightarrow> rearmed (state_of (settle_commission (filled s)))
       | Raised x \<Rightarrow> state_of (settle_commission (filled s)))"
    and "orders_of (effects_of (fsm_wait_order_fill s)) = []"
    and "deleted_of (effects_of (fsm_wait_order_fill s)) = []"
    and "outcome_of (fsm_wait_order_fill s) = outcome_of (settle_commission (filled s))"
proof -
  obtain u es r where settle: "settle_commission (filled s) = (u, es, r)"
    by (cases "settle_commission (filled s)")
  define t where "t = s\<lparr>sd_wait_order_fill := NewOrder,
    sd_trade_state := dict_set ''m'' (JFmt ''Order filled by Binance'' []) (dict_set ''a'' (JStr ''ready'') (sd_trade_state s))\<rparr>"
  have t: "stepped t = filled s"
    by (simp add: t_def filled_def)
  have rearm: "p_block [p_upd (\<lambda>s. s\<lparr>sd_wait_price := True\<rparr>), sd_set_state ST_WAIT_PRICE] = p_upd rearmed"
    by (simp add: sd_set_state_def run_prog rearmed_def fun_eq_iff)
  define pre where "pre = [stop_compl_timer, p_upd (\<lambda>s. s\<lparr>sd_wait_order_fill := NewOrder\<rparr>), ts_set ''a'' (JStr ''ready''),
    ts_set ''m'' (JFmt ''Order filled by Binance'' []), send_trade_state, h_to_journal (JFmt ''Order filled by Binance'' []),
    p_read (\<lambda>s. [JStr (sd_symbol s), JInt (sd_counter s), JInt (int (sd_step s))])
      (\<lambda>args. p_emit (ToLog (JFmt ''symbol {} cycle {} step {} '' args)))]"
  obtain E where E: "p_block pre s = (t, E, Done ())" "orders_of E = []" "deleted_of E = []"
    by (simp add: pre_def t_def sd_stmts run_prog)
  have block: "fsm_wait_order_fill = p_bind (log_fsm ''fsm_wait_order_fill'') (\<lambda>_. p_read (report_is ''FILLED'') (\<lambda>r. p_val r (\<lambda>b.
      if b then p_block (pre @ [p_upd stepped, settle_commission, p_upd rearmed]) else p_skip)))"
    by (simp add: fsm_wait_order_fill_def next_step_stepped pre_def Let_def rearm [symmetric] cong: if_cong)
  obtain L where L: "log_fsm ''fsm_wait_order_fill'' s = (s, [ToLog L], Done ())"
    by (simp add: log_fsm_def run_prog)
  have run: "fsm_wait_order_fill s = (case r of Done _ \<Rightarrow> (rearmed u, ToLog L # E @ es, Done ())
      | Raised x \<Rightarrow> (u, ToLog L # E @ es, Raised x))"
    using assms(1) settle t
    by (simp add: block L p_read_def p_val_def p_block_append E(1) p_upd_def p_bind_def split: outcome.split)
  show "state_of (fsm_wait_order_fill s) =
      (case outcome_of (settle_commission (filled s)) of
         Done _ \<Rightarrow> rearmed (state_of (settle_commission (filled s)))
       | Raised x \<Rightarrow> state_of (settle_commission (filled s)))"
    and "orders_of (effects_of (fsm_wait_order_fill s)) = []"
    and "deleted_of (effects_of (fsm_wait_order_fill s)) = []"
    and "outcome_of (fsm_wait_order_fill s) = outcome_of (settle_commission (filled s))"
    using settle_commission_frame(2,3) [of "filled s"] assms(2) E(2,3)
    by (simp_all add: run settle split: outcome.split)
qed

lemma fsm_wait_order_fill_miss:
  assumes "report_is ''FILLED'' s \<noteq> Inr True"
  shows "state_of (fsm_wait_order_fill s) = s"
    and "orders_of (effects_of (fsm_wait_order_fill s)) = []"
    and "deleted_of (effects_of (fsm_wait_order_fill s)) = []"
    and "outcome_of (fsm_wait_order_fill s) =
      (case report_is ''FILLED'' s of Inl x \<Rightarrow> Raised x | Inr b \<Rightarrow> Done ())"
  using assms
  by (cases "report_is ''FILLED'' s"; simp add: fsm_wait_order_fill_def run_prog sd_stmts)+

subsection \<open>Deletion\<close>

definition cancelled :: "symbol_data \<Rightarrow> symbol_data" where
  "cancelled s =
     s\<lparr>sd_wait_order_fill := NewOrder,
       sd_trade_state := ts3 (JStr ''order'') (JStr ''stop'')
         (JFmt ''Order {} cancelled'' [JStr (o_newClientOrderId (waited_order s))]) (sd_trade_state s)\<rparr>"

lemma fsm_wait_order_del_change:
  assumes "report_item ''X'' s = Inr (JStr ''CANCELED'')" and "sd_change_mode s"
  shows "state_of (fsm_wait_order_del go s) =
      (cancelled s)\<lparr>sd_wait_price := True, sd_fsm := set_state ST_WAIT_PRICE (sd_fsm s), sd_change_mode := False\<rparr>"
    and "orders_of (effects_of (fsm_wait_order_del go s)) = []"
    and "deleted_of (effects_of (fsm_wait_order_del go s)) = []"
    and "outcome_of (fsm_wait_order_del go s) = Done ()"
  using assms by (simp_all add: fsm_wait_order_del_def run_prog sd_stmts cancelled_def ts3_def)

definition stopped :: "symbol_data \<Rightarrow> symbol_data" where
  "stopped s = state_of (fsm_resume (s\<lparr>sd_fsm := set_state ST_RESUME (sd_fsm s)\<rparr>))"

lemma goto_resume:
  assumes "machine_ok s"
  shows "state_of (sd_run (Suc n) (s\<lparr>sd_fsm := set_state ST_RESUME (sd_fsm s)\<rparr>)) = stopped s"
    and "orders_of (effects_of (sd_run (Suc n) (s\<lparr>sd_fsm := set_state ST_RESUME (sd_fsm s)\<rparr>))) = []"
    and "deleted_of (effects_of (sd_run (Suc n) (s\<lparr>sd_fsm := set_state ST_RESUME (sd_fsm s)\<rparr>))) = []"
    and "outcome_of (sd_run (Suc n) (s\<lparr>sd_fsm := set_state ST_RESUME (sd_fsm s)\<rparr>)) = Done ()"
proof -
  define t where "t = s\<lparr>sd_fsm := set_state ST_RESUME (sd_fsm s)\<rparr>"
  have "machine_ok t" "fsm_state (sd_fsm t) = ST_RESUME"
    using assms by (simp_all add: t_def machine_ok_def)
  then have "sd_run (Suc n) t = fsm_resume t"
    using sd_run_handler [of t H_resume n] by simp
  then show "state_of (sd_run (Suc n) (s\<lparr>sd_fsm := set_state ST_RESUME (sd_fsm s)\<rparr>)) = stopped s"
    and "orders_of (effects_of (sd_run (Suc n) (s\<lparr>sd_fsm := set_state ST_RESUME (sd_fsm s)\<rparr>))) = []"
    and "deleted_of (effects_of (sd_run (Suc n) (s\<lparr>sd_fsm := set_state ST_RESUME (sd_fsm s)\<rparr>))) = []"
    and "outcome_of (sd_run (Suc n) (s\<lparr>sd_fsm := set_state ST_RESUME (sd_fsm s)\<rparr>)) = Done ()"
    by (simp_all add: t_def [symmetric] stopped_def fsm_resume_run)
qed

lemma fsm_wait_order_del_stop:
  assumes "report_item ''X'' s = Inr (JStr ''CANCELED'')" and "\<not> sd_change_mode s" and "machine_ok s"
  shows "state_of (fsm_wait_order_del (sd_run (Suc n)) s) = stopped (cancelled s)"
    and "orders_of (effects_of (fsm_wait_order_del (sd_run (Suc n)) s)) = []"
    and "deleted_of (effects_of (fsm_wait_order_del (sd_run (Suc n)) s)) = []"
    and "outcome_of (fsm_wait_order_del (sd_run (Suc n)) s) = Done ()"
proof -
  have ok: "machine_ok (cancelled s)"
    using assms(3) by (simp add: machine_ok_def cancelled_def)
  note go = goto_resume [OF ok, of n]
  show "state_of (fsm_wait_order_del (sd_run (Suc n)) s) = stopped (cancelled s)"
    and "orders_of (effects_of (fsm_wait_order_del (sd_run (Suc n)) s)) = []"
    and "deleted_of (effects_of (fsm_wait_order_del (sd_run (Suc n)) s)) = []"
    and "outcome_of (fsm_wait_order_del (sd_run (Suc n)) s) = Done ()"
    using assms(1,2) go
    by (simp_all add: fsm_wait_order_del_def run_prog sd_stmts cancelled_def ts3_def split_beta del: sd_run.simps)
qed

lemma fsm_wait_order_del_miss:
  assumes "report_item ''X'' s \<noteq> Inr (JStr ''CANCELED'')"
  shows "state_of (fsm_wait_order_del go s) = s"
    and "orders_of (effects_of (fsm_wait_order_del go s)) = []"
    and "deleted_of (effects_of (fsm_wait_order_del go s)) = []"
    and "outcome_of (fsm_wait_order_del go s) =
      (case report_item ''X'' s of Inl x \<Rightarrow> Raised x | Inr b \<Rightarrow> Done ())"
  using assms
  by (cases "report_item ''X'' s"; simp add: fsm_wait_order_del_def run_prog sd_stmts)+

end
