(* ===== verification/SymbolEvents.thy ===== *)
theory SymbolEvents
  imports SymbolFacts
begin

text \<open>
  The events of \<open>SymbolData\<close> in closed form, over the closed forms of the handlers:
  what each event leaves, places, deletes and raises.
\<close>

lemma sd_fsm_run_Suc: "sd_fsm_run = sd_run (Suc 399)"
  by (simp add: sd_fsm_run_def run_depth_def del: sd_run.simps)

section \<open>Prices and reports\<close>

definition price_in :: "pyfloat \<Rightarrow> symbol_data \<Rightarrow> symbol_data" where
  "price_in x s = s\<lparr>sd_price := x # butlast (sd_price s)\<rparr>"

lemma sd_on_price_run:
  "sd_on_price j s =
     (if sd_price s = [] then (s, [], Raised IndexError)
      else (case float_of j of
              Inl x \<Rightarrow> (s\<lparr>sd_price := butlast (sd_price s)\<rparr>, [], Raised x)
            | Inr x \<Rightarrow>
                (if sd_wait_price s then sd_fsm_run (price_in x s) else (price_in x s, [], Done ()))))"
  by (auto simp: sd_on_price_def run_prog price_in_def split: sum.split prod.split outcome.split)

definition report_in :: "json \<Rightarrow> symbol_data \<Rightarrow> symbol_data" where
  "report_in j s = s\<lparr>sd_report := Some j\<rparr>"

lemma sd_on_order_report_run:
  "sd_on_order_report j s =
     (let log = ToLog (JFmt ''{} - FSM state: {} func: {}''
        [JStr (sd_symbol s), JStr (fsm_state (sd_fsm s)), JStr ''on_order_report''])
      in if fsm_state (sd_fsm s) = ST_RESUME then (report_in j s, [log], Done ())
         else (case sd_fsm_run (report_in j s) of (t, es, r) \<Rightarrow> (t, log # es, r)))"
  by (auto simp: sd_on_order_report_def run_prog sd_stmts report_in_def get_state_def
      split: prod.split outcome.split)

section \<open>Timeout\<close>

definition timed_out :: "symbol_data \<Rightarrow> symbol_data" where
  "timed_out s =
     s\<lparr>sd_wait_order_fill := NewOrder,
       sd_trade_state := ts3 (JStr ''order'') (JStr ''error'')
         (JFmt ''No confirmation of the order from Binance'' []) (sd_trade_state s)\<rparr>"

lemma sd_on_order_complete_timeout_run:
  assumes "machine_ok s"
  shows "state_of (sd_on_order_complete_timeout s) = stopped (timed_out s)"
    and "orders_of (effects_of (sd_on_order_complete_timeout s)) = []"
    and "deleted_of (effects_of (sd_on_order_complete_timeout s)) = []"
    and "outcome_of (sd_on_order_complete_timeout s) = Done ()"
proof -
  have ok: "machine_ok (timed_out s)"
    using assms by (simp add: machine_ok_def timed_out_def)
  show "state_of (sd_on_order_complete_timeout s) = stopped (timed_out s)"
    and "orders_of (effects_of (sd_on_order_complete_timeout s)) = []"
    and "deleted_of (effects_of (sd_on_order_complete_timeout s)) = []"
    and "outcome_of (sd_on_order_complete_timeout s) = Done ()"
    using goto_resume [OF ok, of 399]
    by (simp_all add: sd_on_order_complete_timeout_def sd_fsm_run_Suc run_prog sd_stmts timed_out_def ts3_def
        split_beta del: sd_run.simps)
qed

section \<open>Trade data and filters\<close>

text \<open>\<open>set\<close> changes the data in waiting only, wherever it stops.\<close>

definition temp_changed :: "symbol_data \<Rightarrow> symbol_data \<Rightarrow> bool" where
  "temp_changed s u \<longleftrightarrow>
     u = s\<lparr>sd_temp_trigger := sd_temp_trigger u, sd_temp_price := sd_temp_price u,
           sd_temp_quantity := sd_temp_quantity u\<rparr> \<and>
     length (sd_temp_trigger u) = length (sd_temp_trigger s) \<and> length (sd_temp_price u) = length (sd_temp_price s)"

lemma temp_changed_refl [simp]: "temp_changed s s"
  by (simp add: temp_changed_def)

lemma temp_changed_upd:
  "temp_changed s0 s \<Longrightarrow> temp_changed s0 (s\<lparr>sd_temp_trigger := (sd_temp_trigger s)[i := x]\<rparr>)"
  "temp_changed s0 s \<Longrightarrow> temp_changed s0 (s\<lparr>sd_temp_price := (sd_temp_price s)[i := x]\<rparr>)"
  "temp_changed s0 s \<Longrightarrow> temp_changed s0 (s\<lparr>sd_temp_quantity := x\<rparr>)"
  by (cases s0; cases s; simp add: temp_changed_def)+

lemma keeps_temp_changed: "keeps (temp_changed s0) (set_temp_data j)"
  unfolding set_temp_data_def by (intro keeps_intros temp_changed_upd)

lemma set_temp_data_frame: "temp_changed s (state_of (set_temp_data j s))"
  using keepsD [OF keeps_temp_changed temp_changed_refl] .

lemma set_temp_data_silent [emits_intros]: "emits_only P (set_temp_data j)"
  unfolding set_temp_data_def by (intro emits_intros)

lemma set_temp_data_run:
  assumes "float_at2 j ''B'' ''t'' = Inr bt" and "float_at2 j ''B'' ''p'' = Inr bp"
    and "float_at2 j ''S'' ''t'' = Inr st" and "float_at2 j ''S'' ''p'' = Inr sp" and "float_at j ''q'' = Inr q"
  shows "set_temp_data j s =
    (s\<lparr>sd_temp_trigger := (sd_temp_trigger s)[0 := bt, 1 := st],
       sd_temp_price := (sd_temp_price s)[0 := bp, 1 := sp], sd_temp_quantity := q\<rparr>, [], Done ())"
  using assms by (simp add: set_temp_data_def run_prog)

text \<open>The filters of the exchange change the precision fields only.\<close>

definition filters_changed :: "symbol_data \<Rightarrow> symbol_data \<Rightarrow> bool" where
  "filters_changed s u \<longleftrightarrow>
     u = s\<lparr>sd_quotePrecision := sd_quotePrecision u, sd_quoteAssetPrecision := sd_quoteAssetPrecision u,
           sd_tickSize := sd_tickSize u, sd_stepSize := sd_stepSize u, sd_minNotional := sd_minNotional u,
           sd_multiplierUp := sd_multiplierUp u, sd_multiplierDown := sd_multiplierDown u\<rparr>"

lemma filters_changed_refl [simp]: "filters_changed s s"
  by (simp add: filters_changed_def)

lemma filters_changed_upd:
  "filters_changed s0 s \<Longrightarrow> filters_changed s0 (s\<lparr>sd_quotePrecision := i\<rparr>)"
  "filters_changed s0 s \<Longrightarrow> filters_changed s0 (s\<lparr>sd_quoteAssetPrecision := i\<rparr>)"
  "filters_changed s0 s \<Longrightarrow> filters_changed s0 (s\<lparr>sd_tickSize := x\<rparr>)"
  "filters_changed s0 s \<Longrightarrow> filters_changed s0 (s\<lparr>sd_stepSize := x\<rparr>)"
  "filters_changed s0 s \<Longrightarrow> filters_changed s0 (s\<lparr>sd_minNotional := x\<rparr>)"
  "filters_changed s0 s \<Longrightarrow> filters_changed s0 (s\<lparr>sd_multiplierUp := j\<rparr>)"
  "filters_changed s0 s \<Longrightarrow> filters_changed s0 (s\<lparr>sd_multiplierDown := x\<rparr>)"
  by (cases s0; cases s; simp add: filters_changed_def)+

lemma keeps_filters_changed: "keeps (filters_changed s0) (sd_on_exchange_info j)"
  unfolding sd_on_exchange_info_def by (intro keeps_intros filters_changed_upd)

lemma sd_on_exchange_info_frame: "filters_changed s (state_of (sd_on_exchange_info j s))"
  using keepsD [OF keeps_filters_changed filters_changed_refl] .

lemma sd_on_exchange_info_effects: "emits_only no_trade (sd_on_exchange_info j)"
  unfolding sd_on_exchange_info_def by (intro emits_intros no_trade_simps)

section \<open>Start, change, stop\<close>

definition chosen :: "json \<Rightarrow> nat" where
  "chosen side = (if side = JStr ''BUY'' then 0 else 1)"

definition retargeted :: "json \<Rightarrow> symbol_data \<Rightarrow> symbol_data" where
  "retargeted side s = (take_temp_data s)\<lparr>sd_step := chosen side\<rparr>"

definition started :: "json \<Rightarrow> symbol_data \<Rightarrow> symbol_data" where
  "started side s =
     (retargeted side s)\<lparr>sd_running := True, sd_wait_price := True,
       sd_trade_state := ts3 (JStr ''script'') (JStr ''start'')
         (JFmt ''Trading started. Waiting for trigger {}-{}'' [JStr (sd_symbol s), side]) (sd_trade_state s),
       sd_fsm := set_state ST_WAIT_PRICE (sd_fsm s)\<rparr>"

lemma take_temp_data_simps [simp]:
  "sd_symbol (take_temp_data s) = sd_symbol s" "sd_fsm (take_temp_data s) = sd_fsm s"
  "sd_trade_state (take_temp_data s) = sd_trade_state s" "sd_step (take_temp_data s) = sd_step s"
  "sd_wait_order_fill (take_temp_data s) = sd_wait_order_fill s" "sd_running (take_temp_data s) = sd_running s"
  "sd_wait_price (take_temp_data s) = sd_wait_price s" "sd_change_mode (take_temp_data s) = sd_change_mode s"
  "sd_counter (take_temp_data s) = sd_counter s" "sd_price (take_temp_data s) = sd_price s"
  "sd_temp_price (take_temp_data s) = sd_temp_price s" "sd_temp_trigger (take_temp_data s) = sd_temp_trigger s"
  "sd_trigger (take_temp_data s) = (sd_trigger s)[0 := sd_temp_trigger s ! 0, 1 := sd_temp_trigger s ! 1]"
  "length (sd_orders (take_temp_data s)) = length (sd_orders s)"
  by (simp_all add: take_temp_data_def upd_order_def)

lemma take_temp_data_orders:
  assumes "length (sd_orders s) = 2" and "i < 2"
  shows "sd_orders (take_temp_data s) ! i =
    (sd_orders s ! i)\<lparr>o_price := sd_temp_price s ! i, o_quantity := sd_temp_quantity s\<rparr>"
  using assms by (auto simp: take_temp_data_def upd_order_def nth_list_update less_2_cases_iff)

lemma trade_run_start_run:
  "state_of (trade_run_start side s) = state_of (sd_fsm_run (started side s))"
  "orders_of (effects_of (trade_run_start side s)) = orders_of (effects_of (sd_fsm_run (started side s)))"
  "deleted_of (effects_of (trade_run_start side s)) = deleted_of (effects_of (sd_fsm_run (started side s)))"
  "outcome_of (trade_run_start side s) = outcome_of (sd_fsm_run (started side s))"
  by (simp_all add: trade_run_start_def run_prog sd_stmts started_def retargeted_def chosen_def ts3_def split_beta)

lemma trade_run_idle_stop_run:
  "state_of (trade_run_idle_stop s) =
     s\<lparr>sd_trade_state := ts3 (JStr ''script'') (JStr ''stop'') (JFmt ''Trading is not started.'' []) (sd_trade_state s)\<rparr>"
  "orders_of (effects_of (trade_run_idle_stop s)) = []"
  "deleted_of (effects_of (trade_run_idle_stop s)) = []"
  "outcome_of (trade_run_idle_stop s) = Done ()"
  by (simp_all add: trade_run_idle_stop_def run_prog sd_stmts ts3_def)

definition awaiting_deletion :: "symbol_data \<Rightarrow> symbol_data" where
  "awaiting_deletion s =
     s\<lparr>sd_fsm := set_state ST_WAIT_ORDER_DEL (sd_fsm s),
       sd_trade_state := ts3 (JStr ''order'') (JStr ''wait'') (await_deletion_msg s) (sd_trade_state s)\<rparr>"

definition changed_quietly :: "symbol_data \<Rightarrow> symbol_data" where
  "changed_quietly s =
     s\<lparr>sd_trade_state := ts3 (JStr ''script'') (JStr ''start'')
         (JFmt ''Trading {} started with new data'' [JStr (sd_symbol s)]) (sd_trade_state s)\<rparr>"

lemma trade_run_change_order:
  fixes s side
  defines "t \<equiv> retargeted side s"
  assumes "wait_order_act t"
  shows "state_of (trade_run_change side s) = awaiting_deletion (t\<lparr>sd_change_mode := True\<rparr>)"
    and "orders_of (effects_of (trade_run_change side s)) = []"
    and "deleted_of (effects_of (trade_run_change side s)) = [waited_order t]"
    and "outcome_of (trade_run_change side s) = Done ()"
  using assms
  by (simp_all add: trade_run_change_def run_prog sd_stmts t_def retargeted_def chosen_def ts3_def
      awaiting_deletion_def await_deletion_msg_def waited_order_def deref_order_def current_order_def wait_order_act_def
      split: order_ref.split)

lemma trade_run_change_quiet:
  fixes s side
  defines "t \<equiv> retargeted side s"
  assumes "\<not> wait_order_act t"
  shows "state_of (trade_run_change side s) = changed_quietly t"
    and "orders_of (effects_of (trade_run_change side s)) = []"
    and "deleted_of (effects_of (trade_run_change side s)) = []"
    and "outcome_of (trade_run_change side s) = Done ()"
  using assms
  by (simp_all add: trade_run_change_def run_prog sd_stmts t_def retargeted_def chosen_def ts3_def
      changed_quietly_def)

lemma trade_run_stop_order:
  assumes "wait_order_act s"
  shows "state_of (trade_run_stop s) = awaiting_deletion s"
    and "orders_of (effects_of (trade_run_stop s)) = []"
    and "deleted_of (effects_of (trade_run_stop s)) = [waited_order s]"
    and "outcome_of (trade_run_stop s) = Done ()"
  using assms
  by (simp_all add: trade_run_stop_def run_prog sd_stmts ts3_def awaiting_deletion_def await_deletion_msg_def
      current_order_def)

lemma trade_run_stop_quiet:
  assumes "\<not> wait_order_act s" and "machine_ok s"
  shows "state_of (trade_run_stop s) = stopped s"
    and "orders_of (effects_of (trade_run_stop s)) = []"
    and "deleted_of (effects_of (trade_run_stop s)) = []"
    and "outcome_of (trade_run_stop s) = Done ()"
  using assms(1) goto_resume [OF assms(2), of 399]
  by (simp_all add: trade_run_stop_def sd_fsm_run_Suc run_prog sd_stmts split_beta del: sd_run.simps)

text \<open>The dispatch on the request; a request without \<open>a\<close> or \<open>p\<close> raises at once.\<close>

definition run_request :: "json \<Rightarrow> exn + bool \<times> json" where
  "run_request j =
     bind_sum (getitem j ''a'') (\<lambda>a. bind_sum (getitem j ''p'') (\<lambda>p. Inr (a = JStr ''start'', p)))"

lemma sd_on_trade_run_run:
  "sd_on_trade_run j s =
     (case run_request j of
        Inl x \<Rightarrow> (s, [], Raised x)
      | Inr (go, side) \<Rightarrow>
          (if \<not> sd_running s
           then (if go then trade_run_start side s else trade_run_idle_stop s)
           else (if go then trade_run_change side s else trade_run_stop s)))"
  by (simp add: sd_on_trade_run_def run_request_def prog_defs bind_sum_def Let_def split: sum.split)

section \<open>The data of the web client\<close>

definition data_ready :: "symbol_data \<Rightarrow> symbol_data" where
  "data_ready s = state_of (fsm_ready (s\<lparr>sd_fsm := set_state ST_READY (sd_fsm s)\<rparr>))"

definition data_noted :: "symbol_data \<Rightarrow> symbol_data" where
  "data_noted s =
     s\<lparr>sd_trade_state := ts3 (JStr ''script'') (JStr ''wait'')
         (JFmt ''Data changed. Trading is running'' []) (sd_trade_state s)\<rparr>"

definition data_set :: "symbol_data \<Rightarrow> symbol_data" where
  "data_set s = (if sd_running s then data_noted s else data_ready s)"

lemma temp_changed_machine:
  "temp_changed s u \<Longrightarrow> machine_ok u = machine_ok s" "temp_changed s u \<Longrightarrow> sd_running u = sd_running s"
  by (cases s; cases u; simp add: temp_changed_def machine_ok_def)+

definition note_data :: sd_act where
  "note_data =
     p_if (\<lambda>s. \<not> sd_running s)
       (p_block [sd_set_state ST_READY, sd_fsm_run])
       (p_block [
         ts_set ''x'' (JStr ''script''),
         ts_set ''a'' (JStr ''wait''),
         ts_set ''m'' (JFmt ''Data changed. Trading is running'' [])])"

lemma note_data_run:
  assumes "machine_ok s"
  shows "state_of (note_data s) = data_set s"
    and "\<forall>e \<in> set (effects_of (note_data s)). no_trade e"
    and "outcome_of (note_data s) = Done ()"
proof -
  define t where "t = s\<lparr>sd_fsm := set_state ST_READY (sd_fsm s)\<rparr>"
  have "machine_ok t" "fsm_state (sd_fsm t) = ST_READY"
    using assms by (simp_all add: t_def machine_ok_def)
  then have go: "sd_fsm_run t = fsm_ready t"
    using sd_run_handler [of t H_ready 399] by (simp add: sd_fsm_run_Suc del: sd_run.simps)
  have quiet: "\<forall>e \<in> set (effects_of (fsm_ready t)). no_trade e"
    by (simp add: fsm_ready_def run_prog sd_stmts)
  show "state_of (note_data s) = data_set s"
    and "\<forall>e \<in> set (effects_of (note_data s)). no_trade e"
    and "outcome_of (note_data s) = Done ()"
    using go quiet fsm_ready_run(4) [of t]
    by (auto simp: note_data_def run_prog sd_stmts data_set_def data_noted_def data_ready_def ts3_def t_def split_beta)
qed

text \<open>A request leaves data in waiting changed, and the machine in its state or, when
  trading is not running, ready.\<close>

definition trade_data_body :: "json \<Rightarrow> sd_act" where
  "trade_data_body j = p_block [
     p_val (getitem j ''a'') (\<lambda>a.
       if a = JStr ''set'' then p_block [set_temp_data j, note_data] else p_skip),
     send_trade_state]"

lemma trade_data_body_run:
  assumes "machine_ok s"
  shows "\<exists>v. temp_changed s v \<and> (state_of (trade_data_body j s) = v \<or> state_of (trade_data_body j s) = data_set v)"
    and "\<forall>e \<in> set (effects_of (trade_data_body j s)). no_trade e"
proof -
  obtain v es r where v: "set_temp_data j s = (v, es, r)"
    by (cases "set_temp_data j s") auto
  have frame: "temp_changed s v"
    using set_temp_data_frame [of s j] by (simp add: v)
  have quiet: "\<forall>e \<in> set es. no_trade e"
    using set_temp_data_silent [of no_trade j] by (auto simp: emits_only_def dest: spec [of _ s] simp: v)
  have "machine_ok v"
    using frame assms by (simp add: temp_changed_machine)
  note run = note_data_run [OF this]
  show "\<exists>v. temp_changed s v \<and> (state_of (trade_data_body j s) = v \<or> state_of (trade_data_body j s) = data_set v)"
    using frame run(1,3)
    by (cases r; cases "getitem j ''a''")
       (auto simp: trade_data_body_def p_bind_def prog_defs send_trade_state_def v split_beta intro: exI [of _ s])
  show "\<forall>e \<in> set (effects_of (trade_data_body j s)). no_trade e"
    using quiet run(2,3)
    by (cases r; cases "getitem j ''a''")
       (auto simp: trade_data_body_def p_bind_def prog_defs send_trade_state_def v split_beta)
qed

lemma sd_on_trade_data_body:
  "sd_on_trade_data (JObj d0) s =
     (let d = dict_set ''e'' (JStr ''tradeData'') d0
      in case trade_data_body (JObj d) s of (t, es, r) \<Rightarrow>
           (case r of
              Done _ \<Rightarrow> (t, es @ [ToWeb (JObj (trade_data_reply t d))], Done ())
            | Raised x \<Rightarrow>
                (if x = KeyError
                 then (t, es @ [ToWeb (JObj (dict_set ''m'' (JFmt ''JSON key not found'' [])
                                              (dict_set ''c'' (JStr ''002'') d)))], Done ())
                 else (t, es, Raised x))))"
  unfolding sd_on_trade_data_def json.case Let_def
  unfolding note_data_def [symmetric]
  unfolding trade_data_body_def [symmetric]
  by (simp add: p_bind_def [of "p_try P m h" k for P m h k] p_try_def p_bind_def [of "trade_data_body j" k for j k]
      prog_defs is_key_error_def split_beta split: outcome.split)

lemma sd_on_trade_data_other:
  "\<forall>d. j \<noteq> JObj d \<Longrightarrow> sd_on_trade_data j s = (s, [], Raised TypeError)"
  by (cases j) (simp_all add: sd_on_trade_data_def p_raise_def)

lemma sd_on_trade_data_frame:
  assumes "machine_ok s"
  shows "\<exists>v. temp_changed s v \<and> (state_of (sd_on_trade_data j s) = v \<or> state_of (sd_on_trade_data j s) = data_set v)"
    and "\<forall>e \<in> set (effects_of (sd_on_trade_data j s)). no_trade e"
proof -
  consider d where "j = JObj d" | "\<forall>d. j \<noteq> JObj d"
    by blast
  then have "(\<exists>v. temp_changed s v \<and> (state_of (sd_on_trade_data j s) = v \<or> state_of (sd_on_trade_data j s) = data_set v)) \<and>
    (\<forall>e \<in> set (effects_of (sd_on_trade_data j s)). no_trade e)"
  proof cases
    case (1 d)
    show ?thesis
      using trade_data_body_run [OF assms, of "JObj (dict_set ''e'' (JStr ''tradeData'') d)"]
      by (auto simp: 1 sd_on_trade_data_body Let_def split_beta split: outcome.split)
  next
    case 2
    then show ?thesis
      by (auto simp: sd_on_trade_data_other intro: exI [of _ s])
  qed
  then show "\<exists>v. temp_changed s v \<and> (state_of (sd_on_trade_data j s) = v \<or> state_of (sd_on_trade_data j s) = data_set v)"
    and "\<forall>e \<in> set (effects_of (sd_on_trade_data j s)). no_trade e"
    by auto
qed

end
