(* ===== verification/SymbolInv.thy ===== *)
theory SymbolInv
  imports SymbolEvents
begin

text \<open>
  The invariant of \<open>SymbolData\<close>, kept by every event whatever it raises: the two
  orders keep their pair and side, the flags \<open>running\<close> and \<open>wait_price\<close> say where the
  machine is, and \<open>wait_order_fill\<close> is one of the two orders exactly while that order
  may be at the exchange.
\<close>

section \<open>The invariant\<close>

definition side_of :: "nat \<Rightarrow> side" where
  "side_of i = (if i = 0 then BUY else SELL)"

text \<open>An order is not named yet, or has the name of its step in some cycle.\<close>

definition order_ok :: "string \<Rightarrow> int \<Rightarrow> nat \<Rightarrow> order \<Rightarrow> bool" where
  "order_ok coin counter i ord \<longleftrightarrow>
     o_symbol ord = coin @ ''USDT'' \<and> o_side ord = side_of i \<and> o_type ord = LIMIT \<and> o_timeInForce ord = GTC \<and>
     (o_newClientOrderId ord = [] \<or>
      (\<exists>c. 0 \<le> c \<and> c \<le> counter \<and> o_newClientOrderId ord = order_id i coin c))"

definition data_ok :: "string \<Rightarrow> symbol_data \<Rightarrow> bool" where
  "data_ok coin s \<longleftrightarrow>
     sd_symbol s = coin \<and> sd_step s < 2 \<and> 0 \<le> sd_counter s \<and>
     length (sd_orders s) = 2 \<and> (\<forall>i < 2. order_ok coin (sd_counter s) i (sd_orders s ! i)) \<and>
     length (sd_trigger s) = 2 \<and> length (sd_temp_trigger s) = 2 \<and> length (sd_temp_price s) = 2 \<and>
     length (sd_price s) \<le> 2"

definition mode_ok :: "symbol_data \<Rightarrow> bool" where
  "mode_ok s \<longleftrightarrow>
     (let st = fsm_state (sd_fsm s) in
        st \<in> {ST_START, ST_READY, ST_RESUME, ST_WAIT_PRICE, ST_WAIT_ORDER_CMPL, ST_WAIT_ORDER_FILL, ST_WAIT_ORDER_DEL} \<and>
        (sd_running s \<longleftrightarrow> st \<in> {ST_WAIT_PRICE, ST_WAIT_ORDER_CMPL, ST_WAIT_ORDER_FILL, ST_WAIT_ORDER_DEL}) \<and>
        (sd_wait_price s \<longleftrightarrow> st = ST_WAIT_PRICE) \<and>
        (case sd_wait_order_fill s of
           NewOrder \<Rightarrow> st \<noteq> ST_WAIT_ORDER_CMPL \<and> st \<noteq> ST_WAIT_ORDER_DEL
         | SlotOrder i \<Rightarrow>
             i < 2 \<and> o_newClientOrderId (sd_orders s ! i) \<noteq> [] \<and>
             st \<in> {ST_WAIT_ORDER_CMPL, ST_WAIT_ORDER_FILL, ST_WAIT_ORDER_DEL} \<and>
             (st \<noteq> ST_WAIT_ORDER_DEL \<longrightarrow> i = sd_step s)))"

definition sd_inv :: "string \<Rightarrow> symbol_data \<Rightarrow> bool" where
  "sd_inv coin s \<longleftrightarrow> machine_ok s \<and> data_ok coin s \<and> mode_ok s"

lemma sd_invD:
  assumes "sd_inv coin s"
  shows "machine_ok s" "data_ok coin s" "mode_ok s" "sd_symbol s = coin" "sd_step s < 2"
    "length (sd_orders s) = 2" "length (sd_trigger s) = 2" "0 \<le> sd_counter s"
  using assms by (simp_all add: sd_inv_def data_ok_def)

lemma machine_ok_live [simp]: "machine_ok s \<Longrightarrow> fsm_state (sd_fsm s) \<notin> set (fsm_endStates (sd_fsm s))"
  by (simp add: machine_ok_def)

lemma sd_invI: "machine_ok s \<Longrightarrow> data_ok coin s \<Longrightarrow> mode_ok s \<Longrightarrow> sd_inv coin s"
  by (simp add: sd_inv_def)

lemma sd_inv_init: "sd_inv coin (SymbolData coin)"
  by (auto simp: sd_inv_def machine_ok_def data_ok_def mode_ok_def SymbolData_def order_ok_def side_of_def Order_def
      less_2_cases_iff Let_def)

section \<open>The data\<close>

lemma order_ok_later: "order_ok coin c i ord \<Longrightarrow> c \<le> d \<Longrightarrow> order_ok coin d i ord"
  by (force simp: order_ok_def)

lemma order_ok_named:
  "order_ok coin c i ord \<Longrightarrow> 0 \<le> c \<Longrightarrow> order_ok coin c i (ord\<lparr>o_newClientOrderId := order_id i coin c\<rparr>)"
  by (auto simp: order_ok_def)

lemma order_ok_amounts [simp]:
  "order_ok coin c i (ord\<lparr>o_price := p\<rparr>) = order_ok coin c i ord"
  "order_ok coin c i (ord\<lparr>o_quantity := q\<rparr>) = order_ok coin c i ord"
  by (simp_all add: order_ok_def)

lemma order_id_nonempty [simp]: "order_id i coin c \<noteq> []"
  by (simp add: order_id_def)

lemma data_ok_stopped: "data_ok coin s \<Longrightarrow> data_ok coin (stopped s)"
  by (simp add: data_ok_def stopped_def fsm_resume_run)

lemma data_ok_take_temp: "data_ok coin s \<Longrightarrow> data_ok coin (take_temp_data s)"
  by (simp add: data_ok_def take_temp_data_orders)

lemma chosen_less [simp]: "chosen side < 2"
  by (simp add: chosen_def)

lemma data_ok_retargeted: "data_ok coin s \<Longrightarrow> data_ok coin (retargeted side s)"
  using data_ok_take_temp [of coin s] by (simp add: data_ok_def retargeted_def)

lemma data_ok_place_order:
  assumes "data_ok coin s"
  shows "data_ok coin (place_order s)"
proof -
  have "order_ok coin (sd_counter s) (sd_step s) (placed_order s)"
    using assms order_ok_named [of coin "sd_counter s" "sd_step s" "sd_orders s ! sd_step s"]
    by (simp add: placed_order_def data_ok_def current_order_def)
  then show ?thesis
    using assms by (auto simp: data_ok_def place_order_def nth_list_update)
qed

lemma data_ok_filled: "data_ok coin s \<Longrightarrow> data_ok coin (filled s)"
  by (auto simp: data_ok_def filled_def stepped_def less_2_cases_iff intro: order_ok_later)

lemma requantified_fields:
  assumes "requantified s u"
  shows "sd_symbol u = sd_symbol s" "sd_step u = sd_step s" "sd_counter u = sd_counter s" "sd_fsm u = sd_fsm s"
    "sd_trigger u = sd_trigger s" "sd_temp_trigger u = sd_temp_trigger s" "sd_temp_price u = sd_temp_price s"
    "sd_price u = sd_price s" "length (sd_orders u) = length (sd_orders s)"
    "sd_wait_order_fill u = sd_wait_order_fill s" "sd_running u = sd_running s" "sd_wait_price u = sd_wait_price s"
    "sd_change_mode u = sd_change_mode s" "sd_report u = sd_report s"
proof -
  obtain os where "u = s\<lparr>sd_orders := os\<rparr>" and "length os = length (sd_orders s)"
    using assms unfolding requantified_def by blast
  then show "sd_symbol u = sd_symbol s" "sd_step u = sd_step s" "sd_counter u = sd_counter s" "sd_fsm u = sd_fsm s"
    "sd_trigger u = sd_trigger s" "sd_temp_trigger u = sd_temp_trigger s" "sd_temp_price u = sd_temp_price s"
    "sd_price u = sd_price s" "length (sd_orders u) = length (sd_orders s)"
    "sd_wait_order_fill u = sd_wait_order_fill s" "sd_running u = sd_running s" "sd_wait_price u = sd_wait_price s"
    "sd_change_mode u = sd_change_mode s" "sd_report u = sd_report s"
    by simp_all
qed

lemma requantified_order:
  assumes "requantified s u" and "i < length (sd_orders s)"
  obtains q where "sd_orders u ! i = (sd_orders s ! i)\<lparr>o_quantity := q\<rparr>"
proof -
  have "\<forall>i < length (sd_orders s). sd_orders u ! i = (sd_orders s ! i)\<lparr>o_quantity := o_quantity (sd_orders u ! i)\<rparr>"
    using assms(1) unfolding requantified_def by (elim conjE)
  then have "sd_orders u ! i = (sd_orders s ! i)\<lparr>o_quantity := o_quantity (sd_orders u ! i)\<rparr>"
    using assms(2) by (elim allE impE)
  then show thesis
    by (rule that)
qed

lemma data_ok_requantified:
  assumes "data_ok coin s" and "requantified s u"
  shows "data_ok coin u"
proof -
  have "order_ok coin (sd_counter u) i (sd_orders u ! i)" if "i < 2" for i
  proof -
    have "i < length (sd_orders s)"
      using that assms(1) by (simp add: data_ok_def)
    from requantified_order [OF assms(2) this] obtain q
      where "sd_orders u ! i = (sd_orders s ! i)\<lparr>o_quantity := q\<rparr>"
      by blast
    then show ?thesis
      using that assms(1) requantified_fields(3) [OF assms(2)] by (simp add: data_ok_def)
  qed
  with assms(1) requantified_fields [OF assms(2)] show ?thesis
    by (simp add: data_ok_def)
qed

section \<open>Phases\<close>

text \<open>
  What a state of the machine means for the exchange.  \<open>Armed k\<close> waits for the
  trigger of step \<open>k\<close>; \<open>Submitted k\<close> and \<open>Open k\<close> have an order out, not yet confirmed
  and confirmed; \<open>Cancelling i k\<close> has asked to delete order \<open>i\<close> and goes on with step
  \<open>k\<close>; \<open>Unsettled k\<close> has seen its order filled and failed to settle the commission.
\<close>

datatype phase =
    Idle
  | Armed nat
  | Submitted nat
  | Open nat
  | Cancelling nat nat
  | Unsettled nat

definition phase_of :: "symbol_data \<Rightarrow> phase" where
  "phase_of s =
     (let st = fsm_state (sd_fsm s); k = sd_step s in
        if st = ST_WAIT_PRICE then Armed k
        else if st = ST_WAIT_ORDER_CMPL then Submitted k
        else if st = ST_WAIT_ORDER_FILL then
          (case sd_wait_order_fill s of NewOrder \<Rightarrow> Unsettled k | SlotOrder i \<Rightarrow> Open k)
        else if st = ST_WAIT_ORDER_DEL then
          (case sd_wait_order_fill s of NewOrder \<Rightarrow> Idle | SlotOrder i \<Rightarrow> Cancelling i k)
        else Idle)"

lemma mode_ok_cong:
  assumes "sd_fsm u = sd_fsm s" "sd_running u = sd_running s" "sd_wait_price u = sd_wait_price s"
    "sd_wait_order_fill u = sd_wait_order_fill s" "sd_step u = sd_step s" "sd_orders u = sd_orders s"
  shows "mode_ok u = mode_ok s" and "phase_of u = phase_of s"
  unfolding mode_ok_def phase_of_def assms by (rule refl)+

lemma wait_order_act_iff: "mode_ok s \<Longrightarrow> wait_order_act s \<longleftrightarrow> sd_wait_order_fill s \<noteq> NewOrder"
  by (auto simp: mode_ok_def wait_order_act_def waited_order_def deref_order_def Order_def Let_def split: order_ref.splits)

text \<open>The phase says what the machine and the flags are.\<close>

lemma phase_cases:
  assumes "mode_ok s"
  obtains (Idle) "phase_of s = Idle" "\<not> sd_running s" "\<not> sd_wait_price s" "sd_wait_order_fill s = NewOrder"
      "fsm_state (sd_fsm s) \<in> {ST_START, ST_READY, ST_RESUME}"
    | (Armed) "phase_of s = Armed (sd_step s)" "sd_running s" "sd_wait_price s" "sd_wait_order_fill s = NewOrder"
      "fsm_state (sd_fsm s) = ST_WAIT_PRICE"
    | (Submitted) "phase_of s = Submitted (sd_step s)" "sd_running s" "\<not> sd_wait_price s"
      "sd_wait_order_fill s = SlotOrder (sd_step s)" "fsm_state (sd_fsm s) = ST_WAIT_ORDER_CMPL"
    | (Open) "phase_of s = Open (sd_step s)" "sd_running s" "\<not> sd_wait_price s"
      "sd_wait_order_fill s = SlotOrder (sd_step s)" "fsm_state (sd_fsm s) = ST_WAIT_ORDER_FILL"
    | (Cancelling) i where "phase_of s = Cancelling i (sd_step s)" "sd_running s" "\<not> sd_wait_price s"
      "sd_wait_order_fill s = SlotOrder i" "i < 2" "fsm_state (sd_fsm s) = ST_WAIT_ORDER_DEL"
    | (Unsettled) "phase_of s = Unsettled (sd_step s)" "sd_running s" "\<not> sd_wait_price s"
      "sd_wait_order_fill s = NewOrder" "fsm_state (sd_fsm s) = ST_WAIT_ORDER_FILL"
  using assms by (auto simp: mode_ok_def phase_of_def Let_def split: order_ref.splits)

section \<open>Transitions\<close>

lemma inv_report_in:
  assumes "sd_inv coin s"
  shows "sd_inv coin (report_in j s)" and "phase_of (report_in j s) = phase_of s"
  using assms mode_ok_cong [of "report_in j s" s]
  by (simp_all add: sd_inv_def machine_ok_def data_ok_def report_in_def)

lemma inv_price_in:
  assumes "sd_inv coin s" and "sd_price s \<noteq> []"
  shows "sd_inv coin (price_in x s)" and "phase_of (price_in x s) = phase_of s"
proof -
  have "length (x # butlast (sd_price s)) \<le> 2"
    using assms by (simp add: sd_inv_def data_ok_def)
  then show "sd_inv coin (price_in x s)" and "phase_of (price_in x s) = phase_of s"
    using assms(1) mode_ok_cong [of "price_in x s" s]
    by (simp_all add: sd_inv_def machine_ok_def data_ok_def price_in_def)
qed

lemma inv_price_lost:
  assumes "sd_inv coin s"
  shows "sd_inv coin (s\<lparr>sd_price := butlast (sd_price s)\<rparr>)"
    and "phase_of (s\<lparr>sd_price := butlast (sd_price s)\<rparr>) = phase_of s"
  using assms mode_ok_cong [of "s\<lparr>sd_price := butlast (sd_price s)\<rparr>" s]
  by (auto simp: sd_inv_def machine_ok_def data_ok_def)

lemma inv_fire:
  assumes "sd_inv coin s" and "fsm_state (sd_fsm s) = ST_WAIT_PRICE"
  shows "sd_inv coin (fire s)" and "phase_of (fire s) = Submitted (sd_step s)"
    and "sd_change_mode (fire s) = sd_change_mode s"
proof -
  define t where "t = s\<lparr>sd_wait_price := False, sd_fsm := set_state ST_IN_PRICE (sd_fsm s)\<rparr>"
  have "data_ok coin t"
    using assms(1) by (simp add: sd_inv_def data_ok_def t_def)
  from data_ok_place_order [OF this] have "data_ok coin (fire s)"
    by (simp add: fire_def t_def)
  moreover have "machine_ok (fire s)"
    using assms by (simp add: sd_inv_def machine_ok_def fire_def place_order_def)
  moreover have "mode_ok (fire s)"
    using assms by (auto simp: sd_inv_def mode_ok_def machine_ok_def data_ok_def fire_def place_order_def placed_order_def)
  ultimately show "sd_inv coin (fire s)"
    by (simp add: sd_inv_def)
  show "phase_of (fire s) = Submitted (sd_step s)" "sd_change_mode (fire s) = sd_change_mode s"
    using assms by (simp_all add: phase_of_def fire_def place_order_def sd_inv_def machine_ok_def)
qed

lemma inv_confirmed:
  assumes "sd_inv coin s" and "fsm_state (sd_fsm s) = ST_WAIT_ORDER_CMPL"
  shows "sd_inv coin (confirmed s)" and "phase_of (confirmed s) = Open (sd_step s)"
    and "sd_change_mode (confirmed s) = sd_change_mode s"
  using assms
  by (auto simp: sd_inv_def machine_ok_def data_ok_def mode_ok_def phase_of_def confirmed_def Let_def split: order_ref.splits)

lemma stepped_step: "sd_step s < 2 \<Longrightarrow> sd_step (stepped s) = 1 - sd_step s"
  by (auto simp: stepped_def less_2_cases_iff)

lemma filled_simps [simp]:
  "sd_fsm (filled s) = sd_fsm s" "sd_wait_order_fill (filled s) = NewOrder" "sd_running (filled s) = sd_running s"
  "sd_wait_price (filled s) = sd_wait_price s" "sd_change_mode (filled s) = sd_change_mode s"
  "sd_step (filled s) = sd_step (stepped s)" "sd_orders (filled s) = sd_orders s" "sd_report (filled s) = sd_report s"
  "sd_stepSize (filled s) = sd_stepSize s" "sd_symbol (filled s) = sd_symbol s"
  by (simp_all add: filled_def stepped_def)

lemma inv_filled:
  assumes "sd_inv coin s" and "fsm_state (sd_fsm s) = ST_WAIT_ORDER_FILL" and "requantified (filled s) u"
  shows "sd_inv coin u" and "phase_of u = Unsettled (1 - sd_step s)"
    and "sd_inv coin (rearmed u)" and "phase_of (rearmed u) = Armed (1 - sd_step s)"
    and "sd_change_mode u = sd_change_mode s" and "sd_change_mode (rearmed u) = sd_change_mode s"
proof -
  note f = requantified_fields [OF assms(3)]
  have d: "data_ok coin u"
    using data_ok_requantified [OF data_ok_filled assms(3)] assms(1) by (simp add: sd_inv_def)
  have run: "sd_running s" "\<not> sd_wait_price s"
    using assms(1,2) by (simp_all add: sd_inv_def mode_ok_def Let_def)
  have m: "machine_ok u"
    using assms(1) f by (simp add: sd_inv_def machine_ok_def)
  have step: "sd_step u = 1 - sd_step s"
    using f stepped_step [of s] sd_invD(5) [OF assms(1)] by simp
  have "mode_ok u"
    using f run assms(2) by (simp add: mode_ok_def Let_def)
  with d m show "sd_inv coin u"
    by (simp add: sd_inv_def)
  show "phase_of u = Unsettled (1 - sd_step s)"
    using f step assms(2) by (simp add: phase_of_def)
  have "mode_ok (rearmed u)"
    using f run m by (simp add: mode_ok_def rearmed_def machine_ok_def Let_def)
  moreover have "data_ok coin (rearmed u)" "machine_ok (rearmed u)"
    using d m by (simp_all add: data_ok_def machine_ok_def rearmed_def)
  ultimately show "sd_inv coin (rearmed u)"
    by (simp add: sd_inv_def)
  show "phase_of (rearmed u) = Armed (1 - sd_step s)"
    using m step by (simp add: phase_of_def rearmed_def)
  show "sd_change_mode u = sd_change_mode s" "sd_change_mode (rearmed u) = sd_change_mode s"
    using f by (simp_all add: rearmed_def)
qed

lemma inv_stopped:
  assumes "machine_ok s" and "data_ok coin s" and "sd_wait_order_fill s = NewOrder"
  shows "sd_inv coin (stopped s)" and "phase_of (stopped s) = Idle"
    and "sd_change_mode (stopped s) = sd_change_mode s"
  using assms data_ok_stopped [of coin s]
  by (simp_all add: sd_inv_def stopped_def fsm_resume_run machine_ok_def mode_ok_def phase_of_def Let_def)

lemma cancelled_simps [simp]:
  "sd_fsm (cancelled s) = sd_fsm s" "sd_wait_order_fill (cancelled s) = NewOrder"
  "sd_step (cancelled s) = sd_step s" "sd_orders (cancelled s) = sd_orders s"
  "sd_running (cancelled s) = sd_running s" "sd_wait_price (cancelled s) = sd_wait_price s"
  "sd_change_mode (cancelled s) = sd_change_mode s" "data_ok coin (cancelled s) = data_ok coin s"
  "machine_ok (cancelled s) = machine_ok s"
  by (simp_all add: cancelled_def data_ok_def machine_ok_def)

lemma inv_cancelled_resume:
  assumes "sd_inv coin s" and "fsm_state (sd_fsm s) = ST_WAIT_ORDER_DEL"
  defines "u \<equiv> (cancelled s)\<lparr>sd_wait_price := True, sd_fsm := set_state ST_WAIT_PRICE (sd_fsm s), sd_change_mode := False\<rparr>"
  shows "sd_inv coin u" and "phase_of u = Armed (sd_step s)" and "\<not> sd_change_mode u"
proof -
  have m: "machine_ok u" and d: "data_ok coin u"
    using assms(1) by (simp_all add: u_def sd_inv_def machine_ok_def data_ok_def cancelled_def)
  have "mode_ok u"
    using assms(1,2) by (auto simp: u_def sd_inv_def mode_ok_def machine_ok_def Let_def)
  with m d show "sd_inv coin u"
    by (simp add: sd_inv_def)
  show "phase_of u = Armed (sd_step s)" "\<not> sd_change_mode u"
    using assms(1) by (simp_all add: u_def phase_of_def sd_inv_def)
qed

lemma inv_cancelled_stop:
  assumes "sd_inv coin s"
  shows "sd_inv coin (stopped (cancelled s))" and "phase_of (stopped (cancelled s)) = Idle"
    and "sd_change_mode (stopped (cancelled s)) = sd_change_mode s"
  using assms inv_stopped [of "cancelled s" coin] by (simp_all add: sd_inv_def)

lemma inv_timed_out:
  assumes "sd_inv coin s"
  shows "sd_inv coin (stopped (timed_out s))" and "phase_of (stopped (timed_out s)) = Idle"
    and "sd_change_mode (stopped (timed_out s)) = sd_change_mode s"
proof -
  have "machine_ok (timed_out s)" "data_ok coin (timed_out s)" "sd_wait_order_fill (timed_out s) = NewOrder"
    using assms by (simp_all add: sd_inv_def timed_out_def machine_ok_def data_ok_def)
  from inv_stopped [OF this] show "sd_inv coin (stopped (timed_out s))"
    and "phase_of (stopped (timed_out s)) = Idle"
    and "sd_change_mode (stopped (timed_out s)) = sd_change_mode s"
    by (simp_all add: timed_out_def)
qed

lemma retargeted_simps [simp]:
  "sd_fsm (retargeted side s) = sd_fsm s" "sd_step (retargeted side s) = chosen side"
  "sd_wait_order_fill (retargeted side s) = sd_wait_order_fill s" "sd_running (retargeted side s) = sd_running s"
  "sd_wait_price (retargeted side s) = sd_wait_price s" "sd_change_mode (retargeted side s) = sd_change_mode s"
  "sd_symbol (retargeted side s) = sd_symbol s" "sd_price (retargeted side s) = sd_price s"
  "machine_ok (retargeted side s) = machine_ok s"
  by (simp_all add: retargeted_def machine_ok_def)

lemma retargeted_ids:
  assumes "length (sd_orders s) = 2" and "i < 2"
  shows "o_newClientOrderId (sd_orders (retargeted side s) ! i) = o_newClientOrderId (sd_orders s ! i)"
  using take_temp_data_orders [OF assms] by (simp add: retargeted_def)

lemma inv_started:
  assumes "sd_inv coin s" and "phase_of s = Idle"
  shows "sd_inv coin (started side s)" and "phase_of (started side s) = Armed (chosen side)"
    and "sd_change_mode (started side s) = sd_change_mode s"
proof -
  have m: "machine_ok s"
    using assms(1) by (simp add: sd_inv_def)
  then have "machine_ok (started side s)"
    by (simp add: machine_ok_def started_def)
  moreover have "data_ok coin (started side s)"
    using data_ok_retargeted [of coin s side] assms(1) by (simp add: started_def sd_inv_def data_ok_def)
  moreover have "sd_wait_order_fill s = NewOrder"
    using phase_cases [of s] assms by (auto simp: sd_inv_def)
  then have "mode_ok (started side s)"
    using m by (simp add: mode_ok_def started_def Let_def)
  ultimately show "sd_inv coin (started side s)"
    by (simp add: sd_inv_def)
  show "phase_of (started side s) = Armed (chosen side)" "sd_change_mode (started side s) = sd_change_mode s"
    using m by (simp_all add: phase_of_def started_def)
qed

lemma inv_changed_quietly:
  fixes side
  assumes "sd_inv coin s" and "sd_wait_order_fill s = NewOrder"
  defines "u \<equiv> changed_quietly (retargeted side s)"
  shows "sd_inv coin u" and "phase_of s = Armed k \<Longrightarrow> phase_of u = Armed (chosen side)"
    and "phase_of s = Unsettled k \<Longrightarrow> phase_of u = Unsettled (chosen side)"
    and "sd_change_mode u = sd_change_mode s"
proof -
  have "machine_ok u"
    using assms(1) by (simp add: u_def sd_inv_def machine_ok_def changed_quietly_def)
  moreover have "data_ok coin u"
    using data_ok_retargeted [of coin s side] assms(1) by (simp add: u_def changed_quietly_def sd_inv_def data_ok_def)
  moreover have "mode_ok u"
    using assms(1,2) by (auto simp: u_def sd_inv_def mode_ok_def changed_quietly_def Let_def)
  ultimately show "sd_inv coin u"
    by (simp add: sd_inv_def)
  show "phase_of s = Armed k \<Longrightarrow> phase_of u = Armed (chosen side)"
    "phase_of s = Unsettled k \<Longrightarrow> phase_of u = Unsettled (chosen side)" "sd_change_mode u = sd_change_mode s"
    using assms(2) by (auto simp: u_def phase_of_def changed_quietly_def Let_def split: if_splits)
qed

text \<open>Waiting for a deletion, reached from a state with an order out; \<open>c\<close> is the new
  \<open>change_mode\<close> and \<open>t\<close> the state with the data and step of the request.\<close>

lemma inv_awaiting_deletion:
  assumes "machine_ok t" and "data_ok coin t" and "sd_wait_order_fill t = SlotOrder i" and "i < 2"
    and "o_newClientOrderId (sd_orders t ! i) \<noteq> []" and "sd_running t" and "\<not> sd_wait_price t"
  shows "sd_inv coin (awaiting_deletion t)" and "phase_of (awaiting_deletion t) = Cancelling i (sd_step t)"
    and "sd_change_mode (awaiting_deletion t) = sd_change_mode t"
proof -
  have "machine_ok (awaiting_deletion t)"
    using assms(1) by (simp add: machine_ok_def awaiting_deletion_def)
  moreover have "data_ok coin (awaiting_deletion t)"
    using assms(2) by (simp add: data_ok_def awaiting_deletion_def)
  moreover have "mode_ok (awaiting_deletion t)"
    using assms by (simp add: mode_ok_def awaiting_deletion_def Let_def)
  ultimately show "sd_inv coin (awaiting_deletion t)"
    by (simp add: sd_inv_def)
  show "phase_of (awaiting_deletion t) = Cancelling i (sd_step t)"
    "sd_change_mode (awaiting_deletion t) = sd_change_mode t"
    using assms by (simp_all add: phase_of_def awaiting_deletion_def)
qed

lemma inv_slot:
  assumes "sd_inv coin s" and "sd_wait_order_fill s = SlotOrder i"
  shows "i < 2" "o_newClientOrderId (sd_orders s ! i) \<noteq> []" "sd_running s" "\<not> sd_wait_price s"
  using assms by (auto simp: sd_inv_def mode_ok_def Let_def)

lemma inv_change_order:
  fixes side
  assumes "sd_inv coin s" and "sd_wait_order_fill s = SlotOrder i"
  defines "u \<equiv> awaiting_deletion ((retargeted side s)\<lparr>sd_change_mode := True\<rparr>)"
  shows "sd_inv coin u" and "phase_of u = Cancelling i (chosen side)" and "sd_change_mode u"
proof -
  define t where "t = (retargeted side s)\<lparr>sd_change_mode := True\<rparr>"
  note slot = inv_slot [OF assms(1,2)]
  have "data_ok coin t" "machine_ok t"
    using data_ok_retargeted [of coin s side] assms(1) by (simp_all add: t_def sd_inv_def data_ok_def machine_ok_def)
  moreover have "o_newClientOrderId (sd_orders t ! i) \<noteq> []"
    using slot(1,2) retargeted_ids [of s i side] sd_invD(6) [OF assms(1)] by (simp add: t_def)
  ultimately show "sd_inv coin u" and "phase_of u = Cancelling i (chosen side)" and "sd_change_mode u"
    using inv_awaiting_deletion [of t coin i] slot assms(2) by (simp_all add: u_def t_def)
qed

lemma inv_stop_order:
  assumes "sd_inv coin s" and "sd_wait_order_fill s = SlotOrder i"
  shows "sd_inv coin (awaiting_deletion s)" and "phase_of (awaiting_deletion s) = Cancelling i (sd_step s)"
    and "sd_change_mode (awaiting_deletion s) = sd_change_mode s"
  using inv_awaiting_deletion [of s coin i] inv_slot [OF assms] assms by (simp_all add: sd_inv_def)

lemma inv_temp_changed:
  assumes "sd_inv coin s" and "temp_changed s u"
  shows "sd_inv coin u" and "phase_of u = phase_of s" and "sd_change_mode u = sd_change_mode s"
proof -
  obtain tt tp q where u: "u = s\<lparr>sd_temp_trigger := tt, sd_temp_price := tp, sd_temp_quantity := q\<rparr>"
    and len: "length tt = length (sd_temp_trigger s)" "length tp = length (sd_temp_price s)"
    using assms(2) unfolding temp_changed_def by blast
  show "sd_inv coin u" and "phase_of u = phase_of s" and "sd_change_mode u = sd_change_mode s"
    using assms(1) mode_ok_cong [of u s] len by (simp_all add: u sd_inv_def data_ok_def machine_ok_def)
qed

lemma inv_filters_changed:
  assumes "sd_inv coin s" and "filters_changed s u"
  shows "sd_inv coin u" and "phase_of u = phase_of s" and "sd_change_mode u = sd_change_mode s"
proof -
  obtain a b c d e f g where u: "u = s\<lparr>sd_quotePrecision := a, sd_quoteAssetPrecision := b,
      sd_tickSize := c, sd_stepSize := d, sd_minNotional := e, sd_multiplierUp := f, sd_multiplierDown := g\<rparr>"
    using assms(2) unfolding filters_changed_def by blast
  show "sd_inv coin u" and "phase_of u = phase_of s" and "sd_change_mode u = sd_change_mode s"
    using assms(1) mode_ok_cong [of u s] by (simp_all add: u sd_inv_def data_ok_def machine_ok_def)
qed

lemma inv_data_set:
  assumes "sd_inv coin s"
  shows "sd_inv coin (data_set s)" and "phase_of (data_set s) = phase_of s"
    and "sd_change_mode (data_set s) = sd_change_mode s"
proof -
  have m: "machine_ok s" and mode: "mode_ok s" and d: "data_ok coin s"
    using assms by (simp_all add: sd_inv_def)
  have "data_ok coin (data_set s)" "machine_ok (data_set s)"
    using m d by (simp_all add: data_set_def data_noted_def data_ready_def fsm_ready_run data_ok_def machine_ok_def)
  moreover have "mode_ok (data_set s)"
    using mode m by (auto simp: data_set_def data_noted_def data_ready_def fsm_ready_run mode_ok_def Let_def
        split: order_ref.splits)
  ultimately show "sd_inv coin (data_set s)"
    by (simp add: sd_inv_def)
  show "phase_of (data_set s) = phase_of s"
    using m
    by - (rule phase_cases [OF mode]; auto simp: data_set_def data_noted_def data_ready_def fsm_ready_run phase_of_def)
  show "sd_change_mode (data_set s) = sd_change_mode s"
    by (simp add: data_set_def data_noted_def data_ready_def fsm_ready_run)
qed

lemma inv_idle_stop:
  assumes "sd_inv coin s"
  shows "sd_inv coin (s\<lparr>sd_trade_state := d\<rparr>)" and "phase_of (s\<lparr>sd_trade_state := d\<rparr>) = phase_of s"
  using assms mode_ok_cong [of "s\<lparr>sd_trade_state := d\<rparr>" s] by (simp_all add: sd_inv_def data_ok_def machine_ok_def)

end
