(* ===== verification/SymbolSpec.thy ===== *)
theory SymbolSpec
  imports SymbolInv
begin

text \<open>
  The contract of the trading cycle: a transition system over the phases, labelled
  by what arrives and by what is asked of the exchange, and the proof that
  \<open>SymbolData\<close> implements it.  \<open>change_mode\<close> is the second part of the state: it says
  whether a confirmed deletion resumes trading or stops it.
\<close>

section \<open>The specification\<close>

text \<open>\<open>Answer x m\<close> is a report with status \<open>x\<close>; \<open>m\<close>: it names the current order.\<close>

datatype stimulus =
    Data
  | Malformed
  | Go nat
  | Halt
  | Tick
  | Answer string bool
  | Expire

datatype action = Tau | Place nat | Cancel nat

text \<open>The order that may be at the exchange, and the step the cycle goes on with.\<close>

fun order_out :: "phase \<Rightarrow> nat option" where
  "order_out (Submitted k) = Some k"
| "order_out (Open k) = Some k"
| "order_out (Cancelling i k) = Some i"
| "order_out _ = None"

fun aim :: "phase \<Rightarrow> nat" where
  "aim Idle = 0"
| "aim (Armed k) = k"
| "aim (Submitted k) = k"
| "aim (Open k) = k"
| "aim (Cancelling i k) = k"
| "aim (Unsettled k) = k"

text \<open>The reports a phase reacts to.\<close>

fun accepts :: "phase \<Rightarrow> string \<Rightarrow> bool \<Rightarrow> bool" where
  "accepts (Submitted k) x m \<longleftrightarrow> x = ''NEW'' \<and> m"
| "accepts (Open k) x m \<longleftrightarrow> x = ''FILLED'' \<and> m"
| "accepts (Unsettled k) x m \<longleftrightarrow> x = ''FILLED'' \<and> m"
| "accepts (Cancelling i k) x m \<longleftrightarrow> x = ''CANCELED''"
| "accepts _ x m \<longleftrightarrow> False"

inductive cycle :: "phase \<times> bool \<times> int \<Rightarrow> stimulus \<Rightarrow> action \<Rightarrow> phase \<times> bool \<times> int \<Rightarrow> bool" where
  data: "cycle (p, c, n) Data Tau (p, c, n)"
| malformed: "cycle (p, c, n) Malformed Tau (p, c, n)"
| start: "cycle (Idle, c, n) (Go k) Tau (Armed k, c, n)"
| start_fire: "cycle (Idle, c, n) (Go k) (Place k) (Submitted k, c, n)"
| change_armed: "cycle (Armed j, c, n) (Go k) Tau (Armed k, c, n)"
| change_unsettled: "cycle (Unsettled j, c, n) (Go k) Tau (Unsettled k, c, n)"
| change_order: "order_out p = Some i \<Longrightarrow> cycle (p, c, n) (Go k) (Cancel i) (Cancelling i k, True, n)"
| halt_idle: "cycle (Idle, c, n) Halt Tau (Idle, c, n)"
| halt_free: "order_out p = None \<Longrightarrow> p \<noteq> Idle \<Longrightarrow> cycle (p, c, n) Halt Tau (Idle, c, n)"
| halt_order: "order_out p = Some i \<Longrightarrow> cycle (p, c, n) Halt (Cancel i) (Cancelling i (aim p), c, n)"
| tick: "cycle (p, c, n) Tick Tau (p, c, n)"
| tick_fire: "cycle (Armed k, c, n) Tick (Place k) (Submitted k, c, n)"
| confirm: "cycle (Submitted k, c, n) (Answer ''NEW'' True) Tau (Open k, c, n)"
| fill: "cycle (Open k, c, n) (Answer ''FILLED'' True) Tau (Armed (1 - k), c, n + int k)"
| fill_unsettled: "cycle (Open k, c, n) (Answer ''FILLED'' True) Tau (Unsettled (1 - k), c, n + int k)"
| refill: "cycle (Unsettled k, c, n) (Answer ''FILLED'' True) Tau (Armed (1 - k), c, n + int k)"
| refill_unsettled: "cycle (Unsettled k, c, n) (Answer ''FILLED'' True) Tau (Unsettled (1 - k), c, n + int k)"
| deleted_resume: "cycle (Cancelling i k, True, n) (Answer ''CANCELED'' m) Tau (Armed k, False, n)"
| deleted_stop: "cycle (Cancelling i k, False, n) (Answer ''CANCELED'' m) Tau (Idle, False, n)"
| answer_fire: "cycle (Armed k, c, n) (Answer x m) (Place k) (Submitted k, c, n)"
| answer_ignored: "\<not> accepts p x m \<Longrightarrow> cycle (p, c, n) (Answer x m) Tau (p, c, n)"
| expire: "cycle (p, c, n) Expire Tau (Idle, c, n)"

inductive_cases cycle_Place: "cycle (p, c, n) x (Place k) (p', c', n')"
inductive_cases cycle_Cancel: "cycle (p, c, n) x (Cancel i) (p', c', n')"
inductive_cases cycle_Go: "cycle (p, c, n) (Go k) a (p', c', n')"
inductive_cases cycle_Answer: "cycle (p, c, n) (Answer x m) a (p', c', n')"

section \<open>The implementation\<close>

definition abs_sd :: "symbol_data \<Rightarrow> phase \<times> bool \<times> int" where
  "abs_sd s = (phase_of s, sd_change_mode s, sd_counter s)"

lemma counter_simps [simp]:
  "sd_counter (report_in j s) = sd_counter s" "sd_counter (price_in x s) = sd_counter s"
  "sd_counter (fire s) = sd_counter s" "sd_counter (confirmed s) = sd_counter s"
  "sd_counter (cancelled s) = sd_counter s" "sd_counter (stopped s) = sd_counter s"
  "sd_counter (timed_out s) = sd_counter s" "sd_counter (retargeted side s) = sd_counter s"
  "sd_counter (started side s) = sd_counter s" "sd_counter (changed_quietly s) = sd_counter s"
  "sd_counter (awaiting_deletion s) = sd_counter s" "sd_counter (data_set s) = sd_counter s"
  "sd_counter (rearmed s) = sd_counter s"
  by (simp_all add: report_in_def price_in_def fire_def place_order_def confirmed_def cancelled_def stopped_def
      fsm_resume_run timed_out_def retargeted_def started_def changed_quietly_def awaiting_deletion_def
      data_set_def data_noted_def data_ready_def fsm_ready_run rearmed_def)

lemma counter_filled: "sd_step s < 2 \<Longrightarrow> sd_counter (filled s) = sd_counter s + int (sd_step s)"
  by (auto simp: filled_def stepped_def less_2_cases_iff)

lemma counter_temp_changed: "temp_changed s u \<Longrightarrow> sd_counter u = sd_counter s"
  by (cases s; cases u; simp add: temp_changed_def)

lemma counter_filters_changed: "filters_changed s u \<Longrightarrow> sd_counter u = sd_counter s"
  by (cases s; cases u; simp add: filters_changed_def)

definition answer :: "json \<Rightarrow> symbol_data \<Rightarrow> stimulus" where
  "answer j s =
     Answer (case getitem j ''X'' of Inr (JStr x) \<Rightarrow> x | _ \<Rightarrow> [])
       (getitem j ''c'' = Inr (JStr (o_newClientOrderId (current_order s))))"

fun stimulus_of :: "sd_event \<Rightarrow> symbol_data \<Rightarrow> stimulus" where
  "stimulus_of (TradeData j) s = Data"
| "stimulus_of (ExchangeInfo j) s = Data"
| "stimulus_of (TradeRun j) s =
     (case run_request j of Inl x \<Rightarrow> Malformed | Inr (go, side) \<Rightarrow> if go then Go (chosen side) else Halt)"
| "stimulus_of (Price j) s = Tick"
| "stimulus_of (Report j) s = answer j s"
| "stimulus_of Timeout s = Expire"

text \<open>The effects of an action, given the state it leaves: the order placed is the one
  of its step, as it is stored, with the name of this step of this cycle, and the last
  two prices enclose the trigger of the step.\<close>

fun carries :: "action \<Rightarrow> symbol_data \<Rightarrow> effect list \<Rightarrow> bool" where
  "carries Tau t es \<longleftrightarrow> orders_of es = [] \<and> deleted_of es = []"
| "carries (Place k) t es \<longleftrightarrow>
     orders_of es = [sd_orders t ! k] \<and> deleted_of es = [] \<and> k = sd_step t \<and>
     o_newClientOrderId (sd_orders t ! k) = order_id k (sd_symbol t) (sd_counter t) \<and>
     is_trigger_in_price (sd_trigger t ! k) t = Inr True"
| "carries (Cancel i) t es \<longleftrightarrow> orders_of es = [] \<and> deleted_of es = [sd_orders t ! i]"

text \<open>An event from a state that satisfies the invariant.\<close>

definition implements :: "string \<Rightarrow> symbol_data \<Rightarrow> stimulus \<Rightarrow> symbol_data \<Rightarrow> effect list \<Rightarrow> bool" where
  "implements coin s x t es \<longleftrightarrow> sd_inv coin t \<and> (\<exists>a. cycle (abs_sd s) x a (abs_sd t) \<and> carries a t es)"

lemma implements_quiet:
  assumes "sd_inv coin t" and "cycle (abs_sd s) x Tau (abs_sd t)"
    and "orders_of es = []" and "deleted_of es = []"
  shows "implements coin s x t es"
  unfolding implements_def using assms by (intro conjI exI [of _ Tau]) simp_all

section \<open>A turn of the machine\<close>

lemma sd_fsm_run_in:
  assumes "sd_inv coin s" and "map_of (fsm_handlers sd_fsm_init) (fsm_state (sd_fsm s)) = Some (Some h)"
  shows "sd_fsm_run s = sd_exec (sd_run 399) h () s"
  using sd_run_handler [OF sd_invD(1) [OF assms(1)] assms(2), of 399] by (simp add: sd_fsm_run_Suc del: sd_run.simps)

lemma run_armed_quiet:
  assumes "sd_inv coin s" and "fsm_state (sd_fsm s) = ST_WAIT_PRICE"
    and "is_trigger_in_price (sd_trigger s ! sd_step s) s \<noteq> Inr True"
  shows "state_of (sd_fsm_run s) = s" and "effects_of (sd_fsm_run s) = []"
proof -
  have "sd_fsm_run s = fsm_wait_price (sd_run 399) s"
    using sd_fsm_run_in [OF assms(1), of H_wait_price] assms(2) by simp
  then show "state_of (sd_fsm_run s) = s" and "effects_of (sd_fsm_run s) = []"
    using assms(3) fsm_wait_price_quiet [of s]
    by (cases "is_trigger_in_price (sd_trigger s ! sd_step s) s"; simp)+
qed

lemma run_armed_fires:
  assumes "sd_inv coin s" and "fsm_state (sd_fsm s) = ST_WAIT_PRICE"
    and "is_trigger_in_price (sd_trigger s ! sd_step s) s = Inr True"
  shows "state_of (sd_fsm_run s) = fire s" and "orders_of (effects_of (sd_fsm_run s)) = [placed_order s]"
    and "deleted_of (effects_of (sd_fsm_run s)) = []" and "outcome_of (sd_fsm_run s) = Done ()"
proof -
  have "sd_fsm_run s = fsm_wait_price (sd_run (Suc 398)) s"
    using sd_fsm_run_in [OF assms(1), of H_wait_price] assms(2) by simp
  then show "state_of (sd_fsm_run s) = fire s" and "orders_of (effects_of (sd_fsm_run s)) = [placed_order s]"
    and "deleted_of (effects_of (sd_fsm_run s)) = []" and "outcome_of (sd_fsm_run s) = Done ()"
    using fsm_wait_price_fires [OF assms(3) sd_invD(1,5,6) [OF assms(1)], of 398] by (simp_all del: sd_run.simps)
qed

lemma is_trigger_cong: "sd_price u = sd_price s \<Longrightarrow> is_trigger_in_price v u = is_trigger_in_price v s"
  unfolding is_trigger_in_price_def by (simp only:)

lemma fire_orders:
  assumes "sd_inv coin s"
  shows "sd_orders (fire s) ! sd_step s = placed_order s" and "sd_step (fire s) = sd_step s"
    and "sd_symbol (fire s) = sd_symbol s" and "sd_counter (fire s) = sd_counter s"
    and "sd_trigger (fire s) = sd_trigger s" and "is_trigger_in_price v (fire s) = is_trigger_in_price v s"
  using sd_invD(5,6) [OF assms] is_trigger_cong [of "fire s" s v]
  by (simp_all add: fire_def place_order_def placed_order_def current_order_def)

text \<open>A turn in the armed phase places the order of the step or does nothing.\<close>

lemma armed_implements:
  assumes "sd_inv coin s" and "fsm_state (sd_fsm s) = ST_WAIT_PRICE"
    and quiet: "cycle (abs_sd r) x Tau (abs_sd s)"
    and fires: "cycle (abs_sd r) x (Place (sd_step s)) (Submitted (sd_step s), sd_change_mode s, sd_counter s)"
  shows "implements coin r x (state_of (sd_fsm_run s)) (effects_of (sd_fsm_run s))"
proof (cases "is_trigger_in_price (sd_trigger s ! sd_step s) s = Inr True")
  case True
  have "carries (Place (sd_step s)) (fire s) (effects_of (sd_fsm_run s))"
    using run_armed_fires [OF assms(1,2) True] fire_orders [OF assms(1)] True by (simp add: placed_order_def)
  moreover have "cycle (abs_sd r) x (Place (sd_step s)) (abs_sd (fire s))"
    using inv_fire(2,3) [OF assms(1,2)] fires by (simp add: abs_sd_def)
  ultimately show ?thesis
    unfolding implements_def run_armed_fires(1) [OF assms(1,2) True]
    using inv_fire(1) [OF assms(1,2)] by blast
next
  case False
  show ?thesis
    using implements_quiet [OF assms(1) quiet] run_armed_quiet [OF assms(1,2) False] by simp
qed

text \<open>A turn on a report.  The report is stored before the machine runs.\<close>

lemma report_is_in:
  "report_is x (report_in j s) = Inr True \<longleftrightarrow>
     getitem j ''c'' = Inr (JStr (o_newClientOrderId (current_order s))) \<and> getitem j ''X'' = Inr (JStr x)"
  by (auto simp: report_is_def report_item_def report_in_def current_order_def bind_sum_def split: sum.splits)

lemma report_item_in: "report_item k (report_in j s) = getitem j k"
  by (simp add: report_item_def report_in_def)

lemma fsm_wait_order_fill_effects:
  assumes "length (sd_orders s) = 2"
  shows "orders_of (effects_of (fsm_wait_order_fill s)) = []" and "deleted_of (effects_of (fsm_wait_order_fill s)) = []"
  using fsm_wait_order_fill_hit(2,3) [of s] fsm_wait_order_fill_miss(2,3) [of s] assms by auto

lemma answer_hit: "report_is x (report_in j s) = Inr True \<Longrightarrow> answer j s = Answer x True"
  by (simp add: report_is_in answer_def)

lemma answer_miss:
  assumes "report_is x (report_in j s) \<noteq> Inr True" and "x \<noteq> []"
  obtains y m where "answer j s = Answer y m" and "\<not> (y = x \<and> m)"
  using assms by (auto simp: report_is_in answer_def split: sum.splits json.splits)

lemma answer_status:
  assumes "x \<noteq> []"
  obtains y m where "answer j s = Answer y m" and "y = x \<longleftrightarrow> getitem j ''X'' = Inr (JStr x)"
  using assms by (auto simp: answer_def split: sum.splits json.splits)

lemma compl_answers:
  fixes j
  assumes "sd_inv coin s" and "fsm_state (sd_fsm s) = ST_WAIT_ORDER_CMPL" and "phase_of s = Submitted k"
    and "k = sd_step s"
  defines "u \<equiv> sd_fsm_run (report_in j s)"
  shows "implements coin s (answer j s) (state_of u) (effects_of u)"
proof -
  note inv = inv_report_in [OF assms(1), of j]
  have st: "fsm_state (sd_fsm (report_in j s)) = ST_WAIT_ORDER_CMPL"
    using assms(2) by (simp add: report_in_def)
  have u: "u = fsm_wait_order_compl (report_in j s)"
    using sd_fsm_run_in [OF inv(1), of H_wait_order_compl] st by (simp add: u_def)
  show ?thesis
  proof (cases "report_is ''NEW'' (report_in j s) = Inr True")
    case True
    then have t: "state_of u = confirmed (report_in j s)"
      by (simp add: u fsm_wait_order_compl_run)
    have "cycle (abs_sd s) (answer j s) Tau (abs_sd (confirmed (report_in j s)))"
      using inv_confirmed(2,3) [OF inv(1) st] answer_hit [OF True] assms(3,4)
      by (simp add: abs_sd_def cycle.confirm) (simp add: report_in_def cycle.confirm)
    then show ?thesis
      unfolding t using implements_quiet [OF inv_confirmed(1) [OF inv(1) st]] by (simp add: u fsm_wait_order_compl_run)
  next
    case False
    then have t: "state_of u = report_in j s"
      by (simp add: u fsm_wait_order_compl_run)
    obtain y m where "answer j s = Answer y m" and "\<not> (y = ''NEW'' \<and> m)"
      by (rule answer_miss [OF False]) auto
    then have "cycle (abs_sd s) (answer j s) Tau (abs_sd (report_in j s))"
      using inv(2) assms(3) cycle.answer_ignored [of "Submitted k" y m] by (simp add: abs_sd_def report_in_def)
    then show ?thesis
      unfolding t using implements_quiet [OF inv(1)] by (simp add: u fsm_wait_order_compl_run)
  qed
qed

lemma fill_answers:
  fixes j
  assumes "sd_inv coin s" and "fsm_state (sd_fsm s) = ST_WAIT_ORDER_FILL"
    and "phase_of s = Open k \<or> phase_of s = Unsettled k" and "k = sd_step s"
  defines "u \<equiv> sd_fsm_run (report_in j s)"
  shows "implements coin s (answer j s) (state_of u) (effects_of u)"
proof -
  note inv = inv_report_in [OF assms(1), of j]
  have st: "fsm_state (sd_fsm (report_in j s)) = ST_WAIT_ORDER_FILL" and k: "sd_step (report_in j s) = k"
    and c: "sd_change_mode (report_in j s) = sd_change_mode s"
    using assms(2,4) by (simp_all add: report_in_def)
  have u: "u = fsm_wait_order_fill (report_in j s)"
    using sd_fsm_run_in [OF inv(1), of H_wait_order_fill] st by (simp add: u_def)
  have len: "length (sd_orders (report_in j s)) = 2"
    using sd_invD(6) [OF inv(1)] .
  have es: "orders_of (effects_of u) = []" "deleted_of (effects_of u) = []"
    using fsm_wait_order_fill_effects [OF len] by (simp_all add: u)
  show ?thesis
  proof (cases "report_is ''FILLED'' (report_in j s) = Inr True")
    case True
    define v where "v = state_of (settle_commission (filled (report_in j s)))"
    have "requantified (filled (report_in j s)) v"
      using settle_commission_frame(1) [of "filled (report_in j s)"] len by (simp add: v_def)
    note f = inv_filled [OF inv(1) st this, unfolded k c]
    have n: "sd_counter v = sd_counter s + int k"
      using requantified_fields(3) [OF \<open>requantified (filled (report_in j s)) v\<close>]
        counter_filled [of "report_in j s"] sd_invD(5) [OF inv(1)] k by simp
    have t: "state_of u = rearmed v \<or> state_of u = v"
      using fsm_wait_order_fill_hit(1) [OF True len] by (simp add: u v_def split: outcome.split)
    have "cycle (abs_sd s) (answer j s) Tau (abs_sd v)" "cycle (abs_sd s) (answer j s) Tau (abs_sd (rearmed v))"
      using f(2,4,5,6) n answer_hit [OF True] assms(3)
        cycle.fill [of k] cycle.fill_unsettled [of k] cycle.refill [of k] cycle.refill_unsettled [of k]
      by (auto simp: abs_sd_def)
    with t es show ?thesis
      using implements_quiet f(1,3) by auto
  next
    case False
    then have t: "state_of u = report_in j s"
      by (simp add: u fsm_wait_order_fill_miss)
    obtain y m where "answer j s = Answer y m" and "\<not> (y = ''FILLED'' \<and> m)"
      by (rule answer_miss [OF False]) auto
    then have "cycle (abs_sd s) (answer j s) Tau (abs_sd (report_in j s))"
      using inv(2) c assms(3) cycle.answer_ignored [of "Open k" y m] cycle.answer_ignored [of "Unsettled k" y m]
      by (auto simp: abs_sd_def)
    then show ?thesis
      unfolding t using implements_quiet [OF inv(1)] es by simp
  qed
qed

lemma del_answers:
  fixes j
  assumes "sd_inv coin s" and "fsm_state (sd_fsm s) = ST_WAIT_ORDER_DEL"
    and "phase_of s = Cancelling i k" and "k = sd_step s"
  defines "u \<equiv> sd_fsm_run (report_in j s)"
  shows "implements coin s (answer j s) (state_of u) (effects_of u)"
proof -
  define r where "r = report_in j s"
  note inv = inv_report_in [OF assms(1), of j, folded r_def]
  have st: "fsm_state (sd_fsm r) = ST_WAIT_ORDER_DEL" and k: "sd_step r = k" and c: "sd_change_mode r = sd_change_mode s"
    and n: "sd_counter r = sd_counter s"
    using assms(2,4) by (simp_all add: r_def report_in_def)
  have u: "u = fsm_wait_order_del (sd_run (Suc 398)) r"
    using sd_fsm_run_in [OF inv(1), of H_wait_order_del] st by (simp add: u_def r_def)
  have x: "report_item ''X'' r = getitem j ''X''"
    by (simp add: r_def report_item_in)
  obtain y m where y: "answer j s = Answer y m" "y = ''CANCELED'' \<longleftrightarrow> report_item ''X'' r = Inr (JStr ''CANCELED'')"
    unfolding x by (rule answer_status [of "''CANCELED''" j s]) auto
  consider "y = ''CANCELED''" "sd_change_mode r" | "y = ''CANCELED''" "\<not> sd_change_mode r" | "y \<noteq> ''CANCELED''"
    by blast
  then show ?thesis
  proof cases
    case 1
    note run = fsm_wait_order_del_change [OF _ 1(2), folded u]
    show ?thesis
      using y 1 run implements_quiet [OF inv_cancelled_resume(1) [OF inv(1) st]] inv_cancelled_resume(2,3) [OF inv(1) st]
        cycle.deleted_resume [of i k _ m] assms(3) c k n
      by (simp add: u abs_sd_def)
  next
    case 2
    note run = fsm_wait_order_del_stop [OF _ 2(2) sd_invD(1) [OF inv(1)], of 398, folded u]
    show ?thesis
      using y 2 run implements_quiet [OF inv_cancelled_stop(1) [OF inv(1)]] inv_cancelled_stop(2,3) [OF inv(1)]
        cycle.deleted_stop [of i k _ m] assms(3) c n
      by (simp add: abs_sd_def)
  next
    case 3
    with y have "report_item ''X'' r \<noteq> Inr (JStr ''CANCELED'')"
      by simp
    note run = fsm_wait_order_del_miss [OF this, of "sd_run (Suc 398)", folded u]
    show ?thesis
      using 3 y run implements_quiet [OF inv(1)] inv(2) cycle.answer_ignored [of "Cancelling i k" y m] assms(3) c n
      by (simp add: abs_sd_def)
  qed
qed

section \<open>The events\<close>

lemma phase_start:
  "sd_inv coin s \<Longrightarrow> phase_of s = Idle \<longleftrightarrow> \<not> sd_running s"
  by (rule phase_cases [OF sd_invD(3)]) auto

lemma carries_cong:
  "orders_of es = orders_of es' \<Longrightarrow> deleted_of es = deleted_of es' \<Longrightarrow> carries a t es' = carries a t es"
  by (cases a) simp_all

text \<open>A request that finds an order out asks to delete it, whatever the phase.\<close>

lemma order_out_implements:
  assumes "sd_inv coin s" and "sd_wait_order_fill s = SlotOrder i" and "order_out (phase_of s) = Some i"
    and "aim (phase_of s) = sd_step s" and "run_request j = Inr (go, side)"
  shows "implements coin s (stimulus_of (TradeRun j) s) (state_of (sd_on_trade_run j s)) (effects_of (sd_on_trade_run j s))"
proof -
  note slot = inv_slot [OF assms(1,2)] and len = sd_invD(6) [OF assms(1)]
  have ids: "wait_order_act (retargeted side s)" "wait_order_act s"
    using slot assms(2) len retargeted_ids [of s i side]
    by (simp_all add: wait_order_act_def waited_order_def deref_order_def)
  show ?thesis
  proof (cases go)
    case True
    note run = trade_run_change_order [OF ids(1)] and inv = inv_change_order [OF assms(1,2), of side]
    have "carries (Cancel i) (state_of (trade_run_change side s)) (effects_of (trade_run_change side s))"
      using run assms(2) by (simp add: waited_order_def deref_order_def awaiting_deletion_def)
    then show ?thesis
      unfolding implements_def
      using run(1) inv cycle.change_order [OF assms(3), of "sd_change_mode s" "sd_counter s" "chosen side"] True slot(3) assms(5)
      by (auto simp: sd_on_trade_run_run abs_sd_def intro!: exI [of _ "Cancel i"])
  next
    case False
    note run = trade_run_stop_order [OF ids(2)] and inv = inv_stop_order [OF assms(1,2)]
    have "carries (Cancel i) (state_of (trade_run_stop s)) (effects_of (trade_run_stop s))"
      using run assms(2) by (simp add: waited_order_def deref_order_def awaiting_deletion_def)
    then show ?thesis
      unfolding implements_def
      using run(1) inv cycle.halt_order [OF assms(3), of "sd_change_mode s" "sd_counter s"] False slot(3) assms(4,5)
      by (auto simp: sd_on_trade_run_run abs_sd_def intro!: exI [of _ "Cancel i"])
  qed
qed

lemma report_implements:
  assumes "sd_inv coin s"
  shows "implements coin s (answer j s) (state_of (sd_on_order_report j s)) (effects_of (sd_on_order_report j s))"
proof -
  define st where "st = fsm_state (sd_fsm s)"
  note inv = inv_report_in [OF assms, of j]
  have same: "abs_sd (report_in j s) = abs_sd s"
    using inv(2) by (simp add: abs_sd_def report_in_def)
  have ev: "state_of (sd_on_order_report j s) = (if st = ST_RESUME then report_in j s else state_of (sd_fsm_run (report_in j s)))"
    "orders_of (effects_of (sd_on_order_report j s)) =
       (if st = ST_RESUME then [] else orders_of (effects_of (sd_fsm_run (report_in j s))))"
    "deleted_of (effects_of (sd_on_order_report j s)) =
       (if st = ST_RESUME then [] else deleted_of (effects_of (sd_fsm_run (report_in j s))))"
    by (simp_all add: sd_on_order_report_run st_def Let_def split_beta)
  have ignored: "cycle (abs_sd s) (answer j s) Tau (abs_sd s)" if "\<And>y m. \<not> accepts (phase_of s) y m"
    unfolding answer_def abs_sd_def by (intro cycle.answer_ignored that)
  have turn: "implements coin s (answer j s) (state_of (sd_on_order_report j s)) (effects_of (sd_on_order_report j s))"
    if "st \<noteq> ST_RESUME" "implements coin s (answer j s) (state_of (sd_fsm_run (report_in j s))) (effects_of (sd_fsm_run (report_in j s)))"
    using that carries_cong [of "effects_of (sd_on_order_report j s)" "effects_of (sd_fsm_run (report_in j s))"]
    by (simp add: implements_def ev)
  show ?thesis
    using sd_invD(3) [OF assms]
  proof (cases rule: phase_cases)
    case Idle
    show ?thesis
    proof (cases "st = ST_READY")
      case True
      have fsm: "fsm_state (sd_fsm (report_in j s)) = ST_READY"
        using True by (simp add: report_in_def st_def)
      then have run: "sd_fsm_run (report_in j s) = fsm_ready (report_in j s)"
        using sd_fsm_run_in [OF inv(1), of H_ready] by simp
      show ?thesis
        using turn implements_quiet [OF inv_idle_stop(1) [OF inv(1)]] inv_idle_stop(2) [OF inv(1)] ignored Idle same True
        by (simp add: run fsm_ready_run abs_sd_def)
    next
      case False
      then have "state_of (sd_on_order_report j s) = report_in j s" "orders_of (effects_of (sd_on_order_report j s)) = []"
        "deleted_of (effects_of (sd_on_order_report j s)) = []"
        using Idle sd_fsm_run_start [OF sd_invD(1) [OF inv(1)]] by (auto simp: ev st_def report_in_def)
      then show ?thesis
        using implements_quiet [OF inv(1)] ignored Idle same by (simp add: abs_sd_def)
    qed
  next
    case Armed
    have fsm: "fsm_state (sd_fsm (report_in j s)) = ST_WAIT_PRICE" "st = ST_WAIT_PRICE"
      using Armed by (simp_all add: report_in_def st_def)
    obtain y m where y: "answer j s = Answer y m"
      by (simp add: answer_def)
    show ?thesis
      using armed_implements [OF inv(1) fsm(1), of s "answer j s"] turn fsm Armed ignored same
        cycle.answer_fire [of "sd_step s" "sd_change_mode s" "sd_counter s" y m]
      by (simp add: y abs_sd_def report_in_def)
  next
    case Submitted
    then show ?thesis
      using turn compl_answers [OF assms, of "sd_step s" j] by (simp add: st_def)
  next
    case Open
    then show ?thesis
      using turn fill_answers [OF assms, of "sd_step s" j] by (simp add: st_def)
  next
    case (Cancelling i)
    then show ?thesis
      using turn del_answers [OF assms, of i "sd_step s" j] by (simp add: st_def)
  next
    case Unsettled
    then show ?thesis
      using turn fill_answers [OF assms, of "sd_step s" j] by (simp add: st_def)
  qed
qed

lemma price_implements:
  assumes "sd_inv coin s"
  shows "implements coin s Tick (state_of (sd_on_price j s)) (effects_of (sd_on_price j s))"
proof -
  have idle: "implements coin s Tick t []"
    if "sd_inv coin t" "phase_of t = phase_of s" "sd_change_mode t = sd_change_mode s" "sd_counter t = sd_counter s" for t
    using that implements_quiet [of coin t s Tick "[]"] cycle.tick [of "phase_of s" "sd_change_mode s" "sd_counter s"] by (simp add: abs_sd_def)
  show ?thesis
  proof (cases "sd_price s = []")
    case True
    then show ?thesis
      using idle [OF assms] by (simp add: sd_on_price_run)
  next
    case False
    note ps = this
    show ?thesis
    proof (cases "float_of j")
      case (Inl x)
      then show ?thesis
        using idle [OF inv_price_lost [OF assms]] by (simp add: sd_on_price_run ps)
    next
      case (Inr x)
      note inv = inv_price_in [OF assms ps, of x]
      show ?thesis
      proof (cases "sd_wait_price s")
        case True
        then have fsm: "fsm_state (sd_fsm (price_in x s)) = ST_WAIT_PRICE" "phase_of s = Armed (sd_step s)"
          using sd_invD(3) [OF assms] by (auto simp: price_in_def elim: phase_cases)
        show ?thesis
          using armed_implements [OF inv(1) fsm(1), of s Tick] fsm(2) inv(2) True cycle.tick [of "phase_of s" "sd_change_mode s" "sd_counter s"]
            cycle.tick_fire [of "sd_step s" "sd_change_mode s" "sd_counter s"]
          by (simp add: sd_on_price_run ps Inr abs_sd_def) (simp add: price_in_def)
      next
        case False
        then show ?thesis
          using idle [OF inv] by (simp add: sd_on_price_run ps Inr) (simp add: price_in_def)
      qed
    qed
  qed
qed

lemma trade_run_implements:
  assumes "sd_inv coin s"
  shows "implements coin s (stimulus_of (TradeRun j) s) (state_of (sd_on_trade_run j s)) (effects_of (sd_on_trade_run j s))"
proof (cases "run_request j")
  case (Inl x)
  then show ?thesis
    using implements_quiet [OF assms, of s Malformed "[]"] cycle.malformed by (simp add: sd_on_trade_run_run abs_sd_def)
next
  case (Inr r)
  obtain go side where r: "run_request j = Inr (go, side)"
    using Inr by (cases r) auto
  note m = sd_invD(1) [OF assms] and mode = sd_invD(3) [OF assms]
  have act: "wait_order_act s \<longleftrightarrow> sd_wait_order_fill s \<noteq> NewOrder"
    by (rule wait_order_act_iff [OF mode])
  have ids: "wait_order_act (retargeted side s) \<longleftrightarrow> wait_order_act s"
    using inv_slot [OF assms] sd_invD(6) [OF assms] retargeted_ids [of s _ side]
    by (cases "sd_wait_order_fill s") (simp_all add: wait_order_act_def waited_order_def deref_order_def)
  show ?thesis
    using mode
  proof (cases rule: phase_cases)
    case Idle
    show ?thesis
    proof (cases go)
      case True
      have st: "fsm_state (sd_fsm (started side s)) = ST_WAIT_PRICE" "sd_step (started side s) = chosen side"
        using m by (simp_all add: started_def)
      have "implements coin s (Go (chosen side)) (state_of (sd_fsm_run (started side s))) (effects_of (sd_fsm_run (started side s)))"
        using armed_implements [OF inv_started(1) [OF assms Idle(1)] st(1), of s "Go (chosen side)"] st(2)
          inv_started(2,3) [OF assms Idle(1), of side] Idle(1) cycle.start cycle.start_fire
        by (simp add: abs_sd_def)
      then show ?thesis
        using carries_cong [of "effects_of (sd_fsm_run (started side s))" "effects_of (trade_run_start side s)"] True Idle(2)
        by (simp add: sd_on_trade_run_run r implements_def trade_run_start_run)
    next
      case False
      then show ?thesis
        using implements_quiet [OF inv_idle_stop(1) [OF assms]] inv_idle_stop(2) [OF assms] Idle cycle.halt_idle
        by (simp add: sd_on_trade_run_run r trade_run_idle_stop_run abs_sd_def)
    qed
  next
    case Armed
    then have free: "\<not> wait_order_act s" "\<not> wait_order_act (retargeted side s)"
      using act ids by simp_all
    show ?thesis
    proof (cases go)
      case True
      then show ?thesis
        using implements_quiet [OF inv_changed_quietly(1) [OF assms Armed(4)]] inv_changed_quietly(2,4) [OF assms Armed(4)]
          Armed trade_run_change_quiet [OF free(2)] cycle.change_armed
        by (simp add: sd_on_trade_run_run r abs_sd_def)
    next
      case False
      then show ?thesis
        using implements_quiet [OF inv_stopped(1) [OF m sd_invD(2) [OF assms] Armed(4)]]
          inv_stopped(2,3) [OF m sd_invD(2) [OF assms] Armed(4)]
          Armed trade_run_stop_quiet [OF free(1) m] cycle.halt_free [of "Armed (sd_step s)" "sd_change_mode s" "sd_counter s"]
        by (simp add: sd_on_trade_run_run r abs_sd_def)
    qed
  next
    case Unsettled
    then have free: "\<not> wait_order_act s" "\<not> wait_order_act (retargeted side s)"
      using act ids by simp_all
    show ?thesis
    proof (cases go)
      case True
      then show ?thesis
        using implements_quiet [OF inv_changed_quietly(1) [OF assms Unsettled(4)]] inv_changed_quietly(3,4) [OF assms Unsettled(4)]
          Unsettled trade_run_change_quiet [OF free(2)] cycle.change_unsettled
        by (simp add: sd_on_trade_run_run r abs_sd_def)
    next
      case False
      then show ?thesis
        using implements_quiet [OF inv_stopped(1) [OF m sd_invD(2) [OF assms] Unsettled(4)]]
          inv_stopped(2,3) [OF m sd_invD(2) [OF assms] Unsettled(4)]
          Unsettled trade_run_stop_quiet [OF free(1) m] cycle.halt_free [of "Unsettled (sd_step s)" "sd_change_mode s" "sd_counter s"]
        by (simp add: sd_on_trade_run_run r abs_sd_def)
    qed
  next
    case Submitted
    then show ?thesis
      using order_out_implements [OF assms, of "sd_step s" j] r by simp
  next
    case Open
    then show ?thesis
      using order_out_implements [OF assms, of "sd_step s" j] r by simp
  next
    case (Cancelling i)
    then show ?thesis
      using order_out_implements [OF assms, of i j] r by simp
  qed
qed

text \<open>Every event of \<open>SymbolData\<close> is a step of the specification.\<close>

lemma sd_handle_implements:
  assumes "sd_inv coin s"
  shows "implements coin s (stimulus_of ev s) (state_of (sd_handle ev s)) (effects_of (sd_handle ev s))"
proof (cases ev)
  case (TradeData j)
  obtain v where v: "temp_changed s v" "state_of (sd_on_trade_data j s) = v \<or> state_of (sd_on_trade_data j s) = data_set v"
    using sd_on_trade_data_frame(1) [OF sd_invD(1) [OF assms], of j] by blast
  have es: "orders_of (effects_of (sd_on_trade_data j s)) = []" "deleted_of (effects_of (sd_on_trade_data j s)) = []"
    using no_trade_effects [OF sd_on_trade_data_frame(2) [OF sd_invD(1) [OF assms], of j]] by simp_all
  note inv = inv_temp_changed [OF assms v(1)]
  have "abs_sd v = abs_sd s" "abs_sd (data_set v) = abs_sd s"
    using inv inv_data_set [OF inv(1)] counter_temp_changed [OF v(1)] by (simp_all add: abs_sd_def)
  then show ?thesis
    using implements_quiet [of coin _ s Data, OF _ _ es] inv(1) inv_data_set(1) [OF inv(1)] v(2)
      cycle.data [of "phase_of s" "sd_change_mode s" "sd_counter s"]
    by (auto simp: TradeData abs_sd_def)
next
  case (TradeRun j)
  then show ?thesis
    using trade_run_implements [OF assms, of j] by simp
next
  case (Price j)
  then show ?thesis
    using price_implements [OF assms, of j] by simp
next
  case (Report j)
  then show ?thesis
    using report_implements [OF assms, of j] by simp
next
  case Timeout
  note inv = inv_timed_out [OF assms]
  show ?thesis
    using implements_quiet [OF inv(1)] inv(2,3) cycle.expire
      sd_on_order_complete_timeout_run [OF sd_invD(1) [OF assms]]
    by (simp add: Timeout abs_sd_def)
next
  case (ExchangeInfo j)
  note inv = inv_filters_changed [OF assms sd_on_exchange_info_frame [of s j]]
  show ?thesis
    using implements_quiet [OF inv(1)] inv(2,3) counter_filters_changed [OF sd_on_exchange_info_frame [of s j]] cycle.data [of "phase_of s" "sd_change_mode s" "sd_counter s"]
      emits_no_trade [OF sd_on_exchange_info_effects, of j s]
    by (simp add: ExchangeInfo abs_sd_def)
qed

interpretation sd_events: event_system sd_handle "SymbolData coin" "sd_inv coin"
  for coin
proof
  show "sd_inv coin (SymbolData coin)"
    by (rule sd_inv_init)
  show "sd_inv coin (state_of (sd_handle ev s))" if "sd_inv coin s" for s ev
    using sd_handle_implements [OF that, of ev] by (simp add: implements_def)
qed

end
