(* ===== verification/SymbolProps.thy ===== *)
theory SymbolProps
  imports SymbolSpec
begin

text \<open>
  The properties of one currency's trading cycle, over the invariant and the
  refinement of the theories before, each with a witness where it has hypotheses.
\<close>

section \<open>Library\<close>

text \<open>A concrete currency with data set, trading started, and a concrete history.\<close>

definition dollars :: "rat \<Rightarrow> json" where
  "dollars x = JFloat (Fin False x)"

definition demo_set :: json where
  "demo_set = JObj
     [(''a'', JStr ''set''), (''s'', JStr ''BTC''), (''q'', dollars 2),
      (''B'', JObj [(''t'', dollars 100), (''p'', dollars 99)]),
      (''S'', JObj [(''t'', dollars 110), (''p'', dollars 111)])]"

definition demo_run :: "string \<Rightarrow> json" where
  "demo_run a = JObj [(''a'', JStr a), (''p'', JStr ''BUY''), (''s'', JStr ''BTC'')]"

definition demo :: "sd_event list \<Rightarrow> symbol_data" where
  "demo evs = fst (run_events sd_handle evs (SymbolData ''BTC''))"

lemma demo_reach: "reach sd_handle (SymbolData ''BTC'') (demo evs)"
  unfolding demo_def by (rule reach_run_events) (rule reach_init)

lemma demo_inv: "sd_inv ''BTC'' (demo evs)"
  by (rule sd_events.inv_reach [OF demo_reach])

text \<open>An event that can end the wait for an order.\<close>

fun resolves :: "sd_event \<Rightarrow> bool" where
  "resolves Timeout = True"
| "resolves (Report j) =
     (getitem j ''X'' = Inr (JStr ''FILLED'') \<or> getitem j ''X'' = Inr (JStr ''CANCELED''))"
| "resolves _ = False"

lemma cycle_out:
  assumes "cycle (p, c, n) x a (p', c', n')" and "order_out p = Some i"
    and "x \<noteq> Expire" and "\<And>m. x \<noteq> Answer ''FILLED'' m" and "\<And>m. x \<noteq> Answer ''CANCELED'' m"
  shows "order_out p' = Some i" and "a \<noteq> Place k"
  using assms by (cases rule: cycle.cases; auto)+

lemma stimulus_resolves:
  assumes "\<not> resolves ev"
  shows "stimulus_of ev s \<noteq> Expire" and "stimulus_of ev s \<noteq> Answer ''FILLED'' m"
    and "stimulus_of ev s \<noteq> Answer ''CANCELED'' m"
  using assms by (cases ev; auto simp: answer_def split: sum.splits json.splits prod.splits if_splits)+

lemma act_order_out: "sd_inv coin s \<Longrightarrow> wait_order_act s \<longleftrightarrow> order_out (phase_of s) \<noteq> None"
  using wait_order_act_iff [OF sd_invD(3)] by - (rule phase_cases [OF sd_invD(3)]; auto)

lemma refines_step:
  assumes "sd_inv coin s"
  obtains a where "cycle (abs_sd s) (stimulus_of ev s) a (abs_sd (state_of (sd_handle ev s)))"
    and "carries a (state_of (sd_handle ev s)) (effects_of (sd_handle ev s))"
    and "sd_inv coin (state_of (sd_handle ev s))"
  using sd_handle_implements [OF assms, of ev] by (auto simp: implements_def)

lemma out_step:
  assumes "sd_inv coin s" and "order_out (phase_of s) = Some i" and "\<not> resolves ev"
  shows "order_out (phase_of (state_of (sd_handle ev s))) = Some i"
    and "orders_of (effects_of (sd_handle ev s)) = []"
proof -
  obtain a where a: "cycle (abs_sd s) (stimulus_of ev s) a (abs_sd (state_of (sd_handle ev s)))"
    "carries a (state_of (sd_handle ev s)) (effects_of (sd_handle ev s))"
    using refines_step [OF assms(1)] by blast
  note keep = cycle_out [OF a(1) [unfolded abs_sd_def] assms(2) stimulus_resolves [OF assms(3)]]
  show "order_out (phase_of (state_of (sd_handle ev s))) = Some i"
    using keep(1) by blast
  show "orders_of (effects_of (sd_handle ev s)) = []"
    using a(2) keep(2) by (cases a) auto
qed

lemma out_run:
  "sd_inv coin s \<Longrightarrow> order_out (phase_of s) = Some i \<Longrightarrow> \<forall>ev \<in> set evs. \<not> resolves ev \<Longrightarrow>
   order_out (phase_of (fst (run_events sd_handle evs s))) = Some i \<and>
   orders_of (snd (run_events sd_handle evs s)) = []"
proof (induction evs arbitrary: s)
  case Nil
  then show ?case by simp
next
  case (Cons ev evs)
  obtain t es r where step: "sd_handle ev s = (t, es, r)"
    by (cases "sd_handle ev s") auto
  have "order_out (phase_of t) = Some i" "orders_of es = []" "sd_inv coin t"
    using out_step [OF Cons.prems(1,2), of ev] sd_events.inv_event [OF Cons.prems(1), of ev] Cons.prems(3)
    by (simp_all add: step)
  with Cons.IH [of t] Cons.prems(3) show ?case
    by (simp add: step split_beta)
qed

subsection \<open>Requests and prices in closed form\<close>

definition with_temp :: "pyfloat \<Rightarrow> pyfloat \<Rightarrow> pyfloat \<Rightarrow> pyfloat \<Rightarrow> pyfloat \<Rightarrow> symbol_data \<Rightarrow> symbol_data" where
  "with_temp bt bp st sp q s =
     s\<lparr>sd_temp_trigger := [bt, st], sd_temp_price := [bp, sp], sd_temp_quantity := q\<rparr>"

lemma list2: "length xs = 2 \<Longrightarrow> xs[0 := a, Suc 0 := b] = [a, b]"
  by (cases xs; cases "tl xs") auto

lemma set_request_run:
  assumes "sd_inv coin s" and "dict_get d0 ''a'' = Inr (JStr ''set'')"
  defines "d \<equiv> dict_set ''e'' (JStr ''tradeData'') d0"
  assumes "float_at2 (JObj d) ''B'' ''t'' = Inr bt" and "float_at2 (JObj d) ''B'' ''p'' = Inr bp"
    and "float_at2 (JObj d) ''S'' ''t'' = Inr st" and "float_at2 (JObj d) ''S'' ''p'' = Inr sp"
    and "float_at (JObj d) ''q'' = Inr q"
  defines "t \<equiv> data_set (with_temp bt bp st sp q s)"
  shows "state_of (sd_on_trade_data (JObj d0) s) = t"
    and "outcome_of (sd_on_trade_data (JObj d0) s) = Done ()"
    and "\<exists>es. effects_of (sd_on_trade_data (JObj d0) s) =
           es @ [ToWeb (JObj (sd_trade_state t)), ToWeb (JObj (trade_data_reply t d))]"
proof -
  have len: "length (sd_temp_trigger s) = 2" "length (sd_temp_price s) = 2" and m: "machine_ok s"
    using assms(1) by (simp_all add: sd_inv_def data_ok_def)
  have set: "set_temp_data (JObj d) s = (with_temp bt bp st sp q s, [], Done ())"
    using set_temp_data_run [OF assms(4-8), of s] list2 [OF len(1)] list2 [OF len(2)]
    by (simp add: with_temp_def)
  have a: "dict_get d ''a'' = Inr (JStr ''set'')"
    using assms(2) by (simp add: d_def dict_get_set)
  have "machine_ok (with_temp bt bp st sp q s)"
    using m by (simp add: with_temp_def machine_ok_def)
  note note_data = note_data_run [OF this, folded t_def]
  obtain es where "note_data (with_temp bt bp st sp q s) = (t, es, Done ())"
    using note_data(1,3) by (metis prod.collapse)
  then have body: "trade_data_body (JObj d) s = (t, es @ [ToWeb (JObj (sd_trade_state t))], Done ())"
    by (simp add: trade_data_body_def a set send_trade_state_def p_bind_def prog_defs)
  show "state_of (sd_on_trade_data (JObj d0) s) = t"
    and "outcome_of (sd_on_trade_data (JObj d0) s) = Done ()"
    and "\<exists>es. effects_of (sd_on_trade_data (JObj d0) s) =
           es @ [ToWeb (JObj (sd_trade_state t)), ToWeb (JObj (trade_data_reply t d))]"
    by (simp_all add: sd_on_trade_data_body Let_def d_def [symmetric] body)
qed

lemma start_quiet:
  assumes "sd_inv coin s" and "\<not> sd_running s" and "run_request j = Inr (True, side)"
    and "is_trigger_in_price (sd_trigger (started side s) ! chosen side) s \<noteq> Inr True"
  shows "state_of (sd_on_trade_run j s) = started side s"
proof -
  have idle: "phase_of s = Idle"
    using phase_start [OF assms(1)] assms(2) by simp
  have st: "fsm_state (sd_fsm (started side s)) = ST_WAIT_PRICE" "sd_step (started side s) = chosen side"
    "sd_price (started side s) = sd_price s"
    using sd_invD(1) [OF assms(1)] by (simp_all add: started_def)
  show ?thesis
    using run_armed_quiet(1) [OF inv_started(1) [OF assms(1) idle] st(1)] assms(2,3,4) st
      is_trigger_cong [of "started side s" s]
    by (simp add: sd_on_trade_run_run trade_run_start_run)
qed

lemma price_turn:
  assumes "sd_inv coin s" and "sd_price s \<noteq> []" and "float_of j = Inr x"
  defines "hit \<equiv> sd_wait_price s \<and> is_trigger_in_price (sd_trigger s ! sd_step s) (price_in x s) = Inr True"
  shows "state_of (sd_on_price j s) = (if hit then fire (price_in x s) else price_in x s)"
    and "orders_of (effects_of (sd_on_price j s)) = (if hit then [placed_order s] else [])"
proof -
  note inv = inv_price_in(1) [OF assms(1,2), of x]
  have same: "sd_trigger (price_in x s) = sd_trigger s" "sd_step (price_in x s) = sd_step s"
    "placed_order (price_in x s) = placed_order s"
    by (simp_all add: price_in_def placed_order_def current_order_def)
  have "fsm_state (sd_fsm (price_in x s)) = ST_WAIT_PRICE" if "sd_wait_price s"
    using that sd_invD(3) [OF assms(1)] by (auto simp: price_in_def elim: phase_cases)
  then show "state_of (sd_on_price j s) = (if hit then fire (price_in x s) else price_in x s)"
    and "orders_of (effects_of (sd_on_price j s)) = (if hit then [placed_order s] else [])"
    using run_armed_fires [OF inv] run_armed_quiet [OF inv] assms(2,3) same
    by (cases hit; cases "sd_wait_price s"; simp add: sd_on_price_run hit_def)+
qed

subsection \<open>The example\<close>

lemma demo_Nil [simp]: "demo [] = SymbolData ''BTC''"
  by (simp add: demo_def)

lemma run_events_append:
  "run_events h (evs @ evs') s = (case run_events h evs s of (t, es) \<Rightarrow>
     (case run_events h evs' t of (u, es') \<Rightarrow> (u, es @ es')))"
  by (induction evs arbitrary: s) (auto split: prod.split)

lemma demo_snoc: "demo (evs @ [ev]) = state_of (sd_handle ev (demo evs))"
  by (simp add: demo_def run_events_append split_beta)

definition D1 :: "sd_event list" where "D1 = [TradeData demo_set]"
definition D2 :: "sd_event list" where "D2 = D1 @ [TradeRun (demo_run ''start'')]"
definition D3 :: "sd_event list" where "D3 = D2 @ [Price (dollars 98)]"
definition D4 :: "sd_event list" where "D4 = D3 @ [Price (dollars 101)]"

lemma float_dollars [simp]: "float_of (dollars x) = Inr (Fin False x)"
  by (simp add: dollars_def)

lemma demo_D1:
  "demo D1 = data_ready (with_temp (Fin False 100) (Fin False 99) (Fin False 110) (Fin False 111) (Fin False 2) (SymbolData ''BTC''))"
proof -
  have "\<not> sd_running (SymbolData ''BTC'')"
    by (simp add: SymbolData_def)
  then show ?thesis
    using set_request_run(1) [OF sd_inv_init [of "''BTC''"],
        of "[(''a'', JStr ''set''), (''s'', JStr ''BTC''), (''q'', dollars 2),
             (''B'', JObj [(''t'', dollars 100), (''p'', dollars 99)]),
             (''S'', JObj [(''t'', dollars 110), (''p'', dollars 111)])]"
         "Fin False 100" "Fin False 99" "Fin False 110" "Fin False 111" "Fin False 2"]
    by (simp add: D1_def demo_def demo_set_def split_beta dict_get_def float_at_def float_at2_def data_set_def with_temp_def)
qed

lemma data_ready_simps [simp]:
  "sd_price (data_ready s) = sd_price s" "sd_running (data_ready s) = sd_running s"
  "sd_temp_trigger (data_ready s) = sd_temp_trigger s" "sd_temp_price (data_ready s) = sd_temp_price s"
  "sd_temp_quantity (data_ready s) = sd_temp_quantity s" "sd_orders (data_ready s) = sd_orders s"
  "sd_trigger (data_ready s) = sd_trigger s" "sd_step (data_ready s) = sd_step s"
  "sd_counter (data_ready s) = sd_counter s" "sd_change_mode (data_ready s) = sd_change_mode s"
  "sd_symbol (data_ready s) = sd_symbol s" "sd_stepSize (data_ready s) = sd_stepSize s"
  by (simp_all add: data_ready_def fsm_ready_run)

lemma trigger_zero: "sd_price s = [f0, f0] \<Longrightarrow> is_trigger_in_price v s = Inr False"
  by (simp add: is_trigger_in_price_def py_nth_def f0_def)

lemma demo_D2: "demo D2 = started (JStr ''BUY'') (demo D1)"
proof -
  have p: "sd_price (demo D1) = [f0, f0]" "\<not> sd_running (demo D1)"
    by (simp_all add: demo_D1 with_temp_def SymbolData_def)
  have "run_request (demo_run ''start'') = Inr (True, JStr ''BUY'')"
    by (simp add: run_request_def demo_run_def dict_get_def)
  from start_quiet [OF demo_inv p(2) this] show ?thesis
    unfolding D2_def demo_snoc by (simp add: trigger_zero [OF p(1)])
qed

lemma started_simps [simp]:
  "sd_price (started side s) = sd_price s" "sd_wait_price (started side s)" "sd_running (started side s)"
  "sd_step (started side s) = chosen side"
  by (simp_all add: started_def)

lemma started_trigger [simp]:
  "length (sd_trigger s) = 2 \<Longrightarrow> sd_trigger (started side s) = [sd_temp_trigger s ! 0, sd_temp_trigger s ! 1]"
  using list2 [of "sd_trigger s"] by (simp add: started_def retargeted_def)

lemma demo_D1_simps [simp]:
  "sd_price (demo D1) = [f0, f0]" "sd_trigger (demo D1) = [f0, f0]"
  "sd_temp_trigger (demo D1) = [Fin False 100, Fin False 110]"
  "sd_temp_price (demo D1) = [Fin False 99, Fin False 111]" "sd_temp_quantity (demo D1) = Fin False 2"
  "sd_change_mode (demo D1) = False" "sd_symbol (demo D1) = ''BTC''" "sd_counter (demo D1) = 0"
  by (simp_all add: demo_D1 with_temp_def SymbolData_def)

lemma chosen_BUY [simp]: "chosen (JStr ''BUY'') = 0"
  by (simp add: chosen_def)

lemma demo_D3: "demo D3 = price_in (Fin False 98) (demo D2)"
  unfolding D3_def demo_snoc
  using price_turn(1) [OF demo_inv, of D2 "dollars 98" "Fin False 98"]
  by (simp add: demo_D2 price_in_def is_trigger_in_price_def py_nth_def f0_def)

lemma demo_D3_simps [simp]:
  "sd_price (demo D3) = [Fin False 98, f0]" "sd_trigger (demo D3) = [Fin False 100, Fin False 110]"
  "sd_step (demo D3) = 0" "sd_wait_price (demo D3)" "sd_running (demo D3)"
  by (simp_all add: demo_D3 demo_D2 price_in_def)

lemma demo_hits: "is_trigger_in_price (Fin False 100) (price_in (Fin False 101) (demo D3)) = Inr True"
  by (simp add: price_in_def is_trigger_in_price_def py_nth_def less_eq_pyfloat_def signed_def)

lemma demo_D4: "demo D4 = fire (price_in (Fin False 101) (demo D3))"
  unfolding D4_def demo_snoc
  using price_turn(1) [OF demo_inv, of D3 "dollars 101" "Fin False 101"] demo_hits by simp

lemma demo_D3_armed: "fsm_state (sd_fsm (demo D3)) = ST_WAIT_PRICE"
  using sd_invD(3) [OF demo_inv [of D3]] demo_D3_simps(4) by (auto elim: phase_cases)

lemma demo_D4_phase: "phase_of (demo D4) = Submitted 0" "sd_change_mode (demo D4) = False"
proof -
  have inv: "sd_inv ''BTC'' (price_in (Fin False 101) (demo D3))"
    by (rule inv_price_in(1) [OF demo_inv]) simp
  have "fsm_state (sd_fsm (price_in (Fin False 101) (demo D3))) = ST_WAIT_PRICE"
    using demo_D3_armed by (simp add: price_in_def)
  from inv_fire(2,3) [OF inv this] show "phase_of (demo D4) = Submitted 0" "sd_change_mode (demo D4) = False"
    by (simp_all add: demo_D4) (simp_all add: price_in_def demo_D3 demo_D2 started_def)
qed

lemma demo_D4_act: "wait_order_act (demo D4)"
  using act_order_out [OF demo_inv, of D4] demo_D4_phase by simp

section \<open>Safety of a run\<close>

text \<open>C1. Refinement: from every state the events of a currency can lead to, every event is one step
  of the phase machine \<open>cycle\<close>: it places at most the one order of the step the machine is armed for,
  deletes at most the one order that is out, and moves between the phases as specified.\<close>

theorem sd_refines_cycle:
  assumes "reach sd_handle (SymbolData coin) s"
  shows "\<exists>a. cycle (abs_sd s) (stimulus_of ev s) a (abs_sd (state_of (sd_handle ev s))) \<and>
     carries a (state_of (sd_handle ev s)) (effects_of (sd_handle ev s))"
  using refines_step [OF sd_events.inv_reach [OF assms], of ev] by metis

theorem sd_refines_cycle_witness:
  "\<exists>a. cycle (abs_sd (demo [TradeData demo_set, TradeRun (demo_run ''start'')])) Tick a
      (abs_sd (state_of (sd_on_price (dollars 100) (demo [TradeData demo_set, TradeRun (demo_run ''start'')])))) \<and>
    carries a (state_of (sd_on_price (dollars 100) (demo [TradeData demo_set, TradeRun (demo_run ''start'')])))
      (effects_of (sd_on_price (dollars 100) (demo [TradeData demo_set, TradeRun (demo_run ''start'')])))"
  using sd_refines_cycle [OF demo_reach, of "[TradeData demo_set, TradeRun (demo_run ''start'')]" "Price (dollars 100)"]
  by simp

text \<open>C2. No second order: while an order may be at the exchange, no sequence of prices, requests and reports
  places another one, until a timeout, a fill or a confirmed deletion is reported.\<close>

theorem sd_no_second_order:
  assumes "reach sd_handle (SymbolData coin) s" and "wait_order_act s"
    and "\<forall>ev \<in> set evs. \<not> resolves ev"
  shows "orders_of (snd (run_events sd_handle evs s)) = [] \<and> wait_order_act (fst (run_events sd_handle evs s))"
proof -
  have inv: "sd_inv coin s"
    by (rule sd_events.inv_reach [OF assms(1)])
  then obtain i where "order_out (phase_of s) = Some i"
    using act_order_out [OF inv] assms(2) by auto
  note run = out_run [OF inv this assms(3)]
  show ?thesis
    using run act_order_out [OF sd_events.inv_run [OF inv]] by simp
qed

theorem sd_no_second_order_witness:
  "orders_of (snd (run_events sd_handle [Price (dollars 105), TradeRun (demo_run ''stop'')] (demo D4))) = [] \<and>
   wait_order_act (fst (run_events sd_handle [Price (dollars 105), TradeRun (demo_run ''stop'')] (demo D4)))"
  by (rule sd_no_second_order [OF demo_reach demo_D4_act]) simp

definition placed_right :: "string \<Rightarrow> symbol_data \<Rightarrow> order \<Rightarrow> bool" where
  "placed_right coin t ord \<longleftrightarrow>
     ord = sd_orders t ! sd_step t \<and> sd_wait_order_fill t = SlotOrder (sd_step t) \<and>
     o_symbol ord = coin @ ''USDT'' \<and> o_type ord = LIMIT \<and> o_timeInForce ord = GTC \<and>
     o_side ord = (if sd_step t = 0 then BUY else SELL) \<and>
     o_newClientOrderId ord = order_id (sd_step t) coin (sd_counter t) \<and>
     is_trigger_in_price (sd_trigger t ! sd_step t) t = Inr True"

lemma Submitted_waits: "sd_inv coin t \<Longrightarrow> phase_of t = Submitted k \<Longrightarrow> sd_wait_order_fill t = SlotOrder k \<and> k = sd_step t"
  by (rule phase_cases [OF sd_invD(3)]) auto

lemma order_placed_inv:
  assumes inv: "sd_inv coin s" and ord: "ord \<in> set (orders_of (effects_of (sd_handle ev s)))"
  shows "orders_of (effects_of (sd_handle ev s)) = [ord] \<and> \<not> wait_order_act s \<and>
    placed_right coin (state_of (sd_handle ev s)) ord"
proof -
  let ?t = "state_of (sd_handle ev s)" and ?es = "effects_of (sd_handle ev s)"
  obtain a where a: "cycle (abs_sd s) (stimulus_of ev s) a (abs_sd ?t)" "carries a ?t ?es" and inv': "sd_inv coin ?t"
    using refines_step [OF inv] by blast
  obtain k where k: "a = Place k"
    using a(2) ord by (cases a) auto
  have c: "orders_of ?es = [sd_orders ?t ! k]" "k = sd_step ?t" "is_trigger_in_price (sd_trigger ?t ! k) ?t = Inr True"
    "o_newClientOrderId (sd_orders ?t ! k) = order_id k (sd_symbol ?t) (sd_counter ?t)"
    using a(2) unfolding k carries.simps by blast+
  have ph: "phase_of ?t = Submitted k" "order_out (phase_of s) = None"
    using a(1) unfolding k abs_sd_def by (cases rule: cycle.cases; auto)+
  have "order_ok coin (sd_counter ?t) k (sd_orders ?t ! k)"
    using sd_invD(2,5) [OF inv'] c(2) by (simp add: data_ok_def)
  then have "placed_right coin ?t ord"
    using ord c Submitted_waits [OF inv' ph(1)] sd_invD(4) [OF inv']
    by (simp add: placed_right_def order_ok_def side_of_def)
  with c(1) ord ph(2) act_order_out [OF inv] show ?thesis
    by simp
qed

text \<open>Every field of the order sent: it is the order of its step as it was, at a start with the price and the
  quantity set for it, under a new name.\<close>

definition order_due :: "symbol_data \<Rightarrow> nat \<Rightarrow> order" where
  "order_due s k =
     (if sd_running s then sd_orders s ! k
      else (sd_orders s ! k)\<lparr>o_price := sd_temp_price s ! k, o_quantity := sd_temp_quantity s\<rparr>)
       \<lparr>o_newClientOrderId := order_id k (sd_symbol s) (sd_counter s)\<rparr>"

lemma run_armed_order:
  assumes "sd_inv coin u" and "fsm_state (sd_fsm u) = ST_WAIT_PRICE" and "ord \<in> set (orders_of (effects_of (sd_fsm_run u)))"
  shows "ord = placed_order u" and "sd_step (state_of (sd_fsm_run u)) = sd_step u"
proof -
  have "is_trigger_in_price (sd_trigger u ! sd_step u) u = Inr True"
    using run_armed_quiet(2) [OF assms(1,2)] assms(3) by fastforce
  with run_armed_fires(1,2) [OF assms(1,2)] assms(3) show "ord = placed_order u" "sd_step (state_of (sd_fsm_run u)) = sd_step u"
    by (simp_all add: fire_def place_order_def)
qed

lemma order_sent:
  assumes inv: "sd_inv coin s" and ord: "ord \<in> set (orders_of (effects_of (sd_handle ev s)))"
  shows "ord = order_due s (sd_step (state_of (sd_handle ev s)))"
proof -
  let ?t = "state_of (sd_handle ev s)" and ?es = "effects_of (sd_handle ev s)"
  obtain a where a: "cycle (abs_sd s) (stimulus_of ev s) a (abs_sd ?t)" "carries a ?t ?es"
    using refines_step [OF inv] by blast
  obtain k where k: "a = Place k"
    using a(2) ord by (cases a) auto
  from a(1) consider i where "phase_of s = Idle" "stimulus_of ev s = Go i"
    | "phase_of s = Armed k" "stimulus_of ev s = Tick" | x m where "phase_of s = Armed k" "stimulus_of ev s = Answer x m"
    unfolding k abs_sd_def by (cases rule: cycle.cases) auto
  then show ?thesis
  proof cases
    case 1
    then obtain j side where ev: "ev = TradeRun j" "run_request j = Inr (True, side)"
      by (cases ev) (auto simp: answer_def split: sum.splits if_splits)
    have idle: "\<not> sd_running s"
      using phase_start [OF inv] 1(1) by simp
    have run: "?t = state_of (sd_fsm_run (started side s))" "orders_of ?es = orders_of (effects_of (sd_fsm_run (started side s)))"
      using ev idle by (simp_all add: sd_on_trade_run_run trade_run_start_run)
    have st: "fsm_state (sd_fsm (started side s)) = ST_WAIT_PRICE"
      using sd_invD(1) [OF inv] by (simp add: started_def)
    note sent = run_armed_order [OF inv_started(1) [OF inv 1(1)] st]
    have o: "ord = placed_order (started side s)" "sd_step ?t = chosen side"
      using sent [of ord] ord run by (simp_all add: started_def retargeted_def)
    have len: "length (sd_orders s) = 2" and "chosen side < 2"
      using sd_invD(6) [OF inv] by (simp_all add: chosen_def)
    then have "sd_orders (started side s) ! chosen side =
        (sd_orders s ! chosen side)\<lparr>o_price := sd_temp_price s ! chosen side, o_quantity := sd_temp_quantity s\<rparr>"
      using take_temp_data_orders by (simp add: started_def retargeted_def)
    then show ?thesis
      using o idle by (simp add: order_due_def placed_order_def current_order_def) (simp add: started_def retargeted_def)
  next
    case 2
    then obtain j where ev: "ev = Price j"
      by (cases ev) (auto simp: answer_def split: sum.splits if_splits)
    obtain x where x: "sd_price s \<noteq> []" "float_of j = Inr x"
      using ord by (auto simp: ev sd_on_price_run split: if_splits sum.splits)
    have st: "fsm_state (sd_fsm s) = ST_WAIT_PRICE" "sd_wait_price s" "sd_running s"
      using sd_invD(3) [OF inv] 2(1) by (auto elim: phase_cases)
    then have run: "sd_handle ev s = sd_fsm_run (price_in x s)" and "fsm_state (sd_fsm (price_in x s)) = ST_WAIT_PRICE"
      using x by (simp_all add: ev sd_on_price_run price_in_def)
    from run_armed_order [OF inv_price_in(1) [OF inv x(1)] this(2)] ord st(3) show ?thesis
      unfolding run by (auto simp: order_due_def placed_order_def current_order_def price_in_def)
  next
    case 3
    then obtain j where ev: "ev = Report j"
      by (cases ev) (auto split: sum.splits if_splits)
    have st: "fsm_state (sd_fsm s) = ST_WAIT_PRICE" "sd_running s"
      using sd_invD(3) [OF inv] 3(1) by (auto elim: phase_cases)
    then have run: "?t = state_of (sd_fsm_run (report_in j s))" "orders_of ?es = orders_of (effects_of (sd_fsm_run (report_in j s)))"
      and "fsm_state (sd_fsm (report_in j s)) = ST_WAIT_PRICE"
      by (simp_all add: ev sd_on_order_report_run Let_def split_beta) (simp add: report_in_def)
    from run_armed_order [OF inv_report_in(1) [OF inv] this(3)] ord st(2) show ?thesis
      unfolding run by (auto simp: order_due_def placed_order_def current_order_def report_in_def)
  qed
qed

text \<open>C3. What is placed: an event that sends an order to the exchange sends exactly one, from a state with
  no order out; it is a limit order of the pair, good till cancelled, on the side of the current step, named
  after the step and the cycle, stored as the order waited for, and the last two prices enclose its
  trigger.\<close>

theorem sd_order_placed:
  assumes "reach sd_handle (SymbolData coin) s" and "ord \<in> set (orders_of (effects_of (sd_handle ev s)))"
  shows "orders_of (effects_of (sd_handle ev s)) = [ord] \<and> \<not> wait_order_act s \<and>
    placed_right coin (state_of (sd_handle ev s)) ord"
  by (rule order_placed_inv [OF sd_events.inv_reach [OF assms(1)] assms(2)])

lemma demo_fires: "orders_of (effects_of (sd_handle (Price (dollars 101)) (demo D3))) = [placed_order (demo D3)]"
  using price_turn(2) [OF demo_inv, of D3 "dollars 101" "Fin False 101"] demo_hits by simp

theorem sd_order_placed_witness:
  "orders_of (effects_of (sd_handle (Price (dollars 101)) (demo D3))) = [placed_order (demo D3)] \<and>
   \<not> wait_order_act (demo D3) \<and>
   placed_right ''BTC'' (state_of (sd_handle (Price (dollars 101)) (demo D3))) (placed_order (demo D3))"
  using sd_order_placed [OF demo_reach, of "placed_order (demo D3)" "Price (dollars 101)" D3] demo_fires by simp

definition between :: "pyfloat \<Rightarrow> pyfloat \<Rightarrow> pyfloat \<Rightarrow> bool" where
  "between a v b \<longleftrightarrow> \<not> is_zero a \<and> \<not> is_zero b \<and> (a \<le> v \<and> v \<le> b \<or> b \<le> v \<and> v \<le> a)"

text \<open>C4. When a price places an order: a price tick of a running cycle places an order exactly when the
  machine waits for a price, the new price and the one before are not zero, and the trigger of the step lies
  between the two, in either order and bounds included.\<close>

theorem sd_price_places_iff:
  assumes "sd_inv coin s" and "sd_price s = [p0, p1]" and "float_of j = Inr x"
  shows "orders_of (effects_of (sd_on_price j s)) =
    (if phase_of s = Armed (sd_step s) \<and> between x (sd_trigger s ! sd_step s) p0 then [placed_order s] else [])"
proof -
  have "is_trigger_in_price v (price_in x s) = Inr (between x v p0)" for v
    by (auto simp: is_trigger_in_price_def price_in_def py_nth_def between_def assms(2))
  moreover have "sd_wait_price s \<longleftrightarrow> phase_of s = Armed (sd_step s)"
    by (rule phase_cases [OF sd_invD(3) [OF assms(1)]]) auto
  ultimately show ?thesis
    using price_turn(2) [OF assms(1) _ assms(3)] assms(2) by simp
qed

theorem sd_price_places_iff_witness:
  "orders_of (effects_of (sd_on_price (dollars 101) (demo D3))) = [placed_order (demo D3)]"
proof -
  have "phase_of (demo D3) = Armed (sd_step (demo D3))"
    using sd_invD(3) [OF demo_inv [of D3]] demo_D3_simps(4) by (auto elim: phase_cases)
  moreover have "between (Fin False 101) (Fin False 100) (Fin False 98)"
    by (simp add: between_def is_zero_def float_eq_def f0_def less_eq_pyfloat_def signed_def)
  ultimately show ?thesis
    using sd_price_places_iff [OF demo_inv _ float_dollars, of D3 "Fin False 98" f0 101] 
    by simp
qed

end
