(* ===== verification/Triples.thy ===== *)
theory Triples
  imports Prelude
begin

text \<open>
  Two judgements on programs under an invariant, each with one rule per
  combinator: \<open>under I P m\<close>, that \<open>m\<close> keeps \<open>I\<close> and has effects in \<open>P\<close> only, and
  \<open>agree I m m'\<close>, that \<open>m\<close> and \<open>m'\<close> behave alike where \<open>I\<close> holds.
\<close>

section \<open>Invariant and effects\<close>

definition under :: "('s \<Rightarrow> bool) \<Rightarrow> ('e \<Rightarrow> bool) \<Rightarrow> ('s, 'e, 'a) prog \<Rightarrow> bool" where
  "under I P m \<longleftrightarrow> (\<forall>s. I s \<longrightarrow> I (state_of (m s)) \<and> (\<forall>e \<in> set (effects_of (m s)). P e))"

named_theorems under_intros \<open>invariant and effects of composed programs\<close>

lemma underI:
  "(\<And>s. I s \<Longrightarrow> I (state_of (m s))) \<Longrightarrow> (\<And>s e. I s \<Longrightarrow> e \<in> set (effects_of (m s)) \<Longrightarrow> P e) \<Longrightarrow> under I P m"
  by (simp add: under_def)

lemma underD:
  "under I P m \<Longrightarrow> I s \<Longrightarrow> I (state_of (m s))"
  "under I P m \<Longrightarrow> I s \<Longrightarrow> e \<in> set (effects_of (m s)) \<Longrightarrow> P e"
  by (simp_all add: under_def)

lemma under_keeps: "under I P m \<Longrightarrow> keeps I m"
  by (simp add: under_def keeps_def)

lemma under_mono: "under I P m \<Longrightarrow> (\<And>e. P e \<Longrightarrow> Q e) \<Longrightarrow> under I Q m"
  by (auto simp: under_def)

lemma under_silent [under_intros]:
  "under I P p_skip" "under I P (p_ret x)" "under I P (p_raise ex)"
  by (simp_all add: under_def prog_defs)

lemma under_upd [under_intros]: "(\<And>s. I s \<Longrightarrow> I (f s)) \<Longrightarrow> under I P (p_upd f)"
  by (simp add: under_def prog_defs)

lemma under_emit [under_intros]: "P e \<Longrightarrow> under I P (p_emit e)"
  by (simp add: under_def prog_defs)

lemma under_bind [under_intros]:
  assumes "under I P m" and "\<And>a. under I P (k a)"
  shows "under I P (p_bind m k)"
proof -
  have "I (state_of (p_bind m k s)) \<and> (\<forall>e \<in> set (effects_of (p_bind m k s)). P e)" if "I s" for s
  proof -
    obtain s1 es r where m: "m s = (s1, es, r)"
      by (cases "m s") auto
    with underD [OF assms(1) that] have "I s1" and es: "\<forall>e \<in> set es. P e"
      by auto
    with assms(2) show ?thesis
      by (cases r) (auto simp: p_bind_def m under_def split_beta)
  qed
  then show ?thesis
    by (simp add: under_def)
qed

lemma under_block [under_intros]:
  "under I P (p_block [])"
  "under I P c \<Longrightarrow> under I P (p_block cs) \<Longrightarrow> under I P (p_block (c # cs))"
  by (auto simp: p_block.simps intro!: under_intros)

lemma under_If [under_intros]:
  "(b \<Longrightarrow> under I P c) \<Longrightarrow> (\<not> b \<Longrightarrow> under I P d) \<Longrightarrow> under I P (if b then c else d)"
  by simp

lemma under_for [under_intros]: "(\<And>x. x \<in> set xs \<Longrightarrow> under I P (body x)) \<Longrightarrow> under I P (p_for xs body)"
  by (induction xs) (auto intro!: under_intros)

text \<open>What is read is a value of a state with the invariant.\<close>

lemma under_read [under_intros]: "(\<And>s. I s \<Longrightarrow> under I P (k (f s))) \<Longrightarrow> under I P (p_read f k)"
  by (simp add: under_def p_read_def)

lemma under_val [under_intros]: "(\<And>a. v = Inr a \<Longrightarrow> under I P (k a)) \<Longrightarrow> under I P (p_val v k)"
  by (auto simp: p_val_def intro: under_silent split: sum.split)

lemma under_if [under_intros]: "under I P c \<Longrightarrow> under I P d \<Longrightarrow> under I P (p_if b c d)"
  by (simp add: under_def p_if_def)

lemma under_when [under_intros]: "under I P c \<Longrightarrow> under I P (p_when b c)"
  by (simp add: p_when_def under_intros)

lemma under_try [under_intros]:
  assumes "under I P m" and "under I P h"
  shows "under I P (p_try Q m h)"
proof -
  have "I (state_of (p_try Q m h s)) \<and> (\<forall>e \<in> set (effects_of (p_try Q m h s)). P e)" if "I s" for s
  proof -
    obtain s1 es r where m: "m s = (s1, es, r)"
      by (cases "m s") auto
    with underD [OF assms(1) that] have "I s1" and es: "\<forall>e \<in> set es. P e"
      by auto
    with assms(2) show ?thesis
      by (cases r) (auto simp: p_try_def m under_def split_beta)
  qed
  then show ?thesis
    by (simp add: under_def)
qed

text \<open>Along a run of events.\<close>

lemma under_run:
  assumes "\<And>ev. under I P (handle ev)" and "I s"
  shows "I (fst (run_events handle evs s)) \<and> (\<forall>e \<in> set (snd (run_events handle evs s)). P e)"
  using assms(2)
proof (induction evs arbitrary: s)
  case (Cons ev evs)
  obtain s1 es r where step: "handle ev s = (s1, es, r)"
    by (cases "handle ev s") auto
  with underD [OF assms(1) [of ev] Cons.prems] have "I s1" and "\<forall>e \<in> set es. P e"
    by auto
  with Cons.IH [of s1] step show ?case
    by (auto simp: split_beta)
qed simp

section \<open>Effects from a precondition\<close>

text \<open>The effects of a sequence, with what the statements so far have established.\<close>

definition emits_from :: "('s \<Rightarrow> bool) \<Rightarrow> ('e \<Rightarrow> bool) \<Rightarrow> ('s, 'e, 'a) prog \<Rightarrow> bool" where
  "emits_from I P m \<longleftrightarrow> (\<forall>s. I s \<longrightarrow> (\<forall>e \<in> set (effects_of (m s)). P e))"

lemma emits_fromD: "emits_from I P m \<Longrightarrow> I s \<Longrightarrow> e \<in> set (effects_of (m s)) \<Longrightarrow> P e"
  by (simp add: emits_from_def)

lemma emits_from_only: "emits_only P m \<Longrightarrow> emits_from I P m"
  by (simp add: emits_from_def emits_only_def)

lemma emits_from_False: "emits_from (\<lambda>_. False) P m"
  by (simp add: emits_from_def)

lemma emits_from_emit: "(\<And>s. I s \<Longrightarrow> P e) \<Longrightarrow> emits_from I P (p_emit e)"
  by (simp add: emits_from_def prog_defs)

lemma emits_from_read: "(\<And>s. I s \<Longrightarrow> emits_from I P (k (f s))) \<Longrightarrow> emits_from I P (p_read f k)"
  by (simp add: emits_from_def prog_defs)

lemma emits_from_if:
  "emits_from (\<lambda>s. I s \<and> b s) P c \<Longrightarrow> emits_from (\<lambda>s. I s \<and> \<not> b s) P d \<Longrightarrow> emits_from I P (p_if b c d)"
  by (simp add: emits_from_def prog_defs)

lemma emits_from_single: "emits_from I P c \<Longrightarrow> emits_from I P (p_block [c])"
  by simp

lemma emits_from_step:
  assumes "emits_from I P c"
    and "\<And>s. I s \<Longrightarrow> outcome_of (c s) = Done () \<Longrightarrow> J (state_of (c s))"
    and "emits_from J P (p_block (d # cs))"
  shows "emits_from I P (p_block (c # d # cs))"
proof -
  have "\<forall>e \<in> set (effects_of (p_block (c # d # cs) s)). P e" if "I s" for s
  proof -
    obtain s1 es r where c: "c s = (s1, es, r)"
      by (cases "c s") auto
    show ?thesis
      using that assms(1) assms(2) [OF that] assms(3) c
      by (cases r) (auto simp: emits_from_def p_bind_def split_beta)
  qed
  then show ?thesis
    by (simp add: emits_from_def)
qed

lemma under_emits_from: "keeps I m \<Longrightarrow> emits_from I P m \<Longrightarrow> under I P m"
  by (simp add: under_def keeps_def emits_from_def)

section \<open>Agreement\<close>

definition agree :: "('s \<Rightarrow> bool) \<Rightarrow> ('s, 'e, 'a) prog \<Rightarrow> ('s, 'e, 'a) prog \<Rightarrow> bool" where
  "agree I m m' \<longleftrightarrow> (\<forall>s. I s \<longrightarrow> m s = m' s)"

named_theorems agree_intros \<open>agreement of composed programs\<close>

lemma agreeD: "agree I m m' \<Longrightarrow> I s \<Longrightarrow> m s = m' s"
  by (simp add: agree_def)

lemma agree_refl [agree_intros]: "agree I m m"
  by (simp add: agree_def)

lemma agree_bind:
  assumes "agree I m m'" and "keeps I m'" and "\<And>a. agree I (k a) (k' a)"
  shows "agree I (p_bind m k) (p_bind m' k')"
proof -
  have "p_bind m k s = p_bind m' k' s" if "I s" for s
  proof -
    obtain s1 es r where m: "m' s = (s1, es, r)"
      by (cases "m' s") auto
    with keepsD [OF assms(2) that] have "I s1"
      by simp
    with assms(1,3) that m show ?thesis
      by (cases r) (simp_all add: p_bind_def agree_def)
  qed
  then show ?thesis
    by (simp add: agree_def)
qed

lemma agree_block [agree_intros]:
  "agree I (p_block []) (p_block [])"
  "agree I c c' \<Longrightarrow> agree I (p_block [c]) (p_block [c'])"
  "agree I c c' \<Longrightarrow> keeps I c' \<Longrightarrow> agree I (p_block (d # cs)) (p_block (d' # cs')) \<Longrightarrow>
     agree I (p_block (c # d # cs)) (p_block (c' # d' # cs'))"
  by (auto intro: agree_refl agree_bind)

text \<open>What a statement has established when it is done.\<close>

lemma agree_post:
  assumes "\<And>s. I s \<Longrightarrow> outcome_of (m s) = Done () \<Longrightarrow> J (state_of (m s))" and "agree J d d'"
  shows "agree I (p_block [m, d]) (p_block [m, d'])"
proof -
  have "p_block [m, d] s = p_block [m, d'] s" if "I s" for s
  proof -
    obtain s1 es r where m: "m s = (s1, es, r)"
      by (cases "m s") auto
    then show ?thesis
      using assms(1) [OF that] assms(2) by (cases r) (simp_all add: p_bind_def agree_def)
  qed
  then show ?thesis
    by (simp add: agree_def)
qed

lemma agree_If [agree_intros]:
  "(b \<Longrightarrow> agree I c c') \<Longrightarrow> (\<not> b \<Longrightarrow> agree I d d') \<Longrightarrow> agree I (if b then c else d) (if b then c' else d')"
  by simp

lemma agree_read [agree_intros]: "(\<And>a. agree I (k a) (k' a)) \<Longrightarrow> agree I (p_read f k) (p_read f k')"
  by (simp add: agree_def p_read_def)

lemma agree_val [agree_intros]: "(\<And>a. v = Inr a \<Longrightarrow> agree I (k a) (k' a)) \<Longrightarrow> agree I (p_val v k) (p_val v k')"
  by (auto simp: p_val_def agree_refl split: sum.split)

lemma agree_if [agree_intros]: "agree I c c' \<Longrightarrow> agree I d d' \<Longrightarrow> agree I (p_if b c d) (p_if b c' d')"
  by (simp add: agree_def p_if_def)

lemma agree_try [agree_intros]:
  assumes "agree I m m'" and "keeps I m'" and "agree I h h'"
  shows "agree I (p_try Q m h) (p_try Q m' h')"
proof -
  have "p_try Q m h s = p_try Q m' h' s" if "I s" for s
  proof -
    obtain s1 es r where m: "m' s = (s1, es, r)"
      by (cases "m' s") auto
    with keepsD [OF assms(2) that] have "I s1"
      by simp
    with assms(1,3) that m show ?thesis
      by (cases r) (simp_all add: p_try_def agree_def)
  qed
  then show ?thesis
    by (simp add: agree_def)
qed

end
