(* ===== verification/Recursion.thy ===== *)
theory Recursion
  imports Triples SymbolData
begin

text \<open>
  A judgement on programs, that they never raise an exception, with one rule per combinator; and the
  functions of the standard library, none of which raises \<open>RecursionError\<close>: in the model only a call of
  \<open>run\<close> at the bottom of the stack does.
\<close>

section \<open>Exceptions that are not raised\<close>

definition never_raises :: "exn \<Rightarrow> ('s, 'e, 'a) prog \<Rightarrow> bool" where
  "never_raises x m \<longleftrightarrow> (\<forall>s. outcome_of (m s) \<noteq> Raised x)"

named_theorems never_intros \<open>exceptions not raised by composed programs\<close>

lemma never_raisesD: "never_raises x m \<Longrightarrow> outcome_of (m s) \<noteq> Raised x"
  by (simp add: never_raises_def)

lemma never_silent [never_intros]:
  "never_raises x p_skip" "never_raises x (p_ret a)" "never_raises x (p_upd f)" "never_raises x (p_emit e)"
  by (simp_all add: never_raises_def prog_defs)

lemma never_raise [never_intros]: "y \<noteq> x \<Longrightarrow> never_raises x (p_raise y)"
  by (simp add: never_raises_def prog_defs)

lemma never_bind [never_intros]:
  "never_raises x m \<Longrightarrow> (\<And>a. never_raises x (k a)) \<Longrightarrow> never_raises x (p_bind m k)"
  by (fastforce simp: never_raises_def p_bind_def split_beta split: outcome.split)

lemma never_block [never_intros]:
  "never_raises x (p_block [])"
  "never_raises x c \<Longrightarrow> never_raises x (p_block cs) \<Longrightarrow> never_raises x (p_block (c # cs))"
  by (auto simp: p_block.simps intro!: never_intros)

lemma never_If [never_intros]:
  "(b \<Longrightarrow> never_raises x c) \<Longrightarrow> (\<not> b \<Longrightarrow> never_raises x d) \<Longrightarrow> never_raises x (if b then c else d)"
  by simp

lemma never_for [never_intros]: "(\<And>y. never_raises x (body y)) \<Longrightarrow> never_raises x (p_for ys body)"
  by (induction ys) (auto intro!: never_intros)

lemma never_read [never_intros]: "(\<And>s. never_raises x (k (f s))) \<Longrightarrow> never_raises x (p_read f k)"
  by (simp add: never_raises_def prog_defs)

lemma never_val [never_intros]: "v \<noteq> Inl x \<Longrightarrow> (\<And>a. never_raises x (k a)) \<Longrightarrow> never_raises x (p_val v k)"
  by (cases v) (auto simp: p_val_def intro!: never_intros)

lemma never_if [never_intros]: "never_raises x c \<Longrightarrow> never_raises x d \<Longrightarrow> never_raises x (p_if b c d)"
  by (simp add: never_raises_def p_if_def)

lemma never_when [never_intros]: "never_raises x c \<Longrightarrow> never_raises x (p_when b c)"
  by (simp add: p_when_def never_intros)

lemma never_try [never_intros]: "never_raises x m \<Longrightarrow> never_raises x h \<Longrightarrow> never_raises x (p_try Q m h)"
  by (fastforce simp: never_raises_def p_try_def split_beta split: outcome.split)

lemma never_run [never_intros]:
  assumes "x \<noteq> KeyError" and "x \<noteq> TypeError" and "\<And>h. never_raises x (exec h arg)"
  shows "never_raises x (run getm exec arg)"
  using assms
  by (auto simp: run_def Let_def never_raises_def dict_get_def prog_defs split: sum.split option.split)

section \<open>The library raises other exceptions\<close>

lemma bind_sum_error: "bind_sum v f = Inl x \<longleftrightarrow> v = Inl x \<or> (\<exists>a. v = Inr a \<and> f a = Inl x)"
  by (cases v) simp_all

lemma dict_get_error [simp]: "dict_get d k \<noteq> Inl RecursionError"
  by (simp add: dict_get_def split: option.split)

lemma getitem_error [simp]: "getitem j k \<noteq> Inl RecursionError"
  by (cases j) simp_all

lemma py_nth_error [simp]: "py_nth xs i \<noteq> Inl RecursionError"
  by (simp add: py_nth_def)

lemma fdiv_no_recursion [simp]: "fdiv x y \<noteq> Inl RecursionError"
  by (simp add: fdiv_error)

lemma float_of_error [simp]: "float_of j \<noteq> Inl RecursionError"
  by (cases j) (auto simp: float_of_int_def split: pyfloat.split option.split)

lemma int_of_error [simp]: "int_of j \<noteq> Inl RecursionError"
  by (cases j) (auto simp: int_of_float_def split: pyfloat.split option.split)

lemma round_at_step_error [simp]: "round_at_step x y \<noteq> Inl RecursionError"
  by (simp add: round_at_step_def Let_def bind_sum_error)

lemma trigger_error [simp]: "is_trigger_in_price x s \<noteq> Inl RecursionError"
  by (auto simp: is_trigger_in_price_def bind_sum_error split: if_splits)

lemma report_item_error [simp]: "report_item k s \<noteq> Inl RecursionError"
  by (simp add: report_item_def split: option.split)

end
