(* ===== verification/SymbolBehaviour.thy ===== *)
theory SymbolBehaviour
  imports SymbolProps Recursion
begin

text \<open>
  What the events of one currency do, branch by branch: the settlement of a filled
  order, deletion, timeout, the requests of the user, and the functions they use.
\<close>

section \<open>Library\<close>

lemma round_at_step_finite:
  assumes "0 \<le> m"
  shows "round_at_step val (Fin z m) = Inr (fround_dec val 6)"
proof -
  obtain whole frac where "py_split (CHR ''.'') (fmt_f (Fin z m)) = [whole, frac]" "length frac = 6"
    using fmt_f_decimals [OF assms] .
  then show ?thesis
    by (simp add: round_at_step_def Let_def py_nth_def)
qed

lemma round_at_step_infinite:
  "round_at_step val (Inf z) = Inl IndexError" "round_at_step val NaN = Inl IndexError"
  by (simp_all add: round_at_step_def Let_def py_nth_def)

text \<open>The two orders with the same quantity.\<close>

definition with_quantity :: "pyfloat \<Rightarrow> symbol_data \<Rightarrow> symbol_data" where
  "with_quantity q s = s\<lparr>sd_orders := map (\<lambda>ord. ord\<lparr>o_quantity := q\<rparr>) (sd_orders s)\<rparr>"

lemma with_quantity_upd:
  "length (sd_orders s) = 2 \<Longrightarrow>
   upd_order 1 (\<lambda>ord. ord\<lparr>o_quantity := q\<rparr>) (upd_order 0 (\<lambda>ord. ord\<lparr>o_quantity := q\<rparr>) s) = with_quantity q s"
  by (cases "sd_orders s"; cases "tl (sd_orders s)") (auto simp: with_quantity_def upd_order_def)

lemma settle_nothing:
  assumes "sd_report s = Some j" and "getitem j ''N'' = Inr (JStr ''BNB'')" and "getitem j ''n'' = Inr v"
  shows "state_of (settle_commission s) = s" and "outcome_of (settle_commission s) = Done ()"
  using assms by (simp_all add: settle_commission_def apply_commission_def report_item_def run_prog)

lemma settle_quantity:
  assumes "sd_report s = Some j" and "getitem j ''N'' = Inr a" and "getitem j ''n'' = Inr v"
    and "length (sd_orders s) = 2" and "sd_stepSize s = Fin z m" and "0 \<le> m"
    and com: "(if a = JStr ''USDT'' then bind_sum (float_at j ''n'') (\<lambda>n. bind_sum (float_at j ''p'') (fdiv n))
          else if a \<noteq> JStr ''BNB'' then float_at j ''n'' else Inl KeyError) = Inr c"
  shows "state_of (settle_commission s) = with_quantity (fround_dec (fsub (o_quantity (current_order s)) c) 6) s"
    and "outcome_of (settle_commission s) = Done ()"
proof -
  note q = correct_quantity_run [OF assms(4) refl, of c, unfolded assms(5) round_at_step_finite [OF assms(6)] sum.case
      with_quantity_upd [OF assms(4)]]
  have emits: "state_of (log_correction t) = t" "outcome_of (log_correction t) = Done ()"
    "state_of (send_orders_change k t) = t" "outcome_of (send_orders_change k t) = Done ()" for t k
    by (simp_all add: sd_stmts run_prog)
  show "state_of (settle_commission s) = with_quantity (fround_dec (fsub (o_quantity (current_order s)) c) 6) s"
    and "outcome_of (settle_commission s) = Done ()"
    using com q emits assms(1-3)
    by (auto simp: settle_commission_def apply_commission_def report_item_def float_at_def p_read_def p_val_def p_raise_def
        p_emit_def p_bind_def split_beta bind_sum_def split: sum.splits outcome.splits if_splits)
qed

lemma settle_missing:
  "sd_report s = Some j \<Longrightarrow> getitem j ''N'' = Inl x \<Longrightarrow>
   state_of (settle_commission s) = s \<and> outcome_of (settle_commission s) = Raised x"
  by (simp add: settle_commission_def report_item_def run_prog)

text \<open>A report that names the current order, and the turn it causes.\<close>

definition reports :: "json \<Rightarrow> string \<Rightarrow> symbol_data \<Rightarrow> bool" where
  "reports j x s \<longleftrightarrow>
     getitem j ''c'' = Inr (JStr (o_newClientOrderId (current_order s))) \<and> getitem j ''X'' = Inr (JStr x)"

lemma report_fill:
  assumes "sd_inv coin s" and "phase_of s = Open k" and "reports j ''FILLED'' s"
  defines "v \<equiv> settle_commission (filled (report_in j s))"
  shows "state_of (sd_on_order_report j s) = (case outcome_of v of Done _ \<Rightarrow> rearmed (state_of v) | Raised x \<Rightarrow> state_of v)"
    and "outcome_of (sd_on_order_report j s) = outcome_of v"
    and "sd_report (filled (report_in j s)) = Some j" and "length (sd_orders (filled (report_in j s))) = 2"
proof -
  note inv = inv_report_in(1) [OF assms(1), of j]
  have st: "fsm_state (sd_fsm s) = ST_WAIT_ORDER_FILL"
    using sd_invD(3) [OF assms(1)] assms(2) by (auto elim: phase_cases)
  then have st': "fsm_state (sd_fsm (report_in j s)) = ST_WAIT_ORDER_FILL"
    by (simp add: report_in_def)
  have run: "sd_fsm_run (report_in j s) = fsm_wait_order_fill (report_in j s)"
    using sd_fsm_run_in [OF inv, of H_wait_order_fill] st' by simp
  have hit: "report_is ''FILLED'' (report_in j s) = Inr True"
    using assms(3) by (simp add: report_is_in reports_def)
  note fill = fsm_wait_order_fill_hit [OF hit sd_invD(6) [OF inv]]
  show "state_of (sd_on_order_report j s) = (case outcome_of v of Done _ \<Rightarrow> rearmed (state_of v) | Raised x \<Rightarrow> state_of v)"
    and "outcome_of (sd_on_order_report j s) = outcome_of v"
    using st fill by (simp_all add: sd_on_order_report_run Let_def split_beta run v_def split: outcome.split)
  show "sd_report (filled (report_in j s)) = Some j" "length (sd_orders (filled (report_in j s))) = 2"
    using sd_invD(6) [OF inv] by (simp_all add: report_in_def)
qed

lemma rearmed_simps [simp]:
  "sd_orders (rearmed s) = sd_orders s" "sd_step (rearmed s) = sd_step s" "sd_wait_price (rearmed s)"
  "sd_running (rearmed s) = sd_running s" "sd_wait_order_fill (rearmed s) = sd_wait_order_fill s"
  by (simp_all add: rearmed_def)

lemma report_in_simps [simp]:
  "sd_orders (report_in j s) = sd_orders s" "sd_step (report_in j s) = sd_step s" "sd_stepSize (report_in j s) = sd_stepSize s"
  "sd_running (report_in j s) = sd_running s"
  by (simp_all add: report_in_def)

lemma with_quantity_simps [simp]:
  "sd_orders (with_quantity q s) = map (\<lambda>ord. ord\<lparr>o_quantity := q\<rparr>) (sd_orders s)"
  "sd_counter (with_quantity q s) = sd_counter s" "sd_step (with_quantity q s) = sd_step s"
  "sd_running (with_quantity q s) = sd_running s" "sd_wait_order_fill (with_quantity q s) = sd_wait_order_fill s"
  by (simp_all add: with_quantity_def)

lemma open_step: "sd_inv coin s \<Longrightarrow> phase_of s = Open k \<Longrightarrow> k = sd_step s \<and> sd_running s"
  by (rule phase_cases [OF sd_invD(3)]) auto

lemma stepped_new: "sd_step s < 2 \<Longrightarrow> sd_step (filled (report_in j s)) = 1 - sd_step s"
  using stepped_step [of "report_in j s"] by simp

lemma new_counter: "sd_step s < 2 \<Longrightarrow> sd_counter (filled (report_in j s)) = sd_counter s + int (sd_step s)"
  using counter_filled [of "report_in j s"] by simp

lemma phase_rearmed: "machine_ok s \<Longrightarrow> phase_of (rearmed s) = Armed (sd_step s)"
  by (simp add: phase_of_def rearmed_def)

lemma machine_filled: "machine_ok s \<Longrightarrow> machine_ok (filled (report_in j s))"
  by (simp add: machine_ok_def report_in_def)

lemma machine_with_quantity: "machine_ok (with_quantity q s) = machine_ok s"
  by (simp add: machine_ok_def with_quantity_def)

subsection \<open>The example, continued\<close>

definition D5 :: "sd_event list" where
  "D5 = D4 @ [Report (JObj [(''c'', JStr (order_id 0 ''BTC'' 0)), (''X'', JStr ''NEW'')])]"

lemma demo_D4_current: "o_newClientOrderId (current_order (demo D4)) = order_id 0 ''BTC'' 0"
proof -
  have inv: "sd_inv ''BTC'' (price_in (Fin False 101) (demo D3))"
    by (rule inv_price_in(1) [OF demo_inv]) simp
  show ?thesis
    using fire_orders(1,2) [OF inv] demo_D3_simps
    by (simp add: demo_D4 current_order_def placed_order_def)
      (simp add: price_in_def demo_D3 demo_D2 started_def retargeted_def)
qed

lemma report_confirm:
  assumes "sd_inv coin s" and "phase_of s = Submitted k" and "reports j ''NEW'' s"
  shows "state_of (sd_on_order_report j s) = confirmed (report_in j s)"
proof -
  note inv = inv_report_in(1) [OF assms(1), of j]
  have st: "fsm_state (sd_fsm s) = ST_WAIT_ORDER_CMPL"
    using sd_invD(3) [OF assms(1)] assms(2) by (auto elim: phase_cases)
  then have "fsm_state (sd_fsm (report_in j s)) = ST_WAIT_ORDER_CMPL"
    by (simp add: report_in_def)
  then have "sd_fsm_run (report_in j s) = fsm_wait_order_compl (report_in j s)"
    using sd_fsm_run_in [OF inv, of H_wait_order_compl] by simp
  then show ?thesis
    using st assms(3) by (simp add: sd_on_order_report_run Let_def split_beta fsm_wait_order_compl_run report_is_in reports_def)
qed

lemma demo_D5:
  "demo D5 = confirmed (report_in (JObj [(''c'', JStr (order_id 0 ''BTC'' 0)), (''X'', JStr ''NEW'')]) (demo D4))"
  unfolding D5_def demo_snoc
  using report_confirm [OF demo_inv demo_D4_phase(1)] demo_D4_current by (simp add: reports_def dict_get_def)

lemma confirmed_simps [simp]:
  "sd_orders (confirmed s) = sd_orders s" "sd_step (confirmed s) = sd_step s" "sd_stepSize (confirmed s) = sd_stepSize s"
  "current_order (confirmed s) = current_order s" "sd_change_mode (confirmed s) = sd_change_mode s"
  by (simp_all add: confirmed_def current_order_def)

lemma current_report_in [simp]: "current_order (report_in j s) = current_order s"
  by (simp add: report_in_def current_order_def)

lemma demo_D5_current: "o_newClientOrderId (current_order (demo D5)) = order_id 0 ''BTC'' 0"
  using demo_D4_current by (simp add: demo_D5)

lemma demo_D5_phase: "phase_of (demo D5) = Open 0"
proof -
  have "fsm_state (sd_fsm (demo D4)) = ST_WAIT_ORDER_CMPL" "sd_step (demo D4) = 0"
    using sd_invD(3) [OF demo_inv [of D4]] demo_D4_phase(1) by (auto elim: phase_cases)
  then show ?thesis
    using inv_confirmed(2) [OF inv_report_in(1) [OF demo_inv [of D4]]] by (simp add: demo_D5) (simp add: report_in_def)
qed

lemma unsettled_prices:
  "sd_inv coin t \<Longrightarrow> phase_of t = Unsettled k \<Longrightarrow>
   orders_of (snd (run_events sd_handle (map Price ps) t)) = [] \<and>
   phase_of (fst (run_events sd_handle (map Price ps) t)) = Unsettled k"
proof (induction ps arbitrary: t)
  case Nil
  then show ?case by simp
next
  case (Cons p ps)
  obtain u es r where u: "sd_on_price p t = (u, es, r)"
    by (cases "sd_on_price p t") auto
  obtain a where a: "cycle (abs_sd t) Tick a (abs_sd u)" "carries a u es" and inv: "sd_inv coin u"
    using refines_step [OF Cons.prems(1), of "Price p"] u by auto
  have "phase_of u = Unsettled k" "orders_of es = []"
    using a Cons.prems(2) unfolding abs_sd_def by (cases rule: cycle.cases; auto)+
  with Cons.IH [OF inv] show ?case
    by (simp add: u split_beta)
qed

section \<open>Settlement\<close>

definition fill_report :: "string \<Rightarrow> pyfloat \<Rightarrow> pyfloat \<Rightarrow> json" where
  "fill_report asset n p = JObj
     [(''c'', JStr (order_id 0 ''BTC'' 0)), (''X'', JStr ''FILLED''), (''N'', JStr asset), (''n'', JFloat n), (''p'', JFloat p)]"

lemma demo_reports: "reports (fill_report a n p) ''FILLED'' (demo D5)"
  by (simp add: reports_def fill_report_def dict_get_def demo_D5_current)

text \<open>C9. A fill paid for in BNB: the cycle goes on with the opposite order, the number of the cycle grows
  after the sale only, and prices and quantities stay.\<close>

theorem sd_fill_bnb:
  assumes "sd_inv coin s" and "phase_of s = Open k" and "reports j ''FILLED'' s"
    and "getitem j ''N'' = Inr (JStr ''BNB'')" and "getitem j ''n'' = Inr v"
  shows "let t = state_of (sd_on_order_report j s) in
    outcome_of (sd_on_order_report j s) = Done () \<and> phase_of t = Armed (1 - k) \<and>
    sd_counter t = sd_counter s + int k \<and> sd_orders t = sd_orders s \<and> \<not> wait_order_act t"
proof -
  note rep = report_fill [OF assms(1-3)]
  note settle = settle_nothing [OF rep(3) assms(4,5)]
  have step: "sd_step s < 2" "k = sd_step s"
    using sd_invD(5) [OF assms(1)] open_step [OF assms(1,2)] by simp_all
  have "state_of (sd_on_order_report j s) = rearmed (filled (report_in j s))"
    using rep(1) settle by simp
  then show ?thesis
    using rep(2) settle(2) step new_counter [OF step(1), of j] stepped_new [OF step(1), of j]
      phase_rearmed [OF machine_filled [OF sd_invD(1) [OF assms(1)]], of j]
    by (simp add: Let_def wait_order_act_def waited_order_def deref_order_def Order_def)
qed

theorem sd_fill_bnb_witness:
  "phase_of (state_of (sd_on_order_report (fill_report ''BNB'' (Fin False 1) (Fin False 99)) (demo D5))) = Armed 1"
  using sd_fill_bnb [OF demo_inv demo_D5_phase demo_reports [of "''BNB''" "Fin False 1" "Fin False 99"]]
  by (simp add: fill_report_def dict_get_def Let_def)

text \<open>C10. A fill whose commission is charged in the traded currency or in USDT: both orders get the quantity of
  the order of the step entered, less the commission (in USDT: divided by the price of the report), rounded
  to six digits whatever the step size of the pair; nothing else of the orders changes, and the cycle
  goes on.\<close>

theorem sd_fill_commission:
  assumes "sd_inv coin s" and "phase_of s = Open k" and "reports j ''FILLED'' s"
    and "getitem j ''N'' = Inr a" and "a \<noteq> JStr ''BNB''" and "getitem j ''n'' = Inr v"
    and "(if a = JStr ''USDT'' then bind_sum (float_at j ''n'') (\<lambda>n. bind_sum (float_at j ''p'') (fdiv n))
          else float_at j ''n'') = Inr c"
    and "sd_stepSize s = Fin z m" and "0 \<le> m"
  shows "let t = state_of (sd_on_order_report j s);
             q = fround_dec (fsub (o_quantity (sd_orders s ! (1 - k))) c) 6 in
    outcome_of (sd_on_order_report j s) = Done () \<and> phase_of t = Armed (1 - k) \<and>
    sd_orders t = map (\<lambda>ord. ord\<lparr>o_quantity := q\<rparr>) (sd_orders s)"
proof -
  note rep = report_fill [OF assms(1-3)]
  have step: "sd_step s < 2" "k = sd_step s"
    using sd_invD(5) [OF assms(1)] open_step [OF assms(1,2)] by simp_all
  have size: "sd_stepSize (filled (report_in j s)) = Fin z m"
    using assms(8) by simp
  note settle = settle_quantity [OF rep(3) assms(4,6) rep(4) size assms(9), of c]
  have cur: "current_order (filled (report_in j s)) = sd_orders s ! (1 - k)"
    using stepped_new [OF step(1), of j] step(2) unfolding current_order_def by simp
  have com: "(if a = JStr ''USDT'' then bind_sum (float_at j ''n'') (\<lambda>n. bind_sum (float_at j ''p'') (fdiv n))
          else if a \<noteq> JStr ''BNB'' then float_at j ''n'' else Inl KeyError) = Inr c"
    using assms(5,7) by (cases "a = JStr ''USDT''") simp_all
  define q where "q = fround_dec (fsub (o_quantity (sd_orders s ! (1 - k))) c) 6"
  have ok: "outcome_of (settle_commission (filled (report_in j s))) = Done ()"
    by (rule settle(2) [OF com])
  have state: "state_of (settle_commission (filled (report_in j s))) = with_quantity q (filled (report_in j s))"
    using settle(1) [OF com] unfolding cur q_def .
  have "state_of (sd_on_order_report j s) = rearmed (with_quantity q (filled (report_in j s)))"
    using rep(1) by (simp add: ok state)
  then show ?thesis
    using rep(2) ok stepped_new [OF step(1), of j] step(2)
      phase_rearmed [of "with_quantity q (filled (report_in j s))"]
      machine_filled [OF sd_invD(1) [OF assms(1)], of j]
    by (simp add: Let_def machine_with_quantity q_def)
qed

lemma demo_stepSize: "sd_stepSize (demo D5) = flit (1 / 1000000)"
  by (simp add: demo_D5 demo_D4 fire_def place_order_def)
    (simp add: price_in_def demo_D3 demo_D2 started_def retargeted_def take_temp_data_def upd_order_def demo_D1
      with_temp_def SymbolData_def)

lemma demo_step_finite:
  obtains z m where "sd_stepSize (demo D5) = Fin z m" and "0 \<le> m"
proof -
  have "is_fin (flit (1 / 1000000))"
    by code_simp
  moreover have "wf_float (flit (1 / 1000000))"
    by (simp add: flit_def)
  ultimately show thesis
    using that by (cases "flit (1 / 1000000)") (auto simp: demo_stepSize)
qed

lemma demo_correction: "fround_dec (fsub (Fin False 2) (Fin False (1/2))) 6 = Fin False (3/2)"
  by code_simp

lemma demo_quantities:
  "length (sd_orders (demo D5)) = 2" "o_quantity (sd_orders (demo D5) ! 0) = Fin False 2"
  "o_quantity (sd_orders (demo D5) ! 1) = Fin False 2"
proof -
  have len: "length (sd_orders (demo D1)) = 2"
    by (rule sd_invD(6) [OF demo_inv])
  then show "length (sd_orders (demo D5)) = 2" "o_quantity (sd_orders (demo D5) ! 0) = Fin False 2"
  "o_quantity (sd_orders (demo D5) ! 1) = Fin False 2"
    using take_temp_data_orders [OF len, of 0] take_temp_data_orders [OF len, of 1] demo_D3_simps(3)
    by (simp_all add: demo_D5 demo_D4 fire_def place_order_def placed_order_def current_order_def nth_list_update)
      (simp_all add: price_in_def demo_D3 demo_D2 started_def retargeted_def)
qed

theorem sd_fill_commission_witness:
  "map o_quantity (sd_orders (state_of (sd_on_order_report (fill_report ''BTC'' (Fin False (1/2)) (Fin False 99)) (demo D5))))
   = [Fin False (3/2), Fin False (3/2)]"
proof -
  obtain z m where m: "sd_stepSize (demo D5) = Fin z m" "0 \<le> m"
    by (rule demo_step_finite)
  obtain ord0 ord1 where "sd_orders (demo D5) = [ord0, ord1]"
    using demo_quantities(1) by (auto simp: numeral_2_eq_2 length_Suc_conv)
  then show ?thesis
    using sd_fill_commission [OF demo_inv demo_D5_phase demo_reports [of "''BTC''" "Fin False (1/2)" "Fin False 99"], of "JStr ''BTC''"
      "JFloat (Fin False (1/2))" "Fin False (1/2)" z m] demo_quantities m demo_correction
    by (simp add: fill_report_def dict_get_def float_at_def Let_def)
qed

text \<open>C11. A fill whose report cannot be settled: the exception leaves the machine waiting for a fill, of the
  next step, with no order out; no price ever places an order from there.\<close>

theorem sd_fill_unsettled:
  assumes "sd_inv coin s" and "phase_of s = Open k" and "reports j ''FILLED'' s" and "getitem j ''N'' = Inl x"
  shows "let t = state_of (sd_on_order_report j s) in
    outcome_of (sd_on_order_report j s) = Raised x \<and> phase_of t = Unsettled (1 - k) \<and> \<not> wait_order_act t \<and>
    orders_of (snd (run_events sd_handle (map Price ps) t)) = [] \<and>
    phase_of (fst (run_events sd_handle (map Price ps) t)) = Unsettled (1 - k)"
proof -
  note rep = report_fill [OF assms(1-3)]
  note settle = settle_missing [OF rep(3) assms(4)]
  define t where "t = state_of (sd_on_order_report j s)"
  have t: "t = filled (report_in j s)" "outcome_of (sd_on_order_report j s) = Raised x"
    using rep(1,2) settle by (simp_all add: t_def)
  have inv: "sd_inv coin t"
    using sd_events.inv_event [OF assms(1), of "Report j"] by (simp add: t_def)
  have "fsm_state (sd_fsm s) = ST_WAIT_ORDER_FILL"
    using sd_invD(3) [OF assms(1)] assms(2) by (auto elim: phase_cases)
  then have ph: "phase_of t = Unsettled (1 - k)"
    using stepped_new [OF sd_invD(5) [OF assms(1)], of j] open_step [OF assms(1,2)]
    by (simp add: t(1) phase_of_def) (simp add: report_in_def)
  have "orders_of (snd (run_events sd_handle (map Price ps) t)) = [] \<and>
    phase_of (fst (run_events sd_handle (map Price ps) t)) = Unsettled (1 - k)"
    using unsettled_prices [OF inv ph] .
  moreover have "\<not> wait_order_act t"
    using act_order_out [OF inv] ph by simp
  ultimately show ?thesis
    using t(2) ph by (simp add: t_def [symmetric] Let_def)
qed

theorem sd_fill_unsettled_witness:
  "phase_of (state_of (sd_on_order_report
     (JObj [(''c'', JStr (order_id 0 ''BTC'' 0)), (''X'', JStr ''FILLED'')]) (demo D5))) = Unsettled 1"
  using sd_fill_unsettled [OF demo_inv demo_D5_phase,
      of "JObj [(''c'', JStr (order_id 0 ''BTC'' 0)), (''X'', JStr ''FILLED'')]" KeyError "[]"] demo_D5_current
  by (simp add: reports_def dict_get_def Let_def)

section \<open>Deletion and timeout\<close>

lemma report_deleted:
  assumes "sd_inv coin s" and "phase_of s = Cancelling i k" and "getitem j ''X'' = Inr (JStr ''CANCELED'')"
  shows "state_of (sd_on_order_report j s) =
      (if sd_change_mode s
       then (cancelled (report_in j s))\<lparr>sd_wait_price := True, sd_fsm := set_state ST_WAIT_PRICE (sd_fsm s), sd_change_mode := False\<rparr>
       else stopped (cancelled (report_in j s)))"
    and "outcome_of (sd_on_order_report j s) = Done ()"
proof -
  note inv = inv_report_in(1) [OF assms(1), of j]
  have st: "fsm_state (sd_fsm s) = ST_WAIT_ORDER_DEL"
    using sd_invD(3) [OF assms(1)] assms(2) by (auto elim: phase_cases)
  have r: "sd_fsm (report_in j s) = sd_fsm s" "sd_change_mode (report_in j s) = sd_change_mode s"
    by (simp_all add: report_in_def)
  have run: "sd_fsm_run (report_in j s) = fsm_wait_order_del (sd_run (Suc 398)) (report_in j s)"
    using sd_fsm_run_in [OF inv, of H_wait_order_del] st by (simp add: r)
  have x: "report_item ''X'' (report_in j s) = Inr (JStr ''CANCELED'')"
    using assms(3) by (simp add: report_item_in)
  show "state_of (sd_on_order_report j s) =
      (if sd_change_mode s
       then (cancelled (report_in j s))\<lparr>sd_wait_price := True, sd_fsm := set_state ST_WAIT_PRICE (sd_fsm s), sd_change_mode := False\<rparr>
       else stopped (cancelled (report_in j s)))"
    and "outcome_of (sd_on_order_report j s) = Done ()"
    using st run fsm_wait_order_del_change [OF x, of "sd_run (Suc 398)"]
      fsm_wait_order_del_stop [OF x _ sd_invD(1) [OF inv], of 398]
    by (cases "sd_change_mode s"; simp add: sd_on_order_report_run Let_def split_beta r del: sd_run.simps)+
qed

lemma not_acting: "sd_inv coin s \<Longrightarrow> order_out (phase_of s) = None \<Longrightarrow> \<not> wait_order_act s"
  by (simp add: act_order_out)

lemma stopped_simps [simp]: "\<not> sd_running (stopped s)" "\<not> sd_wait_price (stopped s)" "sd_step (stopped s) = 0"
  by (simp_all add: stopped_def fsm_resume_run)

text \<open>C12. A confirmed deletion: whatever order the report names, the machine forgets the order it waited for;
  if the data were changed it waits for the trigger of the step chosen with them and clears
  \<open>change_mode\<close>, else trading stops.\<close>

theorem sd_deletion_confirmed:
  assumes "sd_inv coin s" and "phase_of s = Cancelling i k" and "getitem j ''X'' = Inr (JStr ''CANCELED'')"
  shows "let t = state_of (sd_on_order_report j s) in
    outcome_of (sd_on_order_report j s) = Done () \<and> \<not> wait_order_act t \<and> \<not> sd_change_mode t \<and>
    sd_running t = sd_change_mode s \<and> phase_of t = (if sd_change_mode s then Armed k else Idle)"
proof -
  note inv = inv_report_in(1) [OF assms(1), of j]
  have st: "fsm_state (sd_fsm (report_in j s)) = ST_WAIT_ORDER_DEL" "sd_fsm (report_in j s) = sd_fsm s"
    "sd_step (report_in j s) = k" "sd_change_mode (report_in j s) = sd_change_mode s" "sd_running s"
    using sd_invD(3) [OF assms(1)] assms(2) by (auto simp: report_in_def elim: phase_cases)
  note res = inv_cancelled_resume [OF inv st(1), unfolded st(2-4)] and stp = inv_cancelled_stop [OF inv, unfolded st(4)]
  show ?thesis
    using report_deleted [OF assms] res stp st(5) not_acting [OF res(1)] not_acting [OF stp(1)]
    by (simp add: Let_def)
qed

definition D6 :: "sd_event list" where
  "D6 = D5 @ [TradeRun (demo_run ''start'')]"

definition canceled_report :: json where
  "canceled_report = JObj [(''c'', JStr (order_id 0 ''BTC'' 0)), (''X'', JStr ''CANCELED'')]"

lemma demo_request: "run_request (demo_run a) = Inr (a = ''start'', JStr ''BUY'')"
  by (simp add: run_request_def demo_run_def dict_get_def)

lemma order_out_request:
  assumes "sd_inv coin s" and "order_out (phase_of s) = Some i" and "run_request j = Inr (go, side)"
  shows "phase_of (state_of (sd_on_trade_run j s)) = Cancelling i (if go then chosen side else aim (phase_of s))"
    and "sd_change_mode (state_of (sd_on_trade_run j s)) = (go \<or> sd_change_mode s)"
proof -
  obtain a where "cycle (abs_sd s) (if go then Go (chosen side) else Halt) a (abs_sd (state_of (sd_on_trade_run j s)))"
    using refines_step [OF assms(1), of "TradeRun j"] assms(3) by auto
  then show "phase_of (state_of (sd_on_trade_run j s)) = Cancelling i (if go then chosen side else aim (phase_of s))"
    and "sd_change_mode (state_of (sd_on_trade_run j s)) = (go \<or> sd_change_mode s)"
    using assms(2) unfolding abs_sd_def by (cases rule: cycle.cases; auto split: if_splits)+
qed

lemma demo_D6: "phase_of (demo D6) = Cancelling 0 0" "sd_change_mode (demo D6)"
  using order_out_request [OF demo_inv, of D5 0 "demo_run ''start''" True "JStr ''BUY''"] demo_D5_phase demo_request [of "''start''"]
  unfolding D6_def demo_snoc by simp_all

theorem sd_deletion_confirmed_witness:
  "phase_of (state_of (sd_on_order_report canceled_report (demo D6))) = Armed 0"
  using sd_deletion_confirmed [OF demo_inv demo_D6(1), of canceled_report] demo_D6(2)
  by (simp add: canceled_report_def dict_get_def Let_def)

text \<open>C13. A request while an order is out: exactly the order waited for, by its name and pair, is asked to be
  deleted, nothing is placed, and the machine waits for the deletion; only a change of data sets
  \<open>change_mode\<close>, and a request to stop leaves it as it was.\<close>

theorem sd_request_deletes:
  assumes "sd_inv coin s" and "wait_order_act s" and "run_request j = Inr (go, side)"
  shows "let t = state_of (sd_on_trade_run j s); es = effects_of (sd_on_trade_run j s) in
    orders_of es = [] \<and> (\<exists>ord. deleted_of es = [ord] \<and> o_symbol ord = coin @ ''USDT'' \<and>
      o_newClientOrderId ord = o_newClientOrderId (waited_order s)) \<and>
    (\<exists>i. phase_of t = Cancelling i (if go then chosen side else sd_step s)) \<and>
    sd_change_mode t = (go \<or> sd_change_mode s)"
proof -
  obtain i where i: "sd_wait_order_fill s = SlotOrder i"
    using assms(2) wait_order_act_iff [OF sd_invD(3) [OF assms(1)]] by (cases "sd_wait_order_fill s") auto
  have out: "order_out (phase_of s) = Some i" "aim (phase_of s) = sd_step s"
    using i by - (rule phase_cases [OF sd_invD(3) [OF assms(1)]]; auto)+
  note slot = inv_slot [OF assms(1) i] and len = sd_invD(6) [OF assms(1)]
  have same: "o_newClientOrderId (waited_order (retargeted side s)) = o_newClientOrderId (waited_order s)"
    using retargeted_ids [OF len slot(1), of side] i by (simp add: waited_order_def deref_order_def)
  have pair: "o_symbol (sd_orders u ! i) = coin @ ''USDT''" if "data_ok coin u" for u
    using that slot(1) by (simp add: data_ok_def order_ok_def)
  have pairs: "o_symbol (waited_order (retargeted side s)) = coin @ ''USDT''" "o_symbol (waited_order s) = coin @ ''USDT''"
    using pair [OF data_ok_retargeted [OF sd_invD(2) [OF assms(1)], of side]] pair [OF sd_invD(2) [OF assms(1)]] i
    by (simp_all add: waited_order_def deref_order_def)
  have "wait_order_act (retargeted side s)"
    using same assms(2) by (simp add: wait_order_act_def)
  note change = trade_run_change_order [OF this] and stop = trade_run_stop_order [OF assms(2)]
  show ?thesis
    using order_out_request [OF assms(1) out(1) assms(3)] out(2) change(2,3) stop(2,3) same pairs slot(3) assms(3)
    by (cases go) (simp_all add: sd_on_trade_run_run Let_def)
qed

theorem sd_request_deletes_witness:
  "\<exists>ord. deleted_of (effects_of (sd_on_trade_run (demo_run ''stop'') (demo D4))) = [ord] \<and>
     o_newClientOrderId ord = o_newClientOrderId (waited_order (demo D4))"
  using sd_request_deletes [OF demo_inv demo_D4_act demo_request [of "''stop''"]] by (auto simp: Let_def)

text \<open>C14. A request to stop does not undo a change of data: when the deletion of the order is confirmed, trading
  goes on although the last thing the user asked was to stop.\<close>

theorem sd_stop_after_change_resumes:
  assumes "sd_inv coin s" and "phase_of s = Cancelling i k" and "sd_change_mode s"
    and "run_request j = Inr (False, side)" and "getitem r ''X'' = Inr (JStr ''CANCELED'')"
  shows "let t = fst (run_events sd_handle [TradeRun j, Report r] s) in sd_running t \<and> phase_of t = Armed k"
proof -
  define u where "u = state_of (sd_on_trade_run j s)"
  have inv: "sd_inv coin u"
    using sd_events.inv_event [OF assms(1), of "TradeRun j"] by (simp add: u_def)
  have u: "phase_of u = Cancelling i k" "sd_change_mode u"
    using order_out_request [OF assms(1) _ assms(4)] assms(2,3) by (simp_all add: u_def)
  define t where "t = state_of (sd_on_order_report r u)"
  have "fst (run_events sd_handle [TradeRun j, Report r] s) = t"
    by (simp add: t_def u_def split_beta)
  moreover have "phase_of t = Armed k" "sd_inv coin t"
    using inv_report_in(1) [OF inv, of r] report_deleted(1) [OF inv u(1) assms(5)] u
      sd_events.inv_event [OF inv, of "Report r"] refines_step [OF inv, of "Report r"]
    by (auto simp: t_def abs_sd_def answer_def assms(5) elim!: cycle.cases)
  moreover from this have "sd_running t"
    by - (rule phase_cases [OF sd_invD(3)]; auto)
  ultimately show ?thesis
    by (simp add: Let_def)
qed

theorem sd_stop_after_change_resumes_witness:
  "sd_running (fst (run_events sd_handle [TradeRun (demo_run ''stop''), Report canceled_report] (demo D6)))"
  using sd_stop_after_change_resumes [OF demo_inv demo_D6 demo_request [of "''stop''", simplified], of canceled_report]
  by (simp add: canceled_report_def dict_get_def Let_def)

text \<open>C15. The timeout of an order: from any state the machine stops and forgets the order it waits for, without
  asking the exchange to delete it.\<close>

theorem sd_timeout_stops:
  assumes "sd_inv coin s"
  shows "let t = state_of (sd_on_order_complete_timeout s) in
    outcome_of (sd_on_order_complete_timeout s) = Done () \<and> phase_of t = Idle \<and> \<not> sd_running t \<and> \<not> sd_wait_price t \<and>
    \<not> wait_order_act t \<and> sd_change_mode t = sd_change_mode s \<and>
    deleted_of (effects_of (sd_on_order_complete_timeout s)) = []"
  using sd_on_order_complete_timeout_run [OF sd_invD(1) [OF assms]] inv_timed_out [OF assms]
    not_acting [OF inv_timed_out(1) [OF assms]]
  by (simp add: Let_def)

theorem sd_timeout_stops_witness:
  "wait_order_act (demo D4) \<and> \<not> wait_order_act (state_of (sd_on_order_complete_timeout (demo D4))) \<and>
   deleted_of (effects_of (sd_on_order_complete_timeout (demo D4))) = []"
  using sd_timeout_stops [OF demo_inv [of D4]] demo_D4_act by (simp add: Let_def)

section \<open>Data, start and the helper functions\<close>

text \<open>Data set while trading runs do not touch the running cycle: triggers, orders, step, cycle number, the
  order waited for, prices and flags are those of before, and nothing is placed or deleted.\<close>

theorem sd_trade_data_isolated:
  assumes "sd_inv coin s"
  shows "let t = state_of (sd_on_trade_data j s); es = effects_of (sd_on_trade_data j s) in
    sd_trigger t = sd_trigger s \<and> sd_orders t = sd_orders s \<and> sd_step t = sd_step s \<and> sd_counter t = sd_counter s \<and>
    sd_wait_order_fill t = sd_wait_order_fill s \<and> sd_price t = sd_price s \<and> sd_running t = sd_running s \<and>
    sd_wait_price t = sd_wait_price s \<and> sd_change_mode t = sd_change_mode s \<and> phase_of t = phase_of s \<and>
    orders_of es = [] \<and> deleted_of es = []"
proof -
  obtain v where v: "temp_changed s v" "state_of (sd_on_trade_data j s) = v \<or> state_of (sd_on_trade_data j s) = data_set v"
    using sd_on_trade_data_frame(1) [OF sd_invD(1) [OF assms], of j] by blast
  obtain tt tp q where e: "v = s\<lparr>sd_temp_trigger := tt, sd_temp_price := tp, sd_temp_quantity := q\<rparr>"
    using v(1) unfolding temp_changed_def by blast
  note ph = inv_temp_changed [OF assms v(1)] inv_data_set(2) [OF inv_temp_changed(1) [OF assms v(1)]]
  have ds: "sd_trigger (data_set v) = sd_trigger v" "sd_orders (data_set v) = sd_orders v" "sd_step (data_set v) = sd_step v"
    "sd_wait_order_fill (data_set v) = sd_wait_order_fill v" "sd_price (data_set v) = sd_price v"
    "sd_running (data_set v) = sd_running v" "sd_wait_price (data_set v) = sd_wait_price v"
    "sd_change_mode (data_set v) = sd_change_mode v"
    by (simp_all add: data_set_def data_noted_def data_ready_def fsm_ready_run)
  have same: "sd_trigger v = sd_trigger s" "sd_orders v = sd_orders s" "sd_step v = sd_step s" "sd_counter v = sd_counter s"
    "sd_wait_order_fill v = sd_wait_order_fill s" "sd_price v = sd_price s" "sd_running v = sd_running s"
    "sd_wait_price v = sd_wait_price s" "sd_change_mode v = sd_change_mode s"
    by (simp_all add: e)
  have "orders_of (effects_of (sd_on_trade_data j s)) = []" "deleted_of (effects_of (sd_on_trade_data j s)) = []"
    using no_trade_effects [OF sd_on_trade_data_frame(2) [OF sd_invD(1) [OF assms], of j]] by simp_all
  with ph(2,4) show ?thesis
    using v(2) by (elim disjE) (simp_all only: Let_def ds same counter_simps simp_thms)
qed

theorem sd_trade_data_isolated_witness:
  "sd_orders (state_of (sd_on_trade_data demo_set (demo D4))) = sd_orders (demo D4)"
  using sd_trade_data_isolated [OF demo_inv [of D4], of demo_set] by (simp add: Let_def)

text \<open>C17. A start: the triggers, prices and the quantity set before become those of the two orders, the first
  step is the side asked for, and the cycle runs; if the trigger is already between the last two
  prices the order of that step is sent to the exchange at once, and no other, right in pair, side,
  type, name, price and quantity; else nothing is sent.  Nothing is deleted.\<close>

theorem sd_start_installs:
  assumes "sd_inv coin s" and "\<not> sd_running s" and "run_request j = Inr (True, side)"
  shows "let t = state_of (sd_on_trade_run j s); es = effects_of (sd_on_trade_run j s);
      hit = (is_trigger_in_price (sd_temp_trigger s ! chosen side) s = Inr True) in
    sd_running t \<and> sd_step t = (if side = JStr ''BUY'' then 0 else 1) \<and> sd_counter t = sd_counter s \<and>
    (\<forall>i < 2. sd_trigger t ! i = sd_temp_trigger s ! i \<and> o_price (sd_orders t ! i) = sd_temp_price s ! i \<and>
       o_quantity (sd_orders t ! i) = sd_temp_quantity s) \<and>
    phase_of t = (if hit then Submitted (chosen side) else Armed (chosen side)) \<and>
    orders_of es = (if hit then [sd_orders t ! chosen side] else []) \<and> deleted_of es = [] \<and>
    (hit \<longrightarrow> placed_right coin t (sd_orders t ! chosen side))"
proof -
  define u where "u = started side s"
  have idle: "phase_of s = Idle"
    using phase_start [OF assms(1)] assms(2) by simp
  note inv = inv_started [OF assms(1) idle, of side, folded u_def]
  have st: "fsm_state (sd_fsm u) = ST_WAIT_PRICE" "sd_step u = chosen side" "sd_price u = sd_price s"
    using sd_invD(1) [OF assms(1)] by (simp_all add: u_def started_def)
  have trig: "sd_trigger u = [sd_temp_trigger s ! 0, sd_temp_trigger s ! 1]"
    using sd_invD(7) [OF assms(1)] by (simp add: u_def)
  then have nth: "sd_trigger u ! i = sd_temp_trigger s ! i" if "i < 2" for i
    using that by (auto simp: less_2_cases_iff)
  have ords: "o_price (sd_orders u ! i) = sd_temp_price s ! i" "o_quantity (sd_orders u ! i) = sd_temp_quantity s" if "i < 2" for i
    using take_temp_data_orders [OF sd_invD(6) [OF assms(1)] that] by (simp_all add: u_def started_def retargeted_def)
  have len: "length (sd_orders u) = 2"
    by (rule sd_invD(6) [OF inv(1)])
  have fire: "sd_running (fire u) = sd_running u" "sd_trigger (fire u) = sd_trigger u" "sd_step (fire u) = sd_step u"
    "o_price (sd_orders (fire u) ! i) = o_price (sd_orders u ! i)"
    "o_quantity (sd_orders (fire u) ! i) = o_quantity (sd_orders u ! i)" if "i < 2" for i
    using that len
    by (cases "i = sd_step u"; simp add: fire_def place_order_def placed_order_def current_order_def)+
  have slot: "sd_orders (fire u) ! chosen side = placed_order u"
    using len chosen_less [of side] st(2) by (simp add: fire_def place_order_def placed_order_def current_order_def)
  have hit: "is_trigger_in_price (sd_trigger u ! sd_step u) u = is_trigger_in_price (sd_temp_trigger s ! chosen side) s"
    using is_trigger_cong [OF st(3)] nth [OF chosen_less] st(2) by simp
  have run: "state_of (sd_on_trade_run j s) = state_of (sd_fsm_run u)"
    "orders_of (effects_of (sd_on_trade_run j s)) = orders_of (effects_of (sd_fsm_run u))"
    "deleted_of (effects_of (sd_on_trade_run j s)) = deleted_of (effects_of (sd_fsm_run u))"
    using assms(2,3) by (simp_all add: sd_on_trade_run_run trade_run_start_run u_def)
  show ?thesis
  proof (cases "is_trigger_in_price (sd_temp_trigger s ! chosen side) s = Inr True")
    case True
    note fires = run_armed_fires [OF inv(1) st(1), unfolded hit, OF True]
    have "placed_right coin (fire u) (placed_order u)"
      using order_placed_inv [OF assms(1), of "placed_order u" "TradeRun j"] run fires by simp
    with fire [of 0] fire(4,5) nth ords st(2) inv(2) inv_fire(2) [OF inv(1) st(1)] slot fires show ?thesis
      unfolding chosen_def [symmetric] by (simp add: run True Let_def) (simp add: u_def)
  next
    case False
    note quiet = run_armed_quiet [OF inv(1) st(1), unfolded hit, OF False]
    with nth ords st(2) inv(2) show ?thesis
      unfolding chosen_def [symmetric] by (simp add: run False Let_def) (simp add: u_def)
  qed
qed

text \<open>The prices of the example enclose the trigger before the start.\<close>

definition primed :: "sd_event list" where
  "primed = D1 @ [Price (dollars 98)] @ [Price (dollars 101)]"

lemma demo_primed: "demo primed = price_in (Fin False 101) (price_in (Fin False 98) (demo D1))"
proof -
  have "\<not> sd_running (demo D1)"
    by (simp add: demo_D1 with_temp_def SymbolData_def)
  then have "\<not> sd_wait_price (demo D1)"
    by - (rule phase_cases [OF sd_invD(3) [OF demo_inv [of D1]]]; simp)
  then show ?thesis
    unfolding primed_def append_assoc [symmetric] demo_snoc
    by (simp add: sd_on_price_run) (simp add: price_in_def)
qed

theorem sd_start_installs_witness:
  "\<exists>ord. orders_of (effects_of (sd_on_trade_run (demo_run ''start'') (demo primed))) = [ord] \<and>
     o_side ord = BUY \<and> o_price ord = Fin False 99 \<and> o_quantity ord = Fin False 2"
proof -
  let ?s = "demo primed"
  have s: "\<not> sd_running ?s" "sd_temp_trigger ?s = [Fin False 100, Fin False 110]"
    "sd_temp_price ?s = [Fin False 99, Fin False 111]" "sd_temp_quantity ?s = Fin False 2"
    "sd_price ?s = [Fin False 101, Fin False 98]"
    unfolding demo_primed price_in_def by simp_all (simp add: demo_D1 with_temp_def SymbolData_def)
  then have hit: "is_trigger_in_price (sd_temp_trigger ?s ! chosen (JStr ''BUY'')) ?s = Inr True"
    by (simp add: is_trigger_in_price_def py_nth_def less_eq_pyfloat_def signed_def)
  have req: "run_request (demo_run ''start'') = Inr (True, JStr ''BUY'')"
    using demo_request [of "''start''"] by simp
  define t where "t = state_of (sd_on_trade_run (demo_run ''start'') ?s)"
  note start = sd_start_installs [OF demo_inv s(1) req, unfolded Let_def hit, folded t_def]
  have t: "sd_step t = 0" "o_price (sd_orders t ! 0) = Fin False 99" "o_quantity (sd_orders t ! 0) = Fin False 2"
    "orders_of (effects_of (sd_on_trade_run (demo_run ''start'') ?s)) = [sd_orders t ! 0]"
    "placed_right ''BTC'' t (sd_orders t ! 0)"
    using start s(3,4) by simp_all
  then show ?thesis
    by (simp add: placed_right_def)
qed

lemma positive_divides: "f0 < x \<Longrightarrow> \<exists>q. fdiv y x = Inr q"
  by (cases x; cases y) (auto simp: f0_def less_pyfloat_def signed_def split: if_splits)

text \<open>The steps offered to the user: a purchase when the quantity set is at most the USDT amount over the
  purchase price, a sale when it is at most the amount owned; the computation never raises, and the
  amount in USDT counts the locked amount of the traded currency, whatever is locked in USDT.\<close>

theorem sd_trade_steps:
  "outcome_of (sd_get_trade_steps s) = Done
     ((if f0 < sd_temp_price s ! 0 \<and>
          (\<exists>q. fdiv (fadd (b_free (sd_balance_usdt s)) (b_locked (sd_balance s))) (sd_temp_price s ! 0) = Inr q \<and>
               sd_temp_quantity s \<le> q)
       then [''BUY''] else []) @
      (if sd_temp_quantity s \<le> fadd (b_free (sd_balance s)) (b_locked (sd_balance s)) then [''SELL''] else [])) \<and>
   state_of (sd_get_trade_steps s) = s \<and>
   outcome_of (sd_get_trade_steps (s\<lparr>sd_balance_usdt := (sd_balance_usdt s)\<lparr>b_locked := x\<rparr>\<rparr>)) =
     outcome_of (sd_get_trade_steps s)"
proof (cases "f0 < sd_temp_price s ! 0")
  case True
  then obtain q where "fdiv (fadd (b_free (sd_balance_usdt s)) (b_locked (sd_balance s))) (sd_temp_price s ! 0) = Inr q"
    using positive_divides by blast
  with True show ?thesis
    by (simp add: sd_get_trade_steps_def log_fsm_def Let_def run_prog)
next
  case False
  then show ?thesis
    by (simp add: sd_get_trade_steps_def log_fsm_def Let_def run_prog)
qed

text \<open>The names of orders: two orders of the bot have the same name only if they are of the same step, the
  same currency and the same cycle, for currencies other than USDT whose names have no underscore.\<close>

theorem order_id_injective:
  assumes "order_id i a m = order_id j b n" and "i < 2" and "j < 2" and "0 \<le> m" and "0 \<le> n"
    and "CHR ''_'' \<notin> set a" and "CHR ''_'' \<notin> set b" and "a \<noteq> ''USDT''" and "b \<noteq> ''USDT''"
  shows "i = j \<and> a = b \<and> m = n"
proof -
  have usdt: "CHR ''_'' \<notin> set ''USDT''"
    by simp
  have ij: "i = 0 \<or> i = 1" "j = 0 \<or> j = 1"
    using assms(2,3) by linarith+
  show ?thesis
    using ij
  proof (elim disjE)
    assume "i = 0" "j = 0"
    then have "a @ CHR ''_'' # py_str_int m = b @ CHR ''_'' # py_str_int n"
      using assms(1) by (simp add: order_id_def)
    from sep_unique [OF this assms(6,7)] \<open>i = 0\<close> \<open>j = 0\<close> show ?thesis
      using py_str_int_inj assms(4,5) by blast
  next
    assume "i = 1" "j = 1"
    then have "a @ CHR ''_'' # ''to_USDT_'' @ py_str_int m = b @ CHR ''_'' # ''to_USDT_'' @ py_str_int n"
      using assms(1) by (simp add: order_id_def)
    from sep_unique [OF this assms(6,7)] \<open>i = 1\<close> \<open>j = 1\<close> show ?thesis
      using py_str_int_inj assms(4,5) by auto
  next
    assume "i = 0" "j = 1"
    then have "''USDT'' @ CHR ''_'' # ''to_'' @ a @ CHR ''_'' # py_str_int m = b @ CHR ''_'' # ''to_USDT_'' @ py_str_int n"
      using assms(1) by (simp add: order_id_def)
    from sep_unique [OF this usdt assms(7)] assms(9) show ?thesis
      by simp
  next
    assume "i = 1" "j = 0"
    then have "a @ CHR ''_'' # ''to_USDT_'' @ py_str_int m = ''USDT'' @ CHR ''_'' # ''to_'' @ b @ CHR ''_'' # py_str_int n"
      using assms(1) by (simp add: order_id_def)
    from sep_unique [OF this assms(6) usdt] assms(8) show ?thesis
      by simp
  qed
qed

theorem order_id_injective_witness:
  "order_id 0 ''BTC'' 7 = order_id 0 ''BTC'' 7 \<and> (0::nat) = 0 \<and> ''BTC'' = ''BTC'' \<and> (7::int) = 7"
  using order_id_injective [of 0 "''BTC''" 7 0 "''BTC''" 7] by simp

text \<open>C18. Rounding to the step: for every finite step size the result is the value rounded to six digits; the
  step has no influence.\<close>

theorem round_at_step_ignores_step:
  assumes "0 \<le> m"
  shows "round_at_step val (Fin z m) = Inr (fround_dec val 6)"
  by (rule round_at_step_finite [OF assms])

theorem round_at_step_ignores_step_witness:
  "round_at_step (flit (19 / 10000000)) (Fin False (1 / 1000)) = Inr (flit (2 / 1000000)) \<and>
   flit (19 / 10000000) \<le> flit (2 / 1000000)"
proof -
  have "fround_dec (flit (19 / 10000000)) 6 = flit (2 / 1000000)" "flit (19 / 10000000) \<le> flit (2 / 1000000)"
    by code_simp+
  then show ?thesis
    using round_at_step_ignores_step [of "1 / 1000" "flit (19 / 10000000)" False] by simp
qed

section \<open>Errors\<close>

text \<open>Only a price touches the price window, and only a \<open>set\<close> request the data set by the web client.\<close>

definition window_data :: "symbol_data \<Rightarrow> pyfloat list \<times> pyfloat list \<times> pyfloat list \<times> pyfloat" where
  "window_data s = (sd_price s, sd_temp_trigger s, sd_temp_price s, sd_temp_quantity s)"

lemma window_data_eq:
  "window_data s = window_data t \<longleftrightarrow> sd_price s = sd_price t \<and> sd_temp_trigger s = sd_temp_trigger t \<and>
     sd_temp_price s = sd_temp_price t \<and> sd_temp_quantity s = sd_temp_quantity t"
  by (simp add: window_data_def)

abbreviation data_are :: "pyfloat list \<times> pyfloat list \<times> pyfloat list \<times> pyfloat \<Rightarrow> symbol_data \<Rightarrow> bool" where
  "data_are v s \<equiv> window_data s = v"

lemmas handler_defs = fsm_ready_def fsm_wait_price_def fsm_in_price_def fsm_wait_order_compl_def
  fsm_wait_order_fill_def fsm_wait_order_del_def fsm_resume_def next_step_def settle_commission_def
  apply_commission_def correct_quantity_def reset_def

lemma keeps_journal: "keeps I (h_to_journal j)"
  unfolding h_to_journal_def by (intro keeps_intros)

lemma keeps_data_exec:
  assumes "keeps (data_are v) go"
  shows "keeps (data_are v) (sd_exec go h ())"
  by (cases h; simp only: sd_exec.simps handler_defs sd_stmts Let_def; intro keeps_intros keeps_journal assms;
      simp add: window_data_def upd_order_def)

lemma keeps_data_run: "keeps (data_are v) (sd_run n)"
proof (induction n)
  case 0
  then show ?case
    by (simp add: keeps_def)
next
  case (Suc n)
  have "keeps (data_are v) (run sd_fsm (sd_exec (sd_run n)) ())"
    by (intro keeps_intros keeps_data_exec Suc.IH)
  then show ?case
    by (simp add: keeps_def)
qed

lemma keeps_data_fsm: "keeps (data_are v) sd_fsm_run"
  unfolding sd_fsm_run_def by (rule keeps_data_run)

text \<open>A \<open>set\<close> request, and a price that is no number.\<close>

fun sets_data :: "sd_event \<Rightarrow> bool" where
  "sets_data (TradeData (JObj d)) \<longleftrightarrow> dict_get d ''a'' = Inr (JStr ''set'')"
| "sets_data _ \<longleftrightarrow> False"

fun malformed_price :: "sd_event \<Rightarrow> bool" where
  "malformed_price (Price j) = (case float_of j of Inl x \<Rightarrow> True | Inr x \<Rightarrow> False)"
| "malformed_price _ = False"

lemma asking_keeps_data: "\<not> sets_data (TradeData j) \<Longrightarrow> window_data (state_of (sd_on_trade_data j s)) = window_data s"
proof (cases "\<exists>d. j = JObj d")
  case True
  then obtain d where d: "j = JObj d"
    by blast
  assume "\<not> sets_data (TradeData j)"
  then have "dict_get (dict_set ''e'' (JStr ''tradeData'') d) ''a'' \<noteq> Inr (JStr ''set'')"
    by (simp add: d dict_get_set)
  then have "state_of (trade_data_body (JObj (dict_set ''e'' (JStr ''tradeData'') d)) s) = s"
    by (cases "dict_get (dict_set ''e'' (JStr ''tradeData'') d) ''a''")
      (auto simp: trade_data_body_def send_trade_state_def run_prog)
  then show ?thesis
    by (simp add: d sd_on_trade_data_body Let_def split_beta split: outcome.split)
next
  case False
  then show ?thesis
    by (simp add: sd_on_trade_data_other)
qed

lemma run_keeps_data: "window_data (state_of (sd_on_trade_run j s)) = window_data s"
proof -
  have "keeps (data_are v) (sd_on_trade_run j)" for v
    unfolding sd_on_trade_run_def Let_def trade_run_start_def trade_run_idle_stop_def trade_run_change_def
      trade_run_stop_def sd_stmts
    by (intro keeps_intros keeps_data_fsm; simp add: window_data_def take_temp_data_def upd_order_def)
  from keepsD [OF this [of "window_data s"]] show ?thesis
    by simp
qed

lemma report_keeps_data: "window_data (state_of (sd_on_order_report j s)) = window_data s"
proof -
  have "window_data (report_in j s) = window_data s"
    by (simp add: window_data_def report_in_def)
  with keepsD [OF keeps_data_fsm this] show ?thesis
    by (simp add: sd_on_order_report_run Let_def split_beta)
qed

lemma event_keeps_data:
  assumes "sd_inv coin s" and "\<forall>j. ev \<noteq> Price j" and "\<not> sets_data ev"
  shows "window_data (state_of (sd_handle ev s)) = window_data s"
proof (cases ev)
  case (TradeData j)
  then show ?thesis
    using asking_keeps_data assms(3) by simp
next
  case Timeout
  then show ?thesis
    using sd_on_order_complete_timeout_run(1) [OF sd_invD(1) [OF assms(1)]]
    by (simp add: window_data_def stopped_def fsm_resume_run timed_out_def)
next
  case (ExchangeInfo j)
  then show ?thesis
    using sd_on_exchange_info_frame [of s j]
    by (cases s; cases "state_of (sd_on_exchange_info j s)"; simp add: filters_changed_def window_data_def)
qed (use assms(2) run_keeps_data report_keeps_data in simp_all)

lemma price_keeps_data:
  "sd_price (state_of (sd_on_price j s)) =
     (if sd_price s = [] then [] else case float_of j of Inl x \<Rightarrow> butlast (sd_price s) | Inr x \<Rightarrow> x # butlast (sd_price s))"
  "sd_temp_trigger (state_of (sd_on_price j s)) = sd_temp_trigger s"
  "sd_temp_price (state_of (sd_on_price j s)) = sd_temp_price s"
  "sd_temp_quantity (state_of (sd_on_price j s)) = sd_temp_quantity s"
  using keepsD [OF keeps_data_fsm refl]
  by (auto simp: sd_on_price_run window_data_eq split: sum.split) (simp_all add: price_in_def)

lemma set_keeps_window: "sd_inv coin s \<Longrightarrow> sd_price (state_of (sd_on_trade_data j s)) = sd_price s"
proof -
  assume "sd_inv coin s"
  from sd_on_trade_data_frame(1) [OF sd_invD(1) [OF this], of j]
  obtain v where v: "temp_changed s v" "state_of (sd_on_trade_data j s) = v \<or> state_of (sd_on_trade_data j s) = data_set v"
    by blast
  have "sd_price v = sd_price s"
    using v(1) by (cases s; cases v; simp add: temp_changed_def)
  then show ?thesis
    using v(2) by (auto simp: data_set_def data_noted_def)
qed

lemma event_window:
  assumes "sd_inv coin s"
  shows "length (sd_price (state_of (sd_handle ev s))) = length (sd_price s) - (if malformed_price ev then 1 else 0)"
proof (cases "(\<exists>j. ev = Price j) \<or> sets_data ev")
  case True
  then show ?thesis
    using set_keeps_window [OF assms] price_keeps_data(1)
    by (cases ev) (auto split: sum.split)
next
  case False
  then show ?thesis
    using event_keeps_data [OF assms, of ev] by (cases ev) (auto simp: window_data_eq)
qed

lemma run_window:
  assumes "sd_inv coin s"
  shows "length (sd_price (fst (run_events sd_handle evs s))) = length (sd_price s) - length (filter malformed_price evs)"
  using assms
proof (induction evs arbitrary: s)
  case (Cons ev evs)
  then show ?case
    using event_window [OF Cons.prems, of ev] sd_events.inv_event [OF Cons.prems, of ev]
    by (simp add: split_beta del: sd_handle.simps)
qed simp

lemma run_keeps_set:
  assumes "sd_inv coin s" and "\<forall>ev \<in> set evs. \<not> sets_data ev"
  shows "sd_temp_trigger (fst (run_events sd_handle evs s)) = sd_temp_trigger s \<and>
    sd_temp_price (fst (run_events sd_handle evs s)) = sd_temp_price s \<and>
    sd_temp_quantity (fst (run_events sd_handle evs s)) = sd_temp_quantity s"
  using assms
proof (induction evs arbitrary: s)
  case (Cons ev evs)
  have "sd_temp_trigger (state_of (sd_handle ev s)) = sd_temp_trigger s \<and>
    sd_temp_price (state_of (sd_handle ev s)) = sd_temp_price s \<and> sd_temp_quantity (state_of (sd_handle ev s)) = sd_temp_quantity s"
    using event_keeps_data [OF Cons.prems(1), of ev] Cons.prems(2) price_keeps_data
    by (cases "\<exists>j. ev = Price j") (auto simp: window_data_eq)
  with Cons.IH [of "state_of (sd_handle ev s)"] sd_events.inv_event [OF Cons.prems(1), of ev] Cons.prems(2) show ?case
    by (simp add: split_beta del: sd_handle.simps)
qed simp

lemma no_prices_run:
  "sd_inv coin s \<Longrightarrow> sd_price s = [] \<Longrightarrow>
   orders_of (snd (run_events sd_handle evs s)) = [] \<and> sd_price (fst (run_events sd_handle evs s)) = []"
proof (induction evs arbitrary: s)
  case (Cons ev evs)
  let ?t = "state_of (sd_handle ev s)"
  have p: "sd_price ?t = []"
    using event_window [OF Cons.prems(1), of ev] Cons.prems(2) by simp
  obtain a where "carries a ?t (effects_of (sd_handle ev s))"
    using refines_step [OF Cons.prems(1), of ev] by blast
  then have "orders_of (effects_of (sd_handle ev s)) = []"
    using p by (cases a) (auto simp: is_trigger_in_price_def py_nth_def)
  with Cons.IH [of ?t] p sd_events.inv_event [OF Cons.prems(1), of ev] show ?case
    by (simp add: split_beta del: sd_handle.simps)
qed simp

text \<open>C20. Prices that are no numbers: each takes one price out of the window of two before it raises and no event puts
  one back, so once two of them have arrived, whatever came before, between and after, the currency is
  dead: every later price raises and no sequence of events places an order again.\<close>

theorem sd_bad_prices_starve:
  assumes "sd_inv coin s" and "2 \<le> length (filter malformed_price evs)"
  shows "let t = fst (run_events sd_handle evs s) in
    orders_of (snd (run_events sd_handle evs' t)) = [] \<and>
    outcome_of (sd_on_price p (fst (run_events sd_handle evs' t))) = Raised IndexError"
proof -
  define t where "t = fst (run_events sd_handle evs s)"
  have "length (sd_price s) \<le> 2"
    using sd_invD(2) [OF assms(1)] by (simp add: data_ok_def)
  then have t: "sd_price t = []"
    using run_window [OF assms(1), of evs] assms(2) by (simp add: t_def)
  have inv: "sd_inv coin t"
    unfolding t_def by (rule sd_events.inv_run [OF assms(1)])
  from no_prices_run [OF inv t, of evs'] show ?thesis
    unfolding Let_def t_def [symmetric] by (simp add: sd_on_price_run)
qed

theorem sd_bad_prices_starve_witness:
  "orders_of (snd (run_events sd_handle [Price (dollars 101)]
     (fst (run_events sd_handle [Price JNull, Price (dollars 99), TradeRun (demo_run ''stop''), Price (JStr ''?'')] (demo D3))))) = []"
proof -
  have "float_of (JStr ''?'') = Inl ValueError"
    by code_simp
  then have "2 \<le> length (filter malformed_price [Price JNull, Price (dollars 99), TradeRun (demo_run ''stop''), Price (JStr ''?'')])"
    by (simp del: float_of.simps(4))
  from sd_bad_prices_starve [OF demo_inv [of D3] this, of "[Price (dollars 101)]"] show ?thesis
    unfolding Let_def by blast
qed

text \<open>C16. The data of the web client, there and back: a well-formed \<open>set\<close> request is stored whole, and whatever
  prices, requests, reports and timeouts follow, as long as no other \<open>set\<close> does, a request of another
  kind is answered with the same five numbers and the code of success, changing nothing.\<close>

theorem sd_trade_data_roundtrip:
  assumes "sd_inv coin s" and "dict_get d0 ''a'' = Inr (JStr ''set'')"
    and "float_at2 (JObj (dict_set ''e'' (JStr ''tradeData'') d0)) ''B'' ''t'' = Inr bt"
    and "float_at2 (JObj (dict_set ''e'' (JStr ''tradeData'') d0)) ''B'' ''p'' = Inr bp"
    and "float_at2 (JObj (dict_set ''e'' (JStr ''tradeData'') d0)) ''S'' ''t'' = Inr st"
    and "float_at2 (JObj (dict_set ''e'' (JStr ''tradeData'') d0)) ''S'' ''p'' = Inr sp"
    and "float_at (JObj (dict_set ''e'' (JStr ''tradeData'') d0)) ''q'' = Inr q"
    and "\<forall>ev \<in> set evs. \<not> sets_data ev"
    and "dict_get d1 ''a'' = Inr v" and "v \<noteq> JStr ''set''"
  shows "let t = fst (run_events sd_handle (TradeData (JObj d0) # evs) s); u = sd_on_trade_data (JObj d1) t in
    state_of u = t \<and> outcome_of u = Done () \<and>
    (\<exists>reply. effects_of u = [ToWeb (JObj (sd_trade_state t)), ToWeb (JObj reply)] \<and>
      dict_get reply ''q'' = Inr (JStrOf q) \<and> dict_get reply ''c'' = Inr (JStr ''000'') \<and>
      dict_get reply ''B'' = Inr (JObj [(''t'', JStrOf bt), (''p'', JStrOf bp)]) \<and>
      dict_get reply ''S'' = Inr (JObj [(''t'', JStrOf st), (''p'', JStrOf sp)]))"
proof -
  define r where "r = state_of (sd_on_trade_data (JObj d0) s)"
  define t where "t = fst (run_events sd_handle evs r)"
  have r: "r = data_set (with_temp bt bp st sp q s)"
    using set_request_run(1) [OF assms(1-7)] by (simp add: r_def)
  have "sd_inv coin r"
    using sd_events.inv_event [OF assms(1), of "TradeData (JObj d0)"] by (simp add: r_def)
  from run_keeps_set [OF this assms(8)] have temp: "sd_temp_trigger t = [bt, st]" "sd_temp_price t = [bp, sp]" "sd_temp_quantity t = q"
    by (simp_all add: t_def) (simp_all add: r data_set_def data_noted_def data_ready_def fsm_ready_run with_temp_def)
  have "dict_get (dict_set ''e'' (JStr ''tradeData'') d1) ''a'' = Inr v"
    using assms(9) by (simp add: dict_get_set)
  then have "trade_data_body (JObj (dict_set ''e'' (JStr ''tradeData'') d1)) t = (t, [ToWeb (JObj (sd_trade_state t))], Done ())"
    using assms(10) by (simp add: trade_data_body_def send_trade_state_def run_prog)
  then have "sd_on_trade_data (JObj d1) t =
      (t, [ToWeb (JObj (sd_trade_state t)),
           ToWeb (JObj (trade_data_reply t (dict_set ''e'' (JStr ''tradeData'') d1)))], Done ())"
    by (simp add: sd_on_trade_data_body)
  moreover have "fst (run_events sd_handle (TradeData (JObj d0) # evs) s) = t"
    by (simp add: t_def r_def split_beta)
  ultimately show ?thesis
    unfolding Let_def by (simp add: trade_data_reply_def dict_get_set temp del: run_events.simps)
qed

theorem sd_trade_data_roundtrip_witness:
  "\<exists>reply. effects_of (sd_on_trade_data (JObj [(''a'', JStr ''get'')]) (demo D4)) =
      [ToWeb (JObj (sd_trade_state (demo D4))), ToWeb (JObj reply)] \<and>
    dict_get reply ''q'' = Inr (JStrOf (Fin False 2))"
proof -
  let ?evs = "[TradeRun (demo_run ''start''), Price (dollars 98), Price (dollars 101)]"
  have "demo D4 = fst (run_events sd_handle (TradeData demo_set # ?evs) (demo []))"
    by (simp add: D4_def D3_def D2_def D1_def demo_def split_beta)
  then show ?thesis
    using sd_trade_data_roundtrip [OF demo_inv [of "[]"],
        of "[(''a'', JStr ''set''), (''s'', JStr ''BTC''), (''q'', dollars 2),
             (''B'', JObj [(''t'', dollars 100), (''p'', dollars 99)]),
             (''S'', JObj [(''t'', dollars 110), (''p'', dollars 111)])]"
         "Fin False 100" "Fin False 99" "Fin False 110" "Fin False 111" "Fin False 2" ?evs
         "[(''a'', JStr ''get'')]" "JStr ''get''"]
    by (auto simp: demo_set_def dict_get_def float_at_def float_at2_def Let_def simp del: run_events.simps)
qed

section \<open>Depth of the recursion\<close>

text \<open>What a handler asks of the rest of the machine: the two handlers that run it again have just set its
  state.\<close>

definition continues :: "sd_act \<Rightarrow> bool" where
  "continues go \<longleftrightarrow>
     (\<forall>t. machine_ok t \<longrightarrow>
        (fsm_state (sd_fsm t) = ST_IN_PRICE \<longrightarrow> go t = fsm_in_price t) \<and>
        (fsm_state (sd_fsm t) = ST_RESUME \<longrightarrow> go t = fsm_resume t))"

definition one_run :: sd_act where
  "one_run = run sd_fsm (sd_exec p_skip) ()"

lemma continues_run: "continues (sd_run (Suc n))" "continues one_run"
  using sd_host.run_handler [where go = p_skip]
  by (auto simp: continues_def sd_run_handler one_run_def machine_ok_def simp del: sd_run.simps)

lemma exec_go:
  assumes "machine_ok s" and "continues go" and "continues go'"
  shows "sd_exec go h () s = sd_exec go' h () s"
proof -
  define t where "t = s\<lparr>sd_wait_price := False, sd_fsm := set_state ST_IN_PRICE (sd_fsm s)\<rparr>"
  have "machine_ok t" "fsm_state (sd_fsm t) = ST_IN_PRICE"
    using assms(1) by (simp_all add: t_def machine_ok_def)
  then have "go t = go' t"
    using assms(2,3) by (simp add: continues_def)
  then have price: "fsm_wait_price go s = fsm_wait_price go' s"
    by (simp add: fsm_wait_price_def run_prog sd_stmts t_def [symmetric] split: sum.split)
  have "machine_ok (s\<lparr>sd_wait_order_fill := w, sd_trade_state := d, sd_fsm := set_state ST_RESUME (sd_fsm s)\<rparr>)" for w d
    using assms(1) by (simp add: machine_ok_def)
  then have "go (s\<lparr>sd_wait_order_fill := w, sd_trade_state := d, sd_fsm := set_state ST_RESUME (sd_fsm s)\<rparr>) =
      go' (s\<lparr>sd_wait_order_fill := w, sd_trade_state := d, sd_fsm := set_state ST_RESUME (sd_fsm s)\<rparr>)" for w d
    using assms by (simp add: continues_def machine_ok_def)
  then have deletion: "fsm_wait_order_del go s = fsm_wait_order_del go' s"
    by (simp add: fsm_wait_order_del_def run_prog sd_stmts split: sum.split)
  show ?thesis
    using price deletion by (cases h) simp_all
qed

lemma run_cong:
  "(\<And>h. exec h arg s = exec' h arg s) \<Longrightarrow> run getm exec arg s = run getm exec' arg s"
  by (auto simp: run_def Let_def p_val_def split: sum.split option.split)

lemma report_is_error [simp]: "report_is x s \<noteq> Inl RecursionError"
  by (auto simp: report_is_def bind_sum_error split: if_splits)

lemma never_journal: "never_raises x (h_to_journal j)"
  unfolding h_to_journal_def by (intro never_intros)

lemma sd_exec_no_recursion:
  assumes "never_raises RecursionError go"
  shows "never_raises RecursionError (sd_exec go h ())"
  by (cases h; simp only: sd_exec.simps handler_defs sd_stmts Let_def; intro never_intros never_journal assms;
      simp add: bind_sum_error)

text \<open>C21. The machine never exhausts the stack: a handler runs the machine at most once more, so two nested
  calls of \<open>run\<close> behave as any greater number would, and no run of the machine ends with
  \<open>RecursionError\<close>.\<close>

theorem sd_run_depth:
  assumes "machine_ok s"
  shows "sd_run (n + 2) s = sd_run 2 s \<and> outcome_of (sd_run (n + 2) s) \<noteq> Raised RecursionError"
proof -
  define m :: sd_act where "m = run sd_fsm (sd_exec one_run) ()"
  have run: "sd_run (k + 2) s = m s" for k
    using run_cong [of "sd_exec (sd_run (Suc k))" "()" s "sd_exec one_run"] exec_go [OF assms continues_run]
    by (simp add: m_def del: sd_run.simps(1))
  have "never_raises RecursionError m"
    unfolding m_def one_run_def by (intro never_intros sd_exec_no_recursion) simp_all
  then show ?thesis
    using run [of n] run [of 0, unfolded add_0] never_raisesD [of RecursionError m s] by (simp only: not_False_eq_True simp_thms)
qed

theorem sd_run_depth_witness:
  "sd_run (398 + 2) (demo D3) = sd_run 2 (demo D3) \<and> outcome_of (sd_run (398 + 2) (demo D3)) \<noteq> Raised RecursionError"
  by (rule sd_run_depth [OF sd_invD(1) [OF demo_inv]])

end
