(* ===== verification/FloatBounds.thy ===== *)
theory FloatBounds
  imports PyJson
begin

text \<open>
  How far the rounded operations of \<open>float\<close> are from the exact ones: the binary
  logarithm that \<open>fround\<close> takes its last bit from, the error of \<open>fround\<close> below a
  bound, and the error of \<open>round(x, 6)\<close>.
\<close>

section \<open>The binary logarithm\<close>

lemma ilog2_int_bounds: "1 \<le> n \<Longrightarrow> 0 \<le> ilog2_int n \<and> 2 powi ilog2_int n \<le> (of_int n :: rat) \<and> (of_int n :: rat) < 2 powi (ilog2_int n + 1)"
proof (induction n rule: ilog2_int.induct)
  case (1 n)
  show ?case
  proof (cases "n < 2")
    case True
    with "1.prems" show ?thesis
      by (simp add: ilog2_int.simps [of n])
  next
    case False
    with "1.IH" have IH: "0 \<le> ilog2_int (n div 2)" "2 powi ilog2_int (n div 2) \<le> (of_int (n div 2) :: rat)"
      "(of_int (n div 2) :: rat) < 2 powi (ilog2_int (n div 2) + 1)"
      by auto
    have step: "2 powi (1 + k) = 2 * (2 powi k :: rat)" for k :: int
      by (simp add: power_int_add)
    have "of_int (2 * (n div 2)) \<le> (of_int n :: rat)" "(of_int n :: rat) < of_int (2 * (n div 2) + 2)"
      unfolding of_int_le_iff of_int_less_iff by linarith+
    then have n: "2 * of_int (n div 2) \<le> (of_int n :: rat)" "(of_int n :: rat) < 2 * of_int (n div 2) + 2"
      unfolding of_int_add of_int_mult of_int_numeral .
    have "of_int (n div 2) + 1 \<le> (2 powi (ilog2_int (n div 2) + 1) :: rat)"
    proof -
      have "2 powi (ilog2_int (n div 2) + 1) = (of_int (2 ^ nat (ilog2_int (n div 2) + 1)) :: rat)"
        using IH(1) by (simp add: power_int_def)
      moreover from this IH(3) have "n div 2 < 2 ^ nat (ilog2_int (n div 2) + 1)"
        by (simp only: of_int_less_iff)
      then have "(of_int (n div 2 + 1) :: rat) \<le> of_int (2 ^ nat (ilog2_int (n div 2) + 1))"
        by (simp only: of_int_le_iff)
      ultimately show ?thesis
        by simp
    qed
    with IH(2) n have "2 powi (1 + ilog2_int (n div 2)) \<le> (of_int n :: rat)"
      "(of_int n :: rat) < 2 powi (1 + (ilog2_int (n div 2) + 1))"
      unfolding step by linarith+
    with False IH(1) show ?thesis
      by (simp add: ilog2_int.simps [of n] add.assoc)
  qed
qed

lemma pow2_powi: "pow2 e = 2 powi e"
  by (simp add: pow2_def power_int_def inverse_eq_divide power_one_over)

lemma ilog2_le: "0 < m \<Longrightarrow> pow2 (ilog2 m) \<le> m"
proof -
  assume m: "0 < m"
  obtain p q where pq: "quotient_of m = (p, q)"
    by fastforce
  then have q: "0 < q" "m = of_int p / of_int q"
    by (simp_all add: quotient_of_denom_pos quotient_of_div)
  with m have "0 < p"
    by (simp add: zero_less_divide_iff)
  define a where "a = ilog2_int p"
  define b where "b = ilog2_int q"
  have "2 powi a \<le> (of_int p :: rat)" "(of_int q :: rat) < 2 powi (b + 1)"
    using ilog2_int_bounds [of p] ilog2_int_bounds [of q] \<open>0 < p\<close> q(1) by (simp_all add: a_def b_def)
  then have "2 powi a * of_int q \<le> of_int p * (2 powi (b + 1) :: rat)"
    using q(1) \<open>0 < p\<close> by (intro mult_mono) simp_all
  then have "2 powi (a - b - 1) \<le> m"
    using q by (simp add: q(2) power_int_diff power_int_add field_simps)
  then show ?thesis
    by (simp add: ilog2_def pq Let_def pow2_powi a_def b_def)
qed

lemma ulp_exp_le:
  assumes "0 < m" and "m < 2 powi k" and "- 1021 \<le> k"
  shows "ulp_exp m \<le> k - 53"
proof -
  have "(2 :: rat) powi ilog2 m < 2 powi k"
    using ilog2_le [OF assms(1)] assms(2) by (simp add: pow2_powi)
  then have "ilog2 m < k"
    by (meson not_le one_le_numeral power_int_increasing)
  with assms(3) show ?thesis
    by (simp add: ulp_exp_def)
qed

section \<open>The error of rounding\<close>

lemma fround_error:
  assumes "0 \<le> m" and "m < 2 powi k" and "- 1021 \<le> k" and "k \<le> 1000"
  obtains d where "fround s m = Fin s d" and "0 \<le> d" and "\<bar>d - m\<bar> \<le> 2 powi (k - 54)"
proof (cases "m = 0")
  case True
  then show ?thesis
    using that [of 0] by (simp add: fround_def)
next
  case False
  define e where "e = ulp_exp m"
  define d where "d = of_int (round_half_even (m / pow2 e)) * pow2 e"
  have e: "e \<le> k - 53"
    using ulp_exp_le [of m k] assms False by (simp add: e_def)
  have "fround s m = Fin s d"
    using e assms(4) False by (simp add: fround_def Let_def e_def [symmetric] d_def)
  moreover have "0 \<le> d"
    using round_half_even_nonneg [of "m / pow2 e"] pow2_pos [of e] assms(1) by (simp add: d_def)
  moreover have "\<bar>d - m\<bar> \<le> 2 powi (k - 54)"
  proof -
    have "\<bar>of_int (round_half_even (m / pow2 e)) - m / pow2 e\<bar> \<le> 1 / 2"
      using round_half_even_bounds [of "m / pow2 e"] by (intro abs_leI) linarith+
    then have "\<bar>of_int (round_half_even (m / pow2 e)) - m / pow2 e\<bar> * pow2 e \<le> 1 / 2 * pow2 e"
      by (rule mult_right_mono) (simp add: less_imp_le pow2_pos)
    also have "\<bar>of_int (round_half_even (m / pow2 e)) - m / pow2 e\<bar> * pow2 e = \<bar>d - m\<bar>"
      using pow2_pos [of e] by (simp add: d_def abs_mult_pos' [symmetric] field_simps abs_mult_pos)
    also have "1 / 2 * pow2 e \<le> 1 / 2 * 2 powi (k - 53)"
      using e by (simp add: pow2_powi power_int_increasing)
    also have "\<dots> = 2 powi (k - 54)"
      using power_int_add [of "2 :: rat" "k - 54" 1] by simp
    finally show ?thesis .
  qed
  ultimately show ?thesis
    by (rule that)
qed

text \<open>Rounding to six digits moves a number below \<open>2 ^ 30\<close> by at most \<open>10 ^ -6\<close>.\<close>

lemma fround_dec_error:
  assumes "0 \<le> m" and "m < 2 ^ 30"
  obtains d where "fround_dec (Fin s m) 6 = Fin s d" and "0 \<le> d" and "\<bar>d - m\<bar> \<le> 1 / 10 ^ 6"
proof -
  define x where "x = (of_int (round_half_even (m * 10 ^ 6)) :: rat) / 10 ^ 6"
  have x: "\<bar>x - m\<bar> \<le> 1 / (2 * 10 ^ 6)"
    using round_half_even_bounds [of "m * 10 ^ 6"] by (intro abs_leI) (simp_all add: x_def field_simps)
  have "0 \<le> x"
    using round_half_even_nonneg [of "m * 10 ^ 6"] assms(1) by (simp add: x_def)
  have "x < 2 powi 31"
    using abs_le_D1 [OF x] assms(2) by simp
  with \<open>0 \<le> x\<close> obtain d where d: "fround s x = Fin s d" "0 \<le> d" "\<bar>d - x\<bar> \<le> 2 powi (31 - 54)"
    using fround_error [of x 31 s] by auto
  have "(2 powi (31 - 54) :: rat) \<le> 1 / (2 * 10 ^ 6)"
    by (simp add: power_int_def power_one_over)
  with d(3) x have "\<bar>d - m\<bar> \<le> 1 / 10 ^ 6"
    using abs_triangle_ineq [of "d - x" "x - m"] by (simp del: power_int_of_nat)
  with d(1,2) show ?thesis
    using that [of d] by (simp add: x_def)
qed

end
