(* ===== verification/SymbolCycle.thy ===== *)
theory SymbolCycle
  imports SymbolBehaviour FloatBounds
begin

text \<open>
  Whole rounds of the trading cycle of one currency, put together from its events,
  and how far \<open>round_at_step\<close> takes a quantity from its value.
\<close>

section \<open>A round\<close>

text \<open>What a report or a price asks of the exchange.\<close>

lemma report_asks_nothing:
  assumes "sd_inv coin s" and "\<forall>k. phase_of s \<noteq> Armed k"
  shows "orders_of (effects_of (sd_on_order_report j s)) = [] \<and> deleted_of (effects_of (sd_on_order_report j s)) = []"
proof -
  obtain a where a: "cycle (abs_sd s) (stimulus_of (Report j) s) a (abs_sd (state_of (sd_handle (Report j) s)))"
    "carries a (state_of (sd_handle (Report j) s)) (effects_of (sd_handle (Report j) s))"
    using refines_step [OF assms(1), of "Report j"] by blast
  from a(1) assms(2) have "a = Tau"
    unfolding abs_sd_def by (cases rule: cycle.cases) (auto simp: answer_def)
  with a(2) show ?thesis
    by simp
qed

lemma price_deletes_nothing: "sd_inv coin s \<Longrightarrow> deleted_of (effects_of (sd_on_price j s)) = []"
proof -
  assume "sd_inv coin s"
  then obtain a where a: "cycle (abs_sd s) Tick a (abs_sd (state_of (sd_on_price j s)))"
    "carries a (state_of (sd_on_price j s)) (effects_of (sd_on_price j s))"
    using refines_step [of coin s "Price j"] by auto
  from a(1) have "a = Tau \<or> (\<exists>k. a = Place k)"
    unfolding abs_sd_def by (cases rule: cycle.cases) auto
  with a(2) show ?thesis
    by auto
qed

text \<open>The state after an order was placed at the price \<open>x\<close>, confirmed and filled.\<close>

definition traded :: "pyfloat \<Rightarrow> json \<Rightarrow> json \<Rightarrow> symbol_data \<Rightarrow> symbol_data" where
  "traded x new fill s = rearmed (filled (report_in fill (confirmed (report_in new (fire (price_in x s))))))"

lemma filled_data [simp]:
  "sd_trigger (filled s) = sd_trigger s" "sd_price (filled s) = sd_price s" "sd_symbol (filled s) = sd_symbol s"
  by (simp_all add: filled_def stepped_def)

lemma traded_data:
  "sd_trigger (traded x n f s) = sd_trigger s" "sd_price (traded x n f s) = x # butlast (sd_price s)"
  "sd_symbol (traded x n f s) = sd_symbol s" "sd_orders (traded x n f s) = (sd_orders s)[sd_step s := placed_order s]"
  by (simp_all add: traded_def rearmed_def confirmed_def report_in_def fire_def place_order_def price_in_def
      placed_order_def current_order_def)

text \<open>The messages of one half of a round: a price on the trigger of the step, and the two reports of its order.\<close>

definition half_round :: "string \<Rightarrow> nat \<Rightarrow> symbol_data \<Rightarrow> json \<Rightarrow> pyfloat \<Rightarrow> json \<Rightarrow> json \<Rightarrow> bool" where
  "half_round coin k s price x new fill \<longleftrightarrow>
     sd_price s \<noteq> [] \<and> float_of price = Inr x \<and> is_trigger_in_price (sd_trigger s ! k) (price_in x s) = Inr True \<and>
     getitem new ''c'' = Inr (JStr (order_id k coin (sd_counter s))) \<and> getitem new ''X'' = Inr (JStr ''NEW'') \<and>
     getitem fill ''c'' = Inr (JStr (order_id k coin (sd_counter s))) \<and> getitem fill ''X'' = Inr (JStr ''FILLED'')"

text \<open>A fill whose commission is charged in BNB: the quantities traded stay (any other currency changes them,
  \<open>sd_fill_commission\<close>).\<close>

definition paid_in_bnb :: "json \<Rightarrow> bool" where
  "paid_in_bnb fill \<longleftrightarrow> getitem fill ''N'' = Inr (JStr ''BNB'') \<and> (\<exists>v. getitem fill ''n'' = Inr v)"

lemma half_round_run:
  assumes "sd_inv coin s" and "phase_of s = Armed k" and "half_round coin k s price x new fill" and "paid_in_bnb fill"
  defines "evs \<equiv> [Price price, Report new, Report fill]"
  shows "fst (run_events sd_handle evs s) = traded x new fill s"
    and "sd_inv coin (traded x new fill s)" and "phase_of (traded x new fill s) = Armed (1 - k)"
    and "sd_counter (traded x new fill s) = sd_counter s + int k"
    and "orders_of (snd (run_events sd_handle evs s)) = [placed_order s]"
    and "deleted_of (snd (run_events sd_handle evs s)) = []"
proof -
  have st: "sd_step s = k" "fsm_state (sd_fsm s) = ST_WAIT_PRICE" "sd_wait_price s" "k < 2"
    using sd_invD(3,5) [OF assms(1)] assms(2) by (auto elim: phase_cases)
  have h: "sd_price s \<noteq> []" "float_of price = Inr x" "is_trigger_in_price (sd_trigger s ! k) (price_in x s) = Inr True"
    using assms(3) by (auto simp: half_round_def)
  define s1 where "s1 = fire (price_in x s)"
  have p: "state_of (sd_on_price price s) = s1" "orders_of (effects_of (sd_on_price price s)) = [placed_order s]"
    using price_turn [OF assms(1) h(1,2)] st h(3) by (simp_all add: s1_def)
  note inv_p = inv_price_in(1) [OF assms(1) h(1), of x]
  have st_p: "fsm_state (sd_fsm (price_in x s)) = ST_WAIT_PRICE" "sd_step (price_in x s) = k"
    using st by (simp_all add: price_in_def)
  note s1 = inv_fire [OF inv_p st_p(1), folded s1_def, unfolded st_p(2)]
  have name: "o_newClientOrderId (current_order s1) = order_id k coin (sd_counter s)"
    using fire_orders(1,2) [OF inv_p, folded s1_def, unfolded st_p(2)] assms(1) st(1)
    by (simp add: current_order_def placed_order_def price_in_def sd_inv_def data_ok_def)
  have new: "reports new ''NEW'' s1"
    using assms(3) name by (simp add: half_round_def reports_def)
  define s2 where "s2 = confirmed (report_in new s1)"
  have c: "state_of (sd_on_order_report new s1) = s2"
    using report_confirm [OF s1(1,2) new] by (simp add: s2_def)
  have inv2: "sd_inv coin s2"
    using sd_events.inv_event [OF s1(1), of "Report new"] c by simp
  have "fsm_state (sd_fsm s1) = ST_WAIT_ORDER_CMPL" "sd_step s1 = k"
    using sd_invD(3) [OF s1(1)] s1(2) by (auto elim: phase_cases)
  then have ph2: "phase_of s2 = Open k"
    using inv_confirmed(2) [OF inv_report_in(1) [OF s1(1)], of new] by (simp add: s2_def) (simp add: report_in_def)
  have fill: "reports fill ''FILLED'' s2"
    using assms(3) name by (simp add: half_round_def reports_def s2_def)
  obtain v where v: "getitem fill ''N'' = Inr (JStr ''BNB'')" "getitem fill ''n'' = Inr v"
    using assms(4) by (auto simp: paid_in_bnb_def)
  note rep = report_fill [OF inv2 ph2 fill]
  note settle = settle_nothing [OF rep(3) v]
  have t: "state_of (sd_on_order_report fill s2) = traded x new fill s"
    using rep(1) settle by (simp add: traded_def s2_def s1_def)
  show inv3: "sd_inv coin (traded x new fill s)"
    using sd_events.inv_event [OF inv2, of "Report fill"] t by simp
  have step2: "sd_step s2 = k" "sd_step s2 < 2" "sd_counter s2 = sd_counter s"
    using open_step [OF inv2 ph2] st(4) by (simp_all add: s2_def s1_def)
  have tr: "traded x new fill s = rearmed (filled (report_in fill s2))"
    by (simp add: traded_def s2_def s1_def)
  show "phase_of (traded x new fill s) = Armed (1 - k)"
    unfolding tr using phase_rearmed [OF machine_filled [OF sd_invD(1) [OF inv2]]] stepped_new [OF step2(2)] step2(1) by simp
  show "sd_counter (traded x new fill s) = sd_counter s + int k"
    unfolding tr using new_counter [OF step2(2)] step2(1,3) by simp
  show "fst (run_events sd_handle evs s) = traded x new fill s"
    by (simp add: evs_def p(1) c t split_beta)
  show "orders_of (snd (run_events sd_handle evs s)) = [placed_order s]"
    and "deleted_of (snd (run_events sd_handle evs s)) = []"
    using report_asks_nothing [OF s1(1)] report_asks_nothing [OF inv2] price_deletes_nothing [OF assms(1)] s1(2) ph2
    by (simp_all add: evs_def p c split_beta)
qed

text \<open>What a placed order says.\<close>

definition terms :: "order \<Rightarrow> side \<times> string \<times> pyfloat \<times> pyfloat" where
  "terms ord = (o_side ord, o_newClientOrderId ord, o_price ord, o_quantity ord)"

lemma placed_terms:
  assumes "sd_inv coin s" and "phase_of s = Armed k"
  shows "terms (placed_order s) =
    (side_of k, order_id k coin (sd_counter s), o_price (sd_orders s ! k), o_quantity (sd_orders s ! k))" and "k < 2"
proof -
  have "sd_step s = k" "k < 2"
    using sd_invD(3,5) [OF assms(1)] assms(2) by (auto elim: phase_cases)
  then show "terms (placed_order s) =
    (side_of k, order_id k coin (sd_counter s), o_price (sd_orders s ! k), o_quantity (sd_orders s ! k))" and "k < 2"
    using assms(1) by (auto simp: terms_def placed_order_def current_order_def sd_inv_def data_ok_def order_ok_def)
qed

lemma map_update_same: "f y = f (xs ! k) \<Longrightarrow> map f (xs[k := y]) = map f xs"
  by (cases "k < length xs") (simp_all add: map_update list_update_same_conv list_update_beyond)

lemma traded_amounts:
  "map o_price (sd_orders (traded x n f s)) = map o_price (sd_orders s)"
  "map o_quantity (sd_orders (traded x n f s)) = map o_quantity (sd_orders s)"
  unfolding traded_data by (rule map_update_same, simp add: placed_order_def current_order_def)+

text \<open>C5. A whole round, when both commissions are charged in BNB: from the phase that waits to buy, a price on the
  trigger of the purchase, the two reports of its
  order, a price on the trigger of the sale and the two reports of its order place exactly the purchase and
  then the sale, at the prices and quantities set, delete nothing, and lead back to the phase that waits to
  buy, with the same data and the next cycle number.\<close>

theorem sd_full_round:
  assumes "sd_inv coin s" and "phase_of s = Armed 0" and "half_round coin 0 s p0 x0 new0 fill0"
    and "half_round coin 1 (fst (run_events sd_handle [Price p0, Report new0, Report fill0] s)) p1 x1 new1 fill1"
    and "paid_in_bnb fill0" and "paid_in_bnb fill1"
  shows "let r = run_events sd_handle [Price p0, Report new0, Report fill0, Price p1, Report new1, Report fill1] s; t = fst r in
    phase_of t = Armed 0 \<and> sd_counter t = sd_counter s + 1 \<and> sd_trigger t = sd_trigger s \<and>
    map o_price (sd_orders t) = map o_price (sd_orders s) \<and> map o_quantity (sd_orders t) = map o_quantity (sd_orders s) \<and>
    map terms (orders_of (snd r)) =
      [(BUY, order_id 0 coin (sd_counter s), o_price (sd_orders s ! 0), o_quantity (sd_orders s ! 0)),
       (SELL, order_id 1 coin (sd_counter s), o_price (sd_orders s ! 1), o_quantity (sd_orders s ! 1))] \<and>
    deleted_of (snd r) = []"
proof -
  note h0 = half_round_run [OF assms(1-3,5)]
  define u where "u = traded x0 new0 fill0 s"
  have u: "sd_inv coin u" "phase_of u = Armed 1" "sd_counter u = sd_counter s" "half_round coin 1 u p1 x1 new1 fill1"
    using h0 assms(4) by (simp_all add: u_def)
  note h1 = half_round_run [OF u(1,2,4) assms(6)]
  have amounts: "o_price (sd_orders u ! 1) = o_price (sd_orders s ! 1)" "o_quantity (sd_orders u ! 1) = o_quantity (sd_orders s ! 1)"
    using traded_amounts [of x0 new0 fill0 s] sd_invD(6) [OF assms(1)] sd_invD(6) [OF u(1)]
    by (metis One_nat_def lessI nth_map numeral_2_eq_2 u_def)+
  note runs = run_events_append [of sd_handle "[Price p0, Report new0, Report fill0]" "[Price p1, Report new1, Report fill1]" s]
  have same: "sd_trigger (traded x1 new1 fill1 u) = sd_trigger s"
    "map o_price (sd_orders (traded x1 new1 fill1 u)) = map o_price (sd_orders s)"
    "map o_quantity (sd_orders (traded x1 new1 fill1 u)) = map o_quantity (sd_orders s)"
    by (simp_all add: traded_amounts traded_data(1) u_def)
  show ?thesis
    using runs h0(1,5,6) h1 placed_terms(1) [OF assms(1,2)] placed_terms(1) [OF u(1,2)] amounts same u(3)
    unfolding u_def [symmetric]
    by (simp add: split_beta Let_def side_of_def del: run_events.simps)
qed

theorem sd_full_round_witness:
  "let new = \<lambda>k. JObj [(''c'', JStr (order_id k ''BTC'' 0)), (''X'', JStr ''NEW'')];
       fill = \<lambda>k. JObj [(''c'', JStr (order_id k ''BTC'' 0)), (''X'', JStr ''FILLED''), (''N'', JStr ''BNB''), (''n'', JInt 0)];
       r = run_events sd_handle
         [Price (dollars 101), Report (new 0), Report (fill 0), Price (dollars 115), Report (new 1), Report (fill 1)] (demo D3)
   in map terms (orders_of (snd r)) =
     [(BUY, order_id 0 ''BTC'' 0, Fin False 99, Fin False 2), (SELL, order_id 1 ''BTC'' 0, Fin False 111, Fin False 2)]"
proof -
  let ?new = "\<lambda>k. JObj [(''c'', JStr (order_id k ''BTC'' 0)), (''X'', JStr ''NEW'')]"
  let ?fill = "\<lambda>k. JObj [(''c'', JStr (order_id k ''BTC'' 0)), (''X'', JStr ''FILLED''), (''N'', JStr ''BNB''), (''n'', JInt 0)]"
  have s: "phase_of (demo D3) = Armed 0" "sd_counter (demo D3) = 0"
    using demo_D3_armed demo_D3_simps(3) by (simp_all add: phase_of_def) (simp add: demo_D3 demo_D2)
  have ords: "o_price (sd_orders (demo D3) ! 0) = Fin False 99" "o_price (sd_orders (demo D3) ! 1) = Fin False 111"
    "o_quantity (sd_orders (demo D3) ! 0) = Fin False 2" "o_quantity (sd_orders (demo D3) ! 1) = Fin False 2"
    using take_temp_data_orders [of "demo D1"] sd_invD(6) [OF demo_inv [of D1]]
    by (simp_all add: demo_D3 demo_D2 price_in_def started_def retargeted_def)
  have h0: "half_round ''BTC'' 0 (demo D3) (dollars 101) (Fin False 101) (?new 0) (?fill 0)"
    using demo_hits s(2) by (simp add: half_round_def dict_get_def)
  have bnb: "paid_in_bnb (?fill k)" for k
    by (simp add: paid_in_bnb_def dict_get_def)
  note r = half_round_run [OF demo_inv s(1) h0 bnb]
  have "half_round ''BTC'' 1 (traded (Fin False 101) (?new 0) (?fill 0) (demo D3)) (dollars 115) (Fin False 115) (?new 1) (?fill 1)"
    using r(4) s(2) unfolding half_round_def
    by (simp add: dict_get_def traded_data price_in_def is_trigger_in_price_def py_nth_def less_eq_pyfloat_def signed_def)
  then show ?thesis
    using sd_full_round [OF demo_inv s(1) h0, of "dollars 115" "Fin False 115" "?new 1" "?fill 1"] bnb r(1) s(2) ords
    by (simp add: Let_def del: run_events.simps)
qed

section \<open>Quantities\<close>

text \<open>C19. How far rounding to the step moves a quantity: for a quantity below \<open>2 ^ 30\<close> and any finite
  step the result is a quantity of the same sign at most \<open>10 ^ -6\<close> away, double rounding included.\<close>

theorem round_at_step_close:
  assumes "0 \<le> m" and "0 \<le> v" and "v < 2 ^ 30"
  shows "\<exists>r. round_at_step (Fin s v) (Fin z m) = Inr (Fin s r) \<and> 0 \<le> r \<and> \<bar>r - v\<bar> \<le> 1 / 10 ^ 6"
proof -
  obtain d where "fround_dec (Fin s v) 6 = Fin s d" "0 \<le> d" "\<bar>d - v\<bar> \<le> 1 / 10 ^ 6"
    using fround_dec_error [OF assms(2,3)] .
  then show ?thesis
    using round_at_step_finite [OF assms(1)] by simp
qed

theorem round_at_step_close_witness:
  "\<exists>r. round_at_step (Fin False (19 / 10000000)) (Fin False (1 / 1000)) = Inr (Fin False r) \<and> 0 \<le> r \<and>
       \<bar>r - 19 / 10000000\<bar> \<le> 1 / 10 ^ 6"
  by (rule round_at_step_close) simp_all

end
