(* ===== verification/HostTimers.thy ===== *)
theory HostTimers
  imports Framework
begin

text \<open>
  The timers the host keeps for its script: the classes \<open>Timer\<close> and \<open>TimerMap\<close> of src/timer.h, to
  which src/application.cpp binds the script's calls \<open>create_timer\<close>, \<open>start_timer\<close> and \<open>stop_timer\<close>.
  Time itself is not modelled: a waiting timer may run out at any moment.
\<close>

section \<open>A timer\<close>

text \<open>\<open>t_waiting\<close>: a wait is pending.  \<open>t_due\<close>: waits that have run out and whose handler is queued
  and not yet called; stopping or restarting the timer does not call them back (Boost.Asio,
  \<open>basic_deadline_timer::cancel\<close>).\<close>

record timer =
  t_interval :: int
  t_periodic :: bool
  t_waiting :: bool
  t_due :: nat

definition Timer :: timer where
  "Timer = \<lparr>t_interval = 0, t_periodic = False, t_waiting = False, t_due = 0\<rparr>"

text \<open>\<open>start\<close> calls \<open>expires_from_now\<close>, which cancels the pending wait, and waits anew.\<close>

definition timer_start :: "int \<Rightarrow> bool \<Rightarrow> timer \<Rightarrow> timer" where
  "timer_start interval periodic t = t\<lparr>t_interval := interval, t_periodic := periodic, t_waiting := True\<rparr>"

definition timer_stop :: "timer \<Rightarrow> timer" where
  "timer_stop t = t\<lparr>t_waiting := False\<rparr>"

text \<open>A wait runs out.  Then \<open>timeout\<close> is called with no error: it calls the function of the timer
  and waits again if the timer is periodic.\<close>

definition timer_elapse :: "timer \<Rightarrow> timer" where
  "timer_elapse t = t\<lparr>t_waiting := False, t_due := Suc (t_due t)\<rparr>"

definition timer_called :: "timer \<Rightarrow> timer" where
  "timer_called t = t\<lparr>t_due := t_due t - 1\<rparr>"

definition timer_again :: "timer \<Rightarrow> timer" where
  "timer_again t = (if t_periodic t then t\<lparr>t_waiting := True\<rparr> else t)"

definition silent :: "timer \<Rightarrow> bool" where
  "silent t \<longleftrightarrow> \<not> t_waiting t \<and> t_due t = 0"

section \<open>The map of timers\<close>

type_synonym timers = "string \<rightharpoonup> timer"

text \<open>\<open>emplace\<close> keeps a timer that is already there under the name.\<close>

definition add_timer :: "string \<Rightarrow> timers \<Rightarrow> timers" where
  "add_timer name ts = (case ts name of None \<Rightarrow> ts(name \<mapsto> Timer) | Some t \<Rightarrow> ts)"

definition on_timer :: "string \<Rightarrow> (timer \<Rightarrow> timer) \<Rightarrow> timers \<Rightarrow> timers" where
  "on_timer name f ts = (case ts name of None \<Rightarrow> ts | Some t \<Rightarrow> ts(name \<mapsto> f t))"

definition start_timer :: "string \<Rightarrow> int \<Rightarrow> bool \<Rightarrow> timers \<Rightarrow> timers" where
  "start_timer name interval periodic = on_timer name (timer_start interval periodic)"

definition stop_timer :: "string \<Rightarrow> timers \<Rightarrow> timers" where
  "stop_timer name = on_timer name timer_stop"

text \<open>The calls of the script; \<open>start_timer\<close> is called without \<open>recurring\<close>, which is false by default.\<close>

fun timer_call :: "effect \<Rightarrow> timers \<Rightarrow> timers" where
  "timer_call (CreateTimer name) ts = add_timer name ts"
| "timer_call (StartTimer name interval) ts = start_timer name interval False ts"
| "timer_call (StopTimer name) ts = stop_timer name ts"
| "timer_call _ ts = ts"

text \<open>What a list of effects does to the one timer of a name that is in the map.\<close>

fun timing :: "effect list \<Rightarrow> effect list" where
  "timing [] = []"
| "timing (CreateTimer name # es) = CreateTimer name # timing es"
| "timing (StartTimer name interval # es) = StartTimer name interval # timing es"
| "timing (StopTimer name # es) = StopTimer name # timing es"
| "timing (e # es) = timing es"

lemma timing_append [simp]: "timing (es @ fs) = timing es @ timing fs"
  by (induction es rule: timing.induct) auto

lemma timing_calls: "fold timer_call (timing es) ts = fold timer_call es ts"
  by (induction es arbitrary: ts rule: timing.induct) auto

definition untimed :: "effect \<Rightarrow> bool" where
  "untimed e \<longleftrightarrow> timing [e] = []"

lemma untimed_simps [simp]:
  "untimed (ToLog j)" "untimed (ToJournal j)" "untimed (ToWeb j)" "untimed (ToAlertChannel j)"
  "untimed (ExecOrder ord)" "untimed (DeleteOrder ord)"
  by (simp_all add: untimed_def)

lemma untimed_effects: "\<forall>e \<in> set es. untimed e \<Longrightarrow> timing es = []"
  by (induction es rule: timing.induct) (auto simp: untimed_def)

lemma emits_untimed: "emits_only untimed m \<Longrightarrow> timing (effects_of (m s)) = []"
  by (rule untimed_effects) (simp add: emits_only_def)

lemma on_timer_same: "ts name = Some t \<Longrightarrow> on_timer name f ts name = Some (f t)"
  by (simp add: on_timer_def)

lemma timer_call_simps [simp]:
  "ts name = Some t \<Longrightarrow> start_timer name i p ts name = Some (timer_start i p t)"
  "ts name = Some t \<Longrightarrow> stop_timer name ts name = Some (timer_stop t)"
  "ts name = Some t \<Longrightarrow> add_timer name ts = ts"
  "add_timer name Map.empty name = Some Timer"
  by (simp_all add: start_timer_def stop_timer_def on_timer_def add_timer_def)

lemma timer_fields [simp]:
  "t_waiting (timer_start i p t)" "t_due (timer_start i p t) = t_due t" "t_periodic (timer_start i p t) = p"
  "\<not> t_waiting (timer_stop t)" "t_due (timer_stop t) = t_due t" "t_periodic (timer_stop t) = t_periodic t"
  "\<not> t_waiting (timer_elapse t)" "t_due (timer_elapse t) = Suc (t_due t)" "t_periodic (timer_elapse t) = t_periodic t"
  "t_waiting (timer_called t) = t_waiting t" "t_due (timer_called t) = t_due t - 1" "t_periodic (timer_called t) = t_periodic t"
  "\<not> t_waiting Timer" "t_due Timer = 0" "\<not> t_periodic Timer"
  "\<not> t_periodic t \<Longrightarrow> timer_again t = t"
  by (simp_all add: timer_start_def timer_stop_def timer_elapse_def timer_called_def timer_again_def Timer_def)

end
