(* ===== verification/SymbolTimers.thy ===== *)
theory SymbolTimers
  imports SymbolCycle HostTimers
begin

text \<open>
  What the events of one currency do to its timer, \<open>compl_timer\<close>, which watches an order until the
  exchange confirms it: handler by handler, then as one judgement on the steps of \<open>cycle\<close>.
\<close>

section \<open>Handlers\<close>

abbreviation stops :: "symbol_data \<Rightarrow> effect" where
  "stops s \<equiv> StopTimer (compl_timer (sd_symbol s))"

lemma timing_resume: "timing (effects_of (fsm_resume s)) = [stops s]"
  by (simp add: fsm_resume_def run_prog sd_stmts reset_def)

lemma timing_ready: "timing (effects_of (fsm_ready s)) = []"
  by (simp add: fsm_ready_def run_prog sd_stmts)

lemma timing_in_price: "timing (effects_of (fsm_in_price s)) = [StartTimer (compl_timer (sd_symbol s)) 5]"
  by (simp add: fsm_in_price_def run_prog sd_stmts upd_order_def)

lemma timing_wait_order_compl:
  "timing (effects_of (fsm_wait_order_compl s)) = (if report_is ''NEW'' s = Inr True then [stops s] else [])"
  by (cases "report_is ''NEW'' s"; simp add: fsm_wait_order_compl_def run_prog sd_stmts is_key_error_def Let_def)

lemma untimed_settle: "emits_only untimed settle_commission"
  unfolding settle_commission_def apply_commission_def correct_quantity_def sd_stmts
  by (intro emits_intros untimed_simps)

lemma timing_wait_order_fill:
  "timing (effects_of (fsm_wait_order_fill s)) = (if report_is ''FILLED'' s = Inr True then [stops s] else [])"
  using emits_untimed [OF untimed_settle]
  by (cases "report_is ''FILLED'' s"; 
      simp add: fsm_wait_order_fill_def next_step_stepped run_prog sd_stmts Let_def split_beta split: outcome.split)

lemma timing_wait_order_del_change:
  "report_item ''X'' s = Inr (JStr ''CANCELED'') \<Longrightarrow> sd_change_mode s \<Longrightarrow>
   timing (effects_of (fsm_wait_order_del go s)) = [stops s]"
  by (simp add: fsm_wait_order_del_def run_prog sd_stmts)

lemma timing_wait_order_del_miss:
  "report_item ''X'' s \<noteq> Inr (JStr ''CANCELED'') \<Longrightarrow> timing (effects_of (fsm_wait_order_del go s)) = []"
  by (cases "report_item ''X'' s"; simp add: fsm_wait_order_del_def run_prog sd_stmts)

lemma timing_goto_resume:
  assumes "machine_ok s"
  shows "timing (effects_of (sd_run (Suc n) (s\<lparr>sd_fsm := set_state ST_RESUME (sd_fsm s)\<rparr>))) = [stops s]"
proof -
  define t where "t = s\<lparr>sd_fsm := set_state ST_RESUME (sd_fsm s)\<rparr>"
  have "machine_ok t" "fsm_state (sd_fsm t) = ST_RESUME"
    using assms by (simp_all add: t_def machine_ok_def)
  then have "sd_run (Suc n) t = fsm_resume t"
    using sd_run_handler [of t H_resume n] by simp
  then show ?thesis
    by (simp add: t_def [symmetric] timing_resume) (simp add: t_def)
qed

lemma timing_wait_order_del_stop:
  assumes "report_item ''X'' s = Inr (JStr ''CANCELED'')" and "\<not> sd_change_mode s" and "machine_ok s"
  shows "timing (effects_of (fsm_wait_order_del (sd_run (Suc n)) s)) = [stops s, stops s]"
proof -
  have "machine_ok (cancelled s)"
    using assms(3) by (simp add: machine_ok_def cancelled_def)
  from timing_goto_resume [OF this, of n] show ?thesis
    using assms(1,2)
    by (simp add: fsm_wait_order_del_def run_prog sd_stmts cancelled_def ts3_def split_beta del: sd_run.simps)
qed

section \<open>Turns of the machine\<close>

lemma timing_armed:
  assumes "sd_inv coin s" and "fsm_state (sd_fsm s) = ST_WAIT_PRICE"
  shows "timing (effects_of (sd_fsm_run s)) =
    (if is_trigger_in_price (sd_trigger s ! sd_step s) s = Inr True then [StartTimer (compl_timer coin) 5] else [])"
proof (cases "is_trigger_in_price (sd_trigger s ! sd_step s) s = Inr True")
  case True
  define t where "t = s\<lparr>sd_wait_price := False, sd_fsm := set_state ST_IN_PRICE (sd_fsm s)\<rparr>"
  have "machine_ok t" "fsm_state (sd_fsm t) = ST_IN_PRICE" "sd_symbol t = coin"
    using sd_invD(1,4) [OF assms(1)] by (simp_all add: t_def machine_ok_def)
  then have "sd_run (Suc 398) t = fsm_in_price t" "sd_symbol t = coin"
    using sd_run_handler [of t H_in_price 398] by simp_all
  moreover have "sd_fsm_run s = fsm_wait_price (sd_run (Suc 398)) s"
    using sd_fsm_run_in [OF assms(1), of H_wait_price] assms(2) by simp
  ultimately show ?thesis
    using True timing_in_price [of t] by (simp add: fsm_wait_price_def run_prog sd_stmts t_def split_beta del: sd_run.simps)
next
  case False
  then show ?thesis
    using run_armed_quiet(2) [OF assms False] by simp
qed

section \<open>Events\<close>

text \<open>The phases in which the timer may be waiting: an order was sent and its confirmation not seen.\<close>

fun supervised :: "phase \<Rightarrow> bool" where
  "supervised (Submitted k) = True"
| "supervised (Cancelling i k) = True"
| "supervised _ = False"

text \<open>An event that places an order starts the timer and does nothing else to it.  Any other can only
  stop it: it does when the phases above are left, and does not while the order stays unconfirmed.\<close>

definition watches :: "string \<Rightarrow> phase \<Rightarrow> effect list \<Rightarrow> phase \<Rightarrow> bool" where
  "watches coin p es p' \<longleftrightarrow>
     (if orders_of es \<noteq> [] then timing es = [StartTimer (compl_timer coin) 5]
      else set (timing es) \<subseteq> {StopTimer (compl_timer coin)} \<and>
           (\<forall>k. p' = Submitted k \<longrightarrow> timing es = []) \<and>
           (supervised p \<longrightarrow> \<not> supervised p' \<longrightarrow> timing es \<noteq> []))"

lemma watches_quiet:
  "orders_of es = [] \<Longrightarrow> timing es = [] \<Longrightarrow> supervised p \<longrightarrow> supervised p' \<Longrightarrow> watches coin p es p'"
  by (simp add: watches_def)

lemma watches_stop:
  "orders_of es = [] \<Longrightarrow> timing es \<noteq> [] \<Longrightarrow> set (timing es) \<subseteq> {StopTimer (compl_timer coin)} \<Longrightarrow>
   \<forall>k. p' \<noteq> Submitted k \<Longrightarrow> watches coin p es p'"
  by (simp add: watches_def)

lemma watches_place: "orders_of es = [ord] \<Longrightarrow> timing es = [StartTimer (compl_timer coin) 5] \<Longrightarrow> watches coin p es p'"
  by (simp add: watches_def)

lemma watches_cong:
  "orders_of es = orders_of es' \<Longrightarrow> timing es = timing es' \<Longrightarrow> watches coin p es p' = watches coin p es' p'"
  by (simp add: watches_def)

lemma armed_watches:
  assumes "sd_inv coin s" and "fsm_state (sd_fsm s) = ST_WAIT_PRICE" and "\<not> supervised p"
  shows "watches coin p (effects_of (sd_fsm_run s)) p'"
proof (cases "is_trigger_in_price (sd_trigger s ! sd_step s) s = Inr True")
  case True
  then show ?thesis
    using run_armed_fires(2) [OF assms(1,2) True] timing_armed [OF assms(1,2)] by (intro watches_place) simp_all
next
  case False
  then show ?thesis
    using run_armed_quiet(2) [OF assms(1,2) False] assms(3) by (intro watches_quiet) simp_all
qed

text \<open>The data of the web client and the filters leave the timer alone.\<close>

lemma timing_note_data:
  assumes "machine_ok s"
  shows "timing (effects_of (note_data s)) = []"
proof -
  define t where "t = s\<lparr>sd_fsm := set_state ST_READY (sd_fsm s)\<rparr>"
  have "machine_ok t" "fsm_state (sd_fsm t) = ST_READY"
    using assms by (simp_all add: t_def machine_ok_def)
  then have "sd_fsm_run t = fsm_ready t"
    using sd_run_handler [of t H_ready 399] by (simp add: sd_fsm_run_Suc del: sd_run.simps)
  then show ?thesis
    using timing_ready [of t] by (auto simp: note_data_def run_prog sd_stmts t_def split_beta)
qed

lemma timing_trade_data_body:
  assumes "machine_ok s"
  shows "timing (effects_of (trade_data_body j s)) = []"
proof -
  obtain v es r where v: "set_temp_data j s = (v, es, r)"
    by (cases "set_temp_data j s") auto
  have "temp_changed s v"
    using set_temp_data_frame [of s j] by (simp add: v)
  then have "machine_ok v"
    using assms by (simp add: temp_changed_machine)
  moreover have "timing es = []"
    using emits_untimed [OF set_temp_data_silent, of j s] by (simp add: v)
  ultimately show ?thesis
    using timing_note_data [of v] note_data_run(3) [of v]
    by (cases r; cases "getitem j ''a''")
       (auto simp: trade_data_body_def p_bind_def prog_defs send_trade_state_def v split_beta)
qed

lemma timing_trade_data:
  assumes "machine_ok s"
  shows "timing (effects_of (sd_on_trade_data j s)) = []"
  using timing_trade_data_body [OF assms]
  by (cases j) (auto simp: sd_on_trade_data_other sd_on_trade_data_body Let_def split_beta split: outcome.split)

lemma untimed_exchange_info: "emits_only untimed (sd_on_exchange_info j)"
  unfolding sd_on_exchange_info_def by (intro emits_intros untimed_simps)

lemma untimed_trade_run: "emits_only untimed trade_run_idle_stop" "emits_only untimed (trade_run_change side)"
  unfolding trade_run_idle_stop_def trade_run_change_def sd_stmts by (intro emits_intros untimed_simps)+

lemmas timing_trade_run = untimed_trade_run [THEN emits_untimed]

lemma timing_start: "timing (effects_of (trade_run_start side s)) = timing (effects_of (sd_fsm_run (started side s)))"
  by (simp add: trade_run_start_def run_prog sd_stmts started_def retargeted_def chosen_def ts3_def split_beta)

lemma timing_stop_order: "wait_order_act s \<Longrightarrow> timing (effects_of (trade_run_stop s)) = []"
  by (simp add: trade_run_stop_def run_prog sd_stmts)

lemma timing_stop_quiet:
  "\<not> wait_order_act s \<Longrightarrow> machine_ok s \<Longrightarrow> timing (effects_of (trade_run_stop s)) = [stops s]"
  using timing_goto_resume [of s 399]
  by (simp add: trade_run_stop_def sd_fsm_run_Suc run_prog sd_stmts split_beta del: sd_run.simps)

lemma timing_timeout: "machine_ok s \<Longrightarrow> timing (effects_of (sd_on_order_complete_timeout s)) = [stops s]"
  using timing_goto_resume [of "timed_out s" 399]
  by (simp add: sd_on_order_complete_timeout_def sd_fsm_run_Suc run_prog sd_stmts timed_out_def ts3_def
      machine_ok_def split_beta del: sd_run.simps)

section \<open>Every event watches its order\<close>

lemma trade_run_watches:
  assumes "sd_inv coin s"
  shows "watches coin (phase_of s) (effects_of (sd_on_trade_run j s)) (phase_of (state_of (sd_on_trade_run j s)))"
proof (cases "run_request j")
  case (Inl x)
  then show ?thesis
    by (intro watches_quiet) (simp_all add: sd_on_trade_run_run)
next
  case (Inr r)
  obtain go side where r: "run_request j = Inr (go, side)"
    using Inr by (cases r) auto
  note m = sd_invD(1) [OF assms]
  have idle: "phase_of s = Idle" if "\<not> sd_running s"
    using phase_start [OF assms] that by simp
  show ?thesis
  proof (cases "sd_running s")
    case False
    show ?thesis
    proof (cases go)
      case True
      have "fsm_state (sd_fsm (started side s)) = ST_WAIT_PRICE"
        using m by (simp add: started_def)
      from armed_watches [OF inv_started(1) [OF assms idle [OF False]] this, of "phase_of s"]
      show ?thesis
        using watches_cong [of "effects_of (trade_run_start side s)" "effects_of (sd_fsm_run (started side s))"]
          True False idle r trade_run_start_run(2) timing_start
        by (simp add: sd_on_trade_run_run)
    next
      case 2: False
      show ?thesis
        using trade_run_idle_stop_run(2) timing_trade_run(1) False 2 idle r
        by (intro watches_quiet) (simp_all add: sd_on_trade_run_run)
    qed
  next
    case True
    show ?thesis
    proof (cases "wait_order_act s")
      case act: True
      obtain a where a: "cycle (abs_sd s) (stimulus_of (TradeRun j) s) a (abs_sd (state_of (sd_on_trade_run j s)))"
        using refines_step [OF assms, of "TradeRun j"] by auto
      from a act_order_out [OF assms] act r have "supervised (phase_of (state_of (sd_on_trade_run j s)))"
        unfolding abs_sd_def by (cases rule: cycle.cases) (auto split: if_splits)
      moreover have "orders_of (effects_of (sd_on_trade_run j s)) = []"
        using out_step(2) [OF assms, of _ "TradeRun j"] act_order_out [OF assms] act by auto
      moreover have "timing (effects_of (sd_on_trade_run j s)) = []"
        using timing_trade_run(2) timing_stop_order [OF act] True r by (simp add: sd_on_trade_run_run)
      ultimately show ?thesis
        by (intro watches_quiet) simp_all
    next
      case free: False
      then have p: "\<not> supervised (phase_of s)"
        using act_order_out [OF assms] by (cases "phase_of s") auto
      have act: "\<not> wait_order_act (retargeted side s)"
        using free wait_order_act_iff [OF sd_invD(3) [OF assms]]
        by (simp add: wait_order_act_def waited_order_def deref_order_def retargeted_def Order_def)
      show ?thesis
      proof (cases go)
        case go: True
        show ?thesis
          using trade_run_change_quiet(2) [OF act] timing_trade_run(2) p r go True
          by (intro watches_quiet) (simp_all add: sd_on_trade_run_run)
      next
        case stop: False
        have "phase_of (stopped s) = Idle"
          using trade_run_stop_quiet(1) [OF free m] 
          by (simp add: stopped_def fsm_resume_run phase_of_def m)
        then show ?thesis
          using trade_run_stop_quiet(1,2) [OF free m] timing_stop_quiet [OF free m] sd_invD(4) [OF assms] r stop True
          by (intro watches_stop) (simp_all add: sd_on_trade_run_run)
      qed
    qed
  qed
qed

lemma price_watches:
  assumes "sd_inv coin s"
  shows "watches coin (phase_of s) (effects_of (sd_on_price j s)) (phase_of (state_of (sd_on_price j s)))"
proof -
  have quiet: "watches coin (phase_of s) (effects_of (sd_on_price j s)) (phase_of (state_of (sd_on_price j s)))"
    if "effects_of (sd_on_price j s) = []" "phase_of (state_of (sd_on_price j s)) = phase_of s"
    using that by (intro watches_quiet) simp_all
  show ?thesis
  proof (cases "sd_price s = []")
    case True
    then show ?thesis
      using quiet by (simp add: sd_on_price_run)
  next
    case ps: False
    show ?thesis
    proof (cases "float_of j")
      case (Inl x)
      then show ?thesis
        using quiet inv_price_lost(2) [OF assms] by (simp add: sd_on_price_run ps)
    next
      case (Inr x)
      note inv = inv_price_in [OF assms ps, of x]
      show ?thesis
      proof (cases "sd_wait_price s")
        case True
        then have fsm: "fsm_state (sd_fsm (price_in x s)) = ST_WAIT_PRICE" "phase_of s = Armed (sd_step s)"
          using sd_invD(3) [OF assms] by (auto simp: price_in_def elim: phase_cases)
        show ?thesis
          using armed_watches [OF inv(1) fsm(1), of "phase_of s"] fsm(2) True by (simp add: sd_on_price_run ps Inr)
      next
        case False
        then show ?thesis
          using quiet inv(2) by (simp add: sd_on_price_run ps Inr)
      qed
    qed
  qed
qed

lemma report_watches:
  assumes "sd_inv coin s"
  shows "watches coin (phase_of s) (effects_of (sd_on_order_report j s)) (phase_of (state_of (sd_on_order_report j s)))"
proof -
  let ?t = "state_of (sd_on_order_report j s)" and ?es = "effects_of (sd_on_order_report j s)"
  define r where "r = report_in j s"
  note inv = inv_report_in [OF assms, of j, folded r_def]
  have st: "fsm_state (sd_fsm r) = fsm_state (sd_fsm s)" and name: "sd_symbol r = coin"
    using sd_invD(4) [OF assms] by (simp_all add: r_def report_in_def)
  have ev: "?t = (if fsm_state (sd_fsm s) = ST_RESUME then r else state_of (sd_fsm_run r))"
    "orders_of ?es = (if fsm_state (sd_fsm s) = ST_RESUME then [] else orders_of (effects_of (sd_fsm_run r)))"
    "timing ?es = (if fsm_state (sd_fsm s) = ST_RESUME then [] else timing (effects_of (sd_fsm_run r)))"
    by (simp_all add: sd_on_order_report_run r_def Let_def split_beta)
  obtain a where a: "cycle (abs_sd s) (answer j s) a (abs_sd ?t)" and orders: "carries a ?t ?es"
    using refines_step [OF assms, of "Report j"] by auto
  note none = report_asks_nothing [OF assms, of j, THEN conjunct1]
  have turn: "sd_fsm_run r = sd_exec (sd_run (Suc 398)) h () r"
    if "map_of (fsm_handlers sd_fsm_init) (fsm_state (sd_fsm s)) = Some (Some h)" for h
    using sd_fsm_run_in [OF inv(1), of h] that st by simp
  show ?thesis
    using sd_invD(3) [OF assms]
  proof (cases rule: phase_cases)
    case Idle
    have "timing ?es = []"
    proof (cases "fsm_state (sd_fsm s) = ST_READY")
      case True
      then show ?thesis
        using turn [of H_ready] timing_ready by (simp add: ev(3))
    next
      case False
      then show ?thesis
        using Idle sd_fsm_run_start [OF sd_invD(1) [OF inv(1)]] st by (auto simp: ev(3))
    qed
    then show ?thesis
      using none Idle by (intro watches_quiet) simp_all
  next
    case Armed
    then show ?thesis
      using armed_watches [OF inv(1), of "phase_of s" "phase_of ?t"] st ev by (simp add: watches_def)
  next
    case Submitted
    show ?thesis
    proof (cases "report_is ''NEW'' r = Inr True")
      case True
      have "\<forall>k. phase_of ?t \<noteq> Submitted k"
        using turn [of H_wait_order_compl] inv_confirmed(2) [OF inv(1)] Submitted st True
        by (simp add: ev(1) fsm_wait_order_compl_run)
      then show ?thesis
        using turn [of H_wait_order_compl] none Submitted True ev(3) name
        by (intro watches_stop) (simp_all add: timing_wait_order_compl)
    next
      case False
      then show ?thesis
        using turn [of H_wait_order_compl] none Submitted inv(2) ev(1,3)
        by (intro watches_quiet) (simp_all add: timing_wait_order_compl fsm_wait_order_compl_run)
    qed
  next
    case Open
    have "\<forall>k. phase_of ?t \<noteq> Submitted k"
      using a Open unfolding abs_sd_def by (cases rule: cycle.cases) (auto simp: answer_def)
    then show ?thesis
      using turn [of H_wait_order_fill] none Open ev(3) name by (auto simp: watches_def timing_wait_order_fill)
  next
    case Unsettled
    have "\<forall>k. phase_of ?t \<noteq> Submitted k"
      using a Unsettled unfolding abs_sd_def by (cases rule: cycle.cases) (auto simp: answer_def)
    then show ?thesis
      using turn [of H_wait_order_fill] none Unsettled ev(3) name by (auto simp: watches_def timing_wait_order_fill)
  next
    case (Cancelling i)
    note del = turn [of H_wait_order_del]
    have sub: "\<forall>k. phase_of ?t \<noteq> Submitted k"
      using a Cancelling unfolding abs_sd_def by (cases rule: cycle.cases) (auto simp: answer_def)
    show ?thesis
    proof (cases "report_item ''X'' r = Inr (JStr ''CANCELED'')")
      case True
      have "timing ?es \<noteq> [] \<and> set (timing ?es) \<subseteq> {StopTimer (compl_timer coin)}"
        using timing_wait_order_del_change [OF True, of "sd_run (Suc 398)"]
          timing_wait_order_del_stop [OF True _ sd_invD(1) [OF inv(1)], of 398] del Cancelling ev(3) name
        by (cases "sd_change_mode r") (simp_all del: sd_run.simps)
      then show ?thesis
        using none Cancelling sub by (intro watches_stop) simp_all
    next
      case False
      then show ?thesis
        using fsm_wait_order_del_miss(1) [OF False] timing_wait_order_del_miss [OF False] del none Cancelling inv(2) ev(1,3)
        by (intro watches_quiet) (simp_all del: sd_run.simps)
    qed
  qed
qed

lemma data_step:
  assumes "cycle (abs_sd s) Data a (abs_sd t)"
  shows "a = Tau" and "phase_of t = phase_of s"
  using assms unfolding abs_sd_def by (cases rule: cycle.cases; simp)+

theorem sd_handle_watches:
  assumes "sd_inv coin s"
  shows "watches coin (phase_of s) (effects_of (sd_handle ev s)) (phase_of (state_of (sd_handle ev s)))"
proof (cases ev)
  case (TradeData j)
  obtain a where a: "cycle (abs_sd s) Data a (abs_sd (state_of (sd_on_trade_data j s)))"
    "carries a (state_of (sd_on_trade_data j s)) (effects_of (sd_on_trade_data j s))"
    using refines_step [OF assms, of "TradeData j"] by auto
  note data_step [OF a(1)]
  with a(2) show ?thesis
    using timing_trade_data [OF sd_invD(1) [OF assms], of j] by (simp add: TradeData watches_quiet)
next
  case (ExchangeInfo j)
  obtain a where a: "cycle (abs_sd s) Data a (abs_sd (state_of (sd_on_exchange_info j s)))"
    "carries a (state_of (sd_on_exchange_info j s)) (effects_of (sd_on_exchange_info j s))"
    using refines_step [OF assms, of "ExchangeInfo j"] by auto
  note data_step [OF a(1)]
  with a(2) show ?thesis
    using emits_untimed [OF untimed_exchange_info, of j s] by (simp add: ExchangeInfo watches_quiet)
next
  case Timeout
  note m = sd_invD(1) [OF assms]
  show ?thesis
    using timing_timeout [OF m] sd_on_order_complete_timeout_run(1,2) [OF m] inv_timed_out(2) [OF assms] sd_invD(4) [OF assms]
    by (simp add: Timeout watches_stop)
qed (simp_all add: trade_run_watches [OF assms] price_watches [OF assms] report_watches [OF assms])

section \<open>Names of the orders\<close>

text \<open>An order that stays out keeps its name.\<close>

lemma cycle_same_order:
  assumes "cycle (p, c, n) x a (p', c', n')" and "order_out p = Some i" and "order_out p' = Some k"
  shows "i = k"
  using assms by (cases rule: cycle.cases; auto)

definition named :: "nat \<Rightarrow> symbol_data \<Rightarrow> string" where
  "named i s = o_newClientOrderId (sd_orders s ! i)"

lemma named_frames [simp]:
  "named i (data_set s) = named i s" "named i (price_in x s) = named i s" "named i (report_in j s) = named i s"
  "named i (confirmed s) = named i s" "named i (awaiting_deletion s) = named i s"
  "named i (s\<lparr>sd_price := ps\<rparr>) = named i s" "named i (s\<lparr>sd_change_mode := b\<rparr>) = named i s"
  by (simp_all add: named_def data_set_def data_noted_def data_ready_def fsm_ready_run price_in_def report_in_def
      confirmed_def awaiting_deletion_def)

lemma named_changed:
  "temp_changed s u \<Longrightarrow> named i u = named i s" "filters_changed s u \<Longrightarrow> named i u = named i s"
  by (cases s; cases u; simp add: named_def temp_changed_def filters_changed_def)+

lemma cycle_answered:
  assumes "cycle (p, c, n) (Answer x m) a (p', c', n')" and "accepts p x m" and "\<forall>k. p \<noteq> Submitted k"
  shows "order_out p' = None"
  using assms by (cases rule: cycle.cases; auto)

text \<open>A report that does not close the order leaves the orders as they are.\<close>

lemma report_keeps_name:
  assumes "sd_inv coin s" and "order_out (phase_of s) = Some i"
    and "order_out (phase_of (state_of (sd_on_order_report j s))) = Some k"
  shows "named i (state_of (sd_on_order_report j s)) = named i s"
proof -
  let ?t = "state_of (sd_on_order_report j s)"
  define r where "r = report_in j s"
  note inv = inv_report_in [OF assms(1), of j, folded r_def]
  have st: "fsm_state (sd_fsm r) = fsm_state (sd_fsm s)"
    by (simp add: r_def report_in_def)
  have t: "?t = (if fsm_state (sd_fsm s) = ST_RESUME then r else state_of (sd_fsm_run r))"
    by (simp add: sd_on_order_report_run r_def Let_def split_beta)
  obtain a where a: "cycle (abs_sd s) (answer j s) a (abs_sd ?t)"
    using refines_step [OF assms(1), of "Report j"] by auto
  have open_still: "\<not> accepts (phase_of s) x m" if "answer j s = Answer x m" "\<forall>k. phase_of s \<noteq> Submitted k" for x m
    using cycle_answered [OF a [unfolded abs_sd_def that(1)]] that(2) assms(3) by auto
  have turn: "sd_fsm_run r = sd_exec (sd_run (Suc 398)) h () r"
    if "map_of (fsm_handlers sd_fsm_init) (fsm_state (sd_fsm s)) = Some (Some h)" for h
    using sd_fsm_run_in [OF inv(1), of h] that st by simp
  have "?t = r \<or> ?t = confirmed r"
    using sd_invD(3) [OF assms(1)]
  proof (cases rule: phase_cases)
    case Submitted
    then show ?thesis
      using turn [of H_wait_order_compl] by (simp add: t fsm_wait_order_compl_run)
  next
    case Open
    then have "report_is ''FILLED'' r \<noteq> Inr True"
      using open_still [OF answer_hit] by (auto simp: r_def)
    then show ?thesis
      using turn [of H_wait_order_fill] fsm_wait_order_fill_miss(1) Open by (simp add: t)
  next
    case (Cancelling l)
    obtain y m where y: "answer j s = Answer y m" "y = ''CANCELED'' \<longleftrightarrow> getitem j ''X'' = Inr (JStr ''CANCELED'')"
      by (rule answer_status [of "''CANCELED''" j s]) auto
    then have "report_item ''X'' r \<noteq> Inr (JStr ''CANCELED'')"
      using open_still [OF y(1)] Cancelling by (auto simp: r_def report_item_in)
    then show ?thesis
      using turn [of H_wait_order_del] fsm_wait_order_del_miss(1) Cancelling by (simp add: t del: sd_run.simps)
  qed (use assms(2) in simp_all)
  then show ?thesis
    by (auto simp: r_def)
qed

lemma out_keeps_name:
  assumes "sd_inv coin s" and "order_out (phase_of s) = Some i"
    and "order_out (phase_of (state_of (sd_handle ev s))) = Some k"
  shows "named k (state_of (sd_handle ev s)) = named i s"
proof -
  obtain a where a: "cycle (abs_sd s) (stimulus_of ev s) a (abs_sd (state_of (sd_handle ev s)))"
    using refines_step [OF assms(1)] by blast
  note same = cycle_same_order [OF a [unfolded abs_sd_def] assms(2,3)]
  have slot: "sd_wait_order_fill s = SlotOrder i" "i < 2" "\<not> sd_wait_price s" "sd_running s"
    using sd_invD(3,5) [OF assms(1)] assms(2) by (auto elim!: phase_cases)
  note len = sd_invD(6) [OF assms(1)]
  have "named i (state_of (sd_handle ev s)) = named i s"
  proof (cases ev)
    case (TradeData j)
    show ?thesis
      using sd_on_trade_data_frame(1) [OF sd_invD(1) [OF assms(1)], of j] named_changed(1) by (auto simp: TradeData)
  next
    case (TradeRun j)
    have act: "wait_order_act s"
      using act_order_out [OF assms(1)] assms(2) by simp
    have ids: "named i (retargeted side s) = named i s" for side
      using retargeted_ids [OF len slot(2)] by (simp add: named_def)
    have "wait_order_act (retargeted side s)" for side
      using act slot(1) ids [of side]
      by (simp add: wait_order_act_def waited_order_def deref_order_def retargeted_def named_def)
    note change = trade_run_change_order(1) [OF this] and stop = trade_run_stop_order(1) [OF act]
    show ?thesis
      using slot(4) by (simp add: TradeRun sd_on_trade_run_run change stop ids split: sum.split prod.split)
  next
    case (Price j)
    show ?thesis
      using slot(3) by (simp add: Price sd_on_price_run split: sum.split)
  next
    case (Report j)
    show ?thesis
      using report_keeps_name [OF assms(1,2), of j] assms(3) by (simp add: Report)
  next
    case Timeout
    show ?thesis
      using inv_timed_out(2) [OF assms(1)] assms(3) sd_on_order_complete_timeout_run(1) [OF sd_invD(1) [OF assms(1)]]
      by (simp add: Timeout)
  next
    case (ExchangeInfo j)
    show ?thesis
      using named_changed(2) [OF sd_on_exchange_info_frame] by (simp add: ExchangeInfo)
  qed
  then show ?thesis
    by (simp add: same)
qed

end
