(* ===== verification/Market.thy ===== *)
theory Market
  imports SymbolTimers
begin

text \<open>
  One currency in its surroundings: the exchange, which takes its orders and answers with reports, and
  the host's timer.  The exchange is a parameter: a record of functions, of which the theorems suppose
  what its documentation says (\<open>documented\<close>).
\<close>

section \<open>The exchange\<close>

text \<open>\<open>x_open\<close>: the orders, by pair and name, whose end has not been reported.  \<open>x_take\<close>, \<open>x_cancel\<close>: an
  order, or a request to delete one, arrives.  \<open>x_report j\<close>: the state after the first report of something,
  if \<open>j\<close> is such a report.  \<open>x_repeat j\<close>: \<open>j\<close> reports again what was reported before: of every order and every
  deletion the bot tells the script twice, once from the stream of the exchange and once from the answer to
  its own request (\<open>http_data_handler\<close> of src/binance.cpp), in either order.\<close>

record 'x exchange =
  x_open :: "'x \<Rightarrow> (string \<times> string) set"
  x_take :: "order \<Rightarrow> 'x \<Rightarrow> 'x"
  x_cancel :: "order \<Rightarrow> 'x \<Rightarrow> 'x"
  x_report :: "json \<Rightarrow> 'x \<Rightarrow> 'x option"
  x_repeat :: "json \<Rightarrow> 'x \<Rightarrow> bool"

definition order_key :: "order \<Rightarrow> string \<times> string" where
  "order_key ord = (o_symbol ord, o_newClientOrderId ord)"

text \<open>Execution reports of Binance: \<open>s\<close> is the pair, \<open>X\<close> the status of the order and \<open>c\<close> its client order id; in
  the report of a deletion \<open>c\<close> is the id of the request and \<open>C\<close> that of the order.  The report the bot makes of
  the answer to a request has no \<open>C\<close>.\<close>

definition status_is :: "json \<Rightarrow> string \<Rightarrow> bool" where
  "status_is j x \<longleftrightarrow> getitem j ''X'' = Inr (JStr x)"

fun about :: "json \<Rightarrow> string \<times> string \<Rightarrow> bool" where
  "about j (pair, n) \<longleftrightarrow>
     getitem j ''s'' = Inr (JStr pair) \<and>
     (if status_is j ''CANCELED'' then getitem j ''C'' \<in> {Inr (JStr n), Inl KeyError}
      else getitem j ''c'' = Inr (JStr n))"

text \<open>The report made of the answer to a request (src/binance.cpp): it names no commission.\<close>

definition rest_report :: "string \<Rightarrow> string \<Rightarrow> string \<Rightarrow> string \<Rightarrow> string \<Rightarrow> string \<Rightarrow> json" where
  "rest_report symbol status clientOrderId timeInForce side typ = JObj
     [(''e'', JStr ''executionReport''), (''s'', JStr symbol), (''X'', JStr status), (''c'', JStr clientOrderId),
      (''f'', JStr timeInForce), (''S'', JStr side), (''o'', JStr typ)]"

definition closing :: "json \<Rightarrow> bool" where
  "closing j \<longleftrightarrow> list_ex (status_is j) [''FILLED'', ''CANCELED'', ''REJECTED'', ''EXPIRED'']"

text \<open>An order opens at most its own pair and name; a first report is about an open order and, if its status
  is final, closes it; a report that comes again is about an order that is not open, or of a deletion.\<close>

definition documented :: "'x exchange \<Rightarrow> bool" where
  "documented E \<longleftrightarrow>
     (\<forall>ord x. x_open E (x_take E ord x) \<subseteq> insert (order_key ord) (x_open E x)) \<and>
     (\<forall>ord x. x_open E (x_cancel E ord x) \<subseteq> x_open E x) \<and>
     (\<forall>j x y. x_report E j x = Some y \<longrightarrow>
        (\<exists>n \<in> x_open E x. about j n \<and> x_open E y \<subseteq> (if closing j then x_open E x - {n} else x_open E x))) \<and>
     (\<forall>j x. x_repeat E j x \<longrightarrow> status_is j ''CANCELED'' \<or> (\<exists>n. n \<notin> x_open E x \<and> about j n))"

fun deal :: "'x exchange \<Rightarrow> effect \<Rightarrow> 'x \<Rightarrow> 'x" where
  "deal E (ExecOrder ord) x = x_take E ord x"
| "deal E (DeleteOrder ord) x = x_cancel E ord x"
| "deal E _ x = x"

lemma deal_open:
  assumes "documented E"
  shows "x_open E (fold (deal E) es x) \<subseteq> order_key ` set (orders_of es) \<union> x_open E x"
proof (induction es arbitrary: x)
  case (Cons e es)
  have "x_open E (x_take E ord x) \<subseteq> insert (order_key ord) (x_open E x)"
    "x_open E (x_cancel E ord x) \<subseteq> x_open E x" for ord
    using assms by (simp_all add: documented_def)
  then have "x_open E (deal E e x) \<subseteq> order_key ` set (orders_of [e]) \<union> x_open E x"
    by (cases e) simp_all
  moreover have "set (orders_of (e # es)) = set (orders_of [e]) \<union> set (orders_of es)"
    by (cases e) simp_all
  ultimately show ?case
    using Cons [of "deal E e x"] unfolding fold_simps(2) by (simp only: image_Un) blast
qed simp

lemma documented_report:
  assumes "documented E" and "x_report E j x = Some y"
  obtains n where "n \<in> x_open E x" and "about j n" and "x_open E y \<subseteq> x_open E x"
    and "closing j \<Longrightarrow> x_open E y \<subseteq> x_open E x - {n}"
proof -
  obtain n where "n \<in> x_open E x" "about j n" "x_open E y \<subseteq> (if closing j then x_open E x - {n} else x_open E x)"
    using assms unfolding documented_def by metis
  then show thesis
    using that [of n] by (auto split: if_splits)
qed

lemma documented_repeat:
  assumes "documented E" and "x_repeat E j x" and "\<not> status_is j ''CANCELED''"
  obtains pair n where "(pair, n) \<notin> x_open E x" and "getitem j ''s'' = Inr (JStr pair)" and "getitem j ''c'' = Inr (JStr n)"
proof -
  obtain m where "m \<notin> x_open E x" "about j m"
    using assms unfolding documented_def by metis
  then show thesis
    using that assms(3) by (cases m) auto
qed

section \<open>The world of a currency\<close>

record 'x world =
  w_coin :: symbol_data
  w_exch :: 'x
  w_timers :: timers

text \<open>The script has just been given its list of currencies, and has made a timer for each.\<close>

definition world0 :: "string \<Rightarrow> 'x \<Rightarrow> 'x world" where
  "world0 coin x =
     \<lparr>w_coin = SymbolData coin, w_exch = x, w_timers = timer_call (CreateTimer (compl_timer coin)) Map.empty\<rparr>"

text \<open>One event is handled: its calls go to the exchange and to the timers, in their order.\<close>

definition react :: "'x exchange \<Rightarrow> sd_event \<Rightarrow> 'x world \<Rightarrow> 'x world" where
  "react E ev w =
     (case sd_handle ev (w_coin w) of (s, es, _) \<Rightarrow>
        \<lparr>w_coin = s, w_exch = fold (deal E) es (w_exch w), w_timers = fold timer_call es (w_timers w)\<rparr>)"

lemma react_simps [simp]:
  "w_coin (react E ev w) = state_of (sd_handle ev (w_coin w))"
  "w_exch (react E ev w) = fold (deal E) (effects_of (sd_handle ev (w_coin w))) (w_exch w)"
  "w_timers (react E ev w) = fold timer_call (effects_of (sd_handle ev (w_coin w))) (w_timers w)"
  by (simp_all add: react_def split_beta)

text \<open>The user, the web client and the prices may act at any time; a report comes from the exchange and
  a timeout from a timer that has run out.\<close>

fun free_event :: "sd_event \<Rightarrow> bool" where
  "free_event (Report j) = False"
| "free_event Timeout = False"
| "free_event _ = True"

datatype happening = Arrive sd_event | Repeat json | Elapse

inductive wstep :: "'x exchange \<Rightarrow> string \<Rightarrow> 'x world \<Rightarrow> happening \<Rightarrow> 'x world \<Rightarrow> bool"
  for E :: "'x exchange" and coin :: string
where
  asked: "free_event ev \<Longrightarrow> wstep E coin w (Arrive ev) (react E ev w)"
| reported: "x_report E j (w_exch w) = Some x \<Longrightarrow>
    wstep E coin w (Arrive (Report j)) (react E (Report j) (w\<lparr>w_exch := x\<rparr>))"
| repeated: "x_repeat E j (w_exch w) \<Longrightarrow> getitem j ''s'' = Inr (JStr (coin @ ''USDT'')) \<Longrightarrow>
    wstep E coin w (Repeat j) (react E (Report j) w)"
| elapsed: "w_timers w (compl_timer coin) = Some t \<Longrightarrow> t_waiting t \<Longrightarrow>
    wstep E coin w Elapse (w\<lparr>w_timers := on_timer (compl_timer coin) timer_elapse (w_timers w)\<rparr>)"
| called: "w_timers w (compl_timer coin) = Some t \<Longrightarrow> 0 < t_due t \<Longrightarrow>
    u = react E Timeout (w\<lparr>w_timers := on_timer (compl_timer coin) timer_called (w_timers w)\<rparr>) \<Longrightarrow>
    wstep E coin w (Arrive Timeout) (u\<lparr>w_timers := on_timer (compl_timer coin) timer_again (w_timers u)\<rparr>)"

inductive_cases wstep_Elapse: "wstep E coin w Elapse w'"
inductive_cases wstep_Arrive: "wstep E coin w (Arrive ev) w'"

text \<open>The worlds reachable by happenings that \<open>P\<close> allows in the world in which they happen.\<close>

inductive wreach :: "'x exchange \<Rightarrow> string \<Rightarrow> ('x world \<Rightarrow> happening \<Rightarrow> bool) \<Rightarrow> 'x world \<Rightarrow> 'x world \<Rightarrow> bool"
  for E :: "'x exchange" and coin :: string and P :: "'x world \<Rightarrow> happening \<Rightarrow> bool" and w0 :: "'x world"
where
  wreach_init: "wreach E coin P w0 w0"
| wreach_step: "wreach E coin P w0 w \<Longrightarrow> wstep E coin w h w' \<Longrightarrow> P w h \<Longrightarrow> wreach E coin P w0 w'"

lemma wreach_weaken: "wreach E coin P w0 w \<Longrightarrow> (\<And>w h. P w h \<Longrightarrow> Q w h) \<Longrightarrow> wreach E coin Q w0 w"
  by (induction rule: wreach.induct) (auto intro: wreach.intros)

lemma wreach_inv:
  assumes "wreach E coin P w0 w" and "I w0"
    and "\<And>w h w'. I w \<Longrightarrow> wstep E coin w h w' \<Longrightarrow> P w h \<Longrightarrow> I w'"
  shows "I w"
  using assms(1) by (induction rule: wreach.induct) (auto intro: assms(2,3))

lemma wstep_sd_inv:
  assumes "wstep E coin w h w'" and "sd_inv coin (w_coin w)"
  shows "sd_inv coin (w_coin w')"
  using assms(1) sd_events.inv_event [OF assms(2)] assms(2) by (cases rule: wstep.cases) (auto simp del: sd_handle.simps)

section \<open>What is open at the exchange\<close>

definition waited_orders :: "symbol_data \<Rightarrow> (string \<times> string) set" where
  "waited_orders s = (case order_out (phase_of s) of None \<Rightarrow> {} | Some i \<Rightarrow> {order_key (sd_orders s ! i)})"

lemma waited_key:
  assumes "sd_inv coin s" and "order_out (phase_of s) = Some i"
  shows "waited_orders s = {(coin @ ''USDT'', named i s)}"
proof -
  have "i < 2"
    using sd_invD(3,5) [OF assms(1)] assms(2) by (auto elim!: phase_cases)
  then show ?thesis
    using sd_invD(2) [OF assms(1)] assms(2)
    by (simp add: waited_orders_def order_key_def named_def data_ok_def order_ok_def)
qed

lemma cycle_ends:
  assumes "cycle (p, c, n) x a (p', c', n')" and "order_out p = Some i" and "order_out p' = None" and "x \<noteq> Expire"
  obtains (filled) "x = Answer ''FILLED'' True" and "p = Open i"
    | (deleted) m k where "x = Answer ''CANCELED'' m" and "p = Cancelling i k"
  using assms by (cases rule: cycle.cases) auto

lemma stimulus_answer:
  assumes "stimulus_of ev s = Answer x m" and "x \<noteq> []"
  obtains j where "ev = Report j" and "status_is j x"
    and "m \<longleftrightarrow> getitem j ''c'' = Inr (JStr (o_newClientOrderId (current_order s)))"
  using assms by (cases ev) (auto simp: answer_def status_is_def split: sum.splits json.splits prod.splits if_splits)

text \<open>An order that was waited for and is no longer was ended by a report, unless a timeout gave it up.\<close>

lemma stimulus_quiet: "ev \<noteq> Timeout \<Longrightarrow> stimulus_of ev s \<noteq> Expire"
  by (cases ev) (auto simp: answer_def split: sum.splits prod.splits)

lemma wait_ends:
  assumes "sd_inv coin s" and "order_out (phase_of s) = Some i"
    and "order_out (phase_of (state_of (sd_handle ev s))) = None" and "ev \<noteq> Timeout"
  obtains (filled) j where "ev = Report j" and "status_is j ''FILLED''" and "getitem j ''c'' = Inr (JStr (named i s))"
    | (deleted) j k where "ev = Report j" and "status_is j ''CANCELED''" and "phase_of s = Cancelling i k"
proof -
  obtain a where a: "cycle (abs_sd s) (stimulus_of ev s) a (abs_sd (state_of (sd_handle ev s)))"
    using refines_step [OF assms(1)] by blast
  note stimulus_quiet [OF assms(4)]
  from a [unfolded abs_sd_def] assms(2,3) this show thesis
  proof (cases rule: cycle_ends)
    case filled
    have "sd_step s = i"
      using sd_invD(3) [OF assms(1)] filled(2) by (auto elim: phase_cases)
    then show thesis
      using stimulus_answer [OF filled(1)] that(1) by (auto simp: named_def current_order_def)
  next
    case (deleted m k)
    then show thesis
      using stimulus_answer [OF deleted(1)] that(2) by auto
  qed
qed

text \<open>The open orders before an event is handled: what the exchange did just before with a first report, and
  what is known of a report that comes again.\<close>

definition stale :: "string \<Rightarrow> symbol_data \<Rightarrow> json \<Rightarrow> (string \<times> string) set \<Rightarrow> bool" where
  "stale coin s j Y \<longleftrightarrow>
     (if status_is j ''CANCELED'' then \<forall>i k. phase_of s \<noteq> Cancelling i k
      else \<exists>n. getitem j ''c'' = Inr (JStr n) \<and> (coin @ ''USDT'', n) \<notin> Y)"

definition delivered ::
    "string \<Rightarrow> symbol_data \<Rightarrow> sd_event \<Rightarrow> (string \<times> string) set \<Rightarrow> (string \<times> string) set \<Rightarrow> bool" where
  "delivered coin s ev X Y \<longleftrightarrow>
     Y \<subseteq> X \<and> (\<forall>j. ev = Report j \<longrightarrow> closing j \<longrightarrow> (\<exists>n \<in> X. Y \<subseteq> X - {n}) \<or> stale coin s j Y)"

lemma event_open:
  assumes "sd_inv coin s" and "ev \<noteq> Timeout" and "delivered coin s ev X Y" and "X \<subseteq> waited_orders s"
  shows "order_key ` set (orders_of (effects_of (sd_handle ev s))) \<union> Y \<subseteq> waited_orders (state_of (sd_handle ev s))"
proof -
  let ?t = "state_of (sd_handle ev s)" and ?es = "effects_of (sd_handle ev s)"
  obtain a where a: "cycle (abs_sd s) (stimulus_of ev s) a (abs_sd ?t)" "carries a ?t ?es" "sd_inv coin ?t"
    using refines_step [OF assms(1)] by blast
  have now: "Y \<subseteq> waited_orders s"
    using assms(3,4) by (auto simp: delivered_def)
  show ?thesis
  proof (cases "\<exists>k. a = Place k")
    case True
    then obtain k where k: "a = Place k"
      by blast
    have "order_out (phase_of s) = None" "phase_of ?t = Submitted k"
      using a(1) unfolding k abs_sd_def by (cases rule: cycle.cases; auto)+
    moreover have "orders_of ?es = [sd_orders ?t ! k]"
      using a(2) by (simp add: k)
    ultimately show ?thesis
      using now by (simp add: waited_orders_def)
  next
    case False
    then have none: "orders_of ?es = []"
      using a(2) by (cases a) auto
    show ?thesis
    proof (cases "order_out (phase_of s)")
      case None
      then show ?thesis
        using none now by (auto simp: waited_orders_def)
    next
      case (Some i)
      show ?thesis
      proof (cases "order_out (phase_of ?t)")
        case None
        have sub: "Y \<subseteq> {(coin @ ''USDT'', named i s)}" and key: "waited_orders s = {(coin @ ''USDT'', named i s)}"
          using now waited_key [OF assms(1) Some] by simp_all
        from assms(1) Some None assms(2) have "Y = {}"
        proof (cases rule: wait_ends)
          case (filled j)
          then have "(\<exists>n \<in> X. Y \<subseteq> X - {n}) \<or> stale coin s j Y" "\<not> status_is j ''CANCELED''"
            using assms(3) by (auto simp: delivered_def closing_def status_is_def)
          then show ?thesis
            using assms(4) filled(3) sub unfolding key by (auto simp: stale_def)
        next
          case (deleted j k)
          then have "(\<exists>n \<in> X. Y \<subseteq> X - {n}) \<or> stale coin s j Y"
            using assms(3) by (auto simp: delivered_def closing_def)
          then show ?thesis
            using assms(4) deleted(2,3) unfolding key by (auto simp: stale_def)
        qed
        then show ?thesis
          using none by simp
      next
        case k: (Some k)
        show ?thesis
          using none now out_keeps_name [OF assms(1) Some k] waited_key [OF assms(1) Some] waited_key [OF a(3) k] by simp
      qed
    qed
  qed
qed

lemma react_open:
  assumes "documented E" and "sd_inv coin (w_coin w)" and "ev \<noteq> Timeout"
    and "delivered coin (w_coin w) ev X (x_open E (w_exch w))" and "X \<subseteq> waited_orders (w_coin w)"
  shows "x_open E (w_exch (react E ev w)) \<subseteq> waited_orders (w_coin (react E ev w))"
  using deal_open [OF assms(1), of "effects_of (sd_handle ev (w_coin w))" "w_exch w"] event_open [OF assms(2-5)]
  unfolding react_simps by blast

text \<open>No timeout gives an order up, and no report of an earlier deletion comes again while another is awaited.\<close>

fun orderly :: "'x world \<Rightarrow> happening \<Rightarrow> bool" where
  "orderly w (Arrive ev) \<longleftrightarrow> ev \<noteq> Timeout"
| "orderly w (Repeat j) \<longleftrightarrow> \<not> (status_is j ''CANCELED'' \<and> (\<exists>i k. phase_of (w_coin w) = Cancelling i k))"
| "orderly w Elapse \<longleftrightarrow> True"

lemma repeat_stale:
  assumes "documented E" and "x_repeat E j x" and "getitem j ''s'' = Inr (JStr (coin @ ''USDT''))"
    and "\<not> (status_is j ''CANCELED'' \<and> (\<exists>i k. phase_of s = Cancelling i k))"
  shows "stale coin s j (x_open E x)"
proof (cases "status_is j ''CANCELED''")
  case True
  then show ?thesis
    using assms(4) by (simp add: stale_def)
next
  case False
  obtain pair n where "(pair, n) \<notin> x_open E x" "getitem j ''s'' = Inr (JStr pair)" "getitem j ''c'' = Inr (JStr n)"
    by (rule documented_repeat [OF assms(1,2) False])
  then show ?thesis
    using assms(3) False by (simp add: stale_def)
qed

lemma wstep_open:
  assumes "documented E" and "wstep E coin w h w'" and "sd_inv coin (w_coin w)" and "orderly w h"
    and "x_open E (w_exch w) \<subseteq> waited_orders (w_coin w)"
  shows "x_open E (w_exch w') \<subseteq> waited_orders (w_coin w')"
  using assms(2)
proof (cases rule: wstep.cases)
  case (asked ev)
  then have "ev \<noteq> Timeout" "delivered coin (w_coin w) ev (x_open E (w_exch w)) (x_open E (w_exch w))"
    by (cases ev; simp add: delivered_def)+
  then show ?thesis
    using react_open [OF assms(1,3)] assms(5) asked by simp
next
  case (reported j x)
  obtain n where "n \<in> x_open E (w_exch w)" "x_open E x \<subseteq> x_open E (w_exch w)"
    "closing j \<Longrightarrow> x_open E x \<subseteq> x_open E (w_exch w) - {n}"
    by (rule documented_report [OF assms(1) reported(3)]) blast
  then have "delivered coin (w_coin w) (Report j) (x_open E (w_exch w)) (x_open E x)"
    by (auto simp: delivered_def)
  then show ?thesis
    using react_open [OF assms(1), of coin "w\<lparr>w_exch := x\<rparr>" "Report j" "x_open E (w_exch w)"] assms(3,5) reported by simp
next
  case (repeated j)
  have "delivered coin (w_coin w) (Report j) (x_open E (w_exch w)) (x_open E (w_exch w))"
    using repeat_stale [OF assms(1) repeated(3,4)] assms(4) repeated(1) by (simp add: delivered_def)
  then show ?thesis
    using react_open [OF assms(1,3), of "Report j" "x_open E (w_exch w)"] assms(5) repeated(2) by simp
qed (use assms(4,5) in simp_all)

lemma one_order:
  assumes "documented E" and "x_open E x0 = {}" and "wreach E coin orderly (world0 coin x0) w"
  shows "sd_inv coin (w_coin w) \<and> x_open E (w_exch w) \<subseteq> waited_orders (w_coin w)"
  using assms(3)
proof (rule wreach_inv)
  show "sd_inv coin (w_coin (world0 coin x0)) \<and> x_open E (w_exch (world0 coin x0)) \<subseteq> waited_orders (w_coin (world0 coin x0))"
    using sd_inv_init assms(2) by (simp add: world0_def)
qed (use wstep_sd_inv wstep_open [OF assms(1)] in blast)

section \<open>The timer\<close>

lemma stops_only:
  "set es \<subseteq> {StopTimer name} \<Longrightarrow> ts name = Some t \<Longrightarrow>
   fold timer_call es ts name = Some (if es = [] then t else timer_stop t)"
proof (induction es arbitrary: ts t)
  case (Cons e es)
  then show ?case
    using Cons.IH [of "timer_call e ts" "timer_stop t"] by (auto simp: timer_stop_def)
qed simp

text \<open>What an event does to the currency's timer.\<close>

lemma react_timer:
  fixes E :: "'x exchange" and ev
  assumes "sd_inv coin (w_coin w)" and "w_timers w (compl_timer coin) = Some t"
  defines "u \<equiv> react E ev w"
  obtains (started) k where "phase_of (w_coin u) = Submitted k"
      and "w_timers u (compl_timer coin) = Some (timer_start 5 False t)"
      and "orders_of (effects_of (sd_handle ev (w_coin w))) \<noteq> []"
    | (stopped) "w_timers u (compl_timer coin) = Some (timer_stop t)" and "\<forall>k. phase_of (w_coin u) \<noteq> Submitted k"
    | (kept) "w_timers u (compl_timer coin) = Some t"
      and "supervised (phase_of (w_coin w)) \<longrightarrow> supervised (phase_of (w_coin u))"
      and "\<forall>k. phase_of (w_coin u) = Submitted k \<longrightarrow> phase_of (w_coin w) = Submitted k"
proof -
  let ?s = "w_coin w" and ?t = "state_of (sd_handle ev (w_coin w))" and ?es = "effects_of (sd_handle ev (w_coin w))"
  have u: "w_coin u = ?t" "w_timers u = fold timer_call (timing ?es) (w_timers w)"
    by (simp_all add: u_def timing_calls del: sd_handle.simps)
  obtain a where a: "cycle (abs_sd ?s) (stimulus_of ev ?s) a (abs_sd ?t)" "carries a ?t ?es"
    using refines_step [OF assms(1)] by blast
  note w = sd_handle_watches [OF assms(1), of ev]
  show thesis
  proof (cases "orders_of ?es = []")
    case False
    then obtain k where k: "a = Place k"
      using a(2) by (cases a) auto
    have "phase_of ?t = Submitted k"
      using a(1) unfolding k abs_sd_def by (cases rule: cycle.cases; auto)
    then show thesis
      using w False assms(2) by (intro started) (simp_all add: watches_def u del: sd_handle.simps)
  next
    case True
    with w have t: "set (timing ?es) \<subseteq> {StopTimer (compl_timer coin)}"
      "\<forall>k. phase_of ?t = Submitted k \<longrightarrow> timing ?es = []"
      "supervised (phase_of ?s) \<longrightarrow> \<not> supervised (phase_of ?t) \<longrightarrow> timing ?es \<noteq> []"
      by (simp_all add: watches_def)
    note run = stops_only [OF t(1), of "w_timers w" t, OF assms(2)]
    have "phase_of ?s = Submitted k" if "phase_of ?t = Submitted k" for k
      using a that True unfolding abs_sd_def by (cases rule: cycle.cases) auto
    then show thesis
      using run t(2,3) stopped kept by (cases "timing ?es = []") (auto simp: u simp del: sd_handle.simps)
  qed
qed

text \<open>While an order is unconfirmed its timer runs or has run out; a timer that runs watches an order that is
  unconfirmed or is being deleted.\<close>

definition watched :: "string \<Rightarrow> 'x world \<Rightarrow> bool" where
  "watched coin w \<longleftrightarrow>
     (\<exists>t. w_timers w (compl_timer coin) = Some t \<and> \<not> t_periodic t \<and>
        ((\<exists>k. phase_of (w_coin w) = Submitted k) \<longrightarrow> t_waiting t \<or> 0 < t_due t) \<and>
        (t_waiting t \<longrightarrow> supervised (phase_of (w_coin w))))"

lemma timeout_idle: "sd_inv coin s \<Longrightarrow> phase_of (state_of (sd_handle Timeout s)) = Idle"
  using sd_on_order_complete_timeout_run(1) [OF sd_invD(1)] inv_timed_out(2) by simp

lemma react_watched:
  assumes "sd_inv coin (w_coin w)" and t: "w_timers w (compl_timer coin) = Some t" "\<not> t_periodic t"
    "t_waiting t \<longrightarrow> supervised (phase_of (w_coin w))"
    and "ev \<noteq> Timeout \<longrightarrow> (\<exists>k. phase_of (w_coin w) = Submitted k) \<longrightarrow> t_waiting t \<or> 0 < t_due t"
  shows "watched coin (react E ev w)"
proof -
  have "\<forall>k. phase_of (w_coin (react E Timeout w)) \<noteq> Submitted k"
    using timeout_idle [OF assms(1)] by simp
  note free = this
  from assms(1) t(1) show ?thesis
    by (cases rule: react_timer [where E = E and ev = ev])
       (use t(2,3) assms(5) free in \<open>auto simp: watched_def simp del: react_simps\<close>)
qed

lemma wstep_watched:
  assumes "wstep E coin w h w'" and "sd_inv coin (w_coin w)" and "watched coin w"
  shows "watched coin w'"
proof -
  obtain t where t: "w_timers w (compl_timer coin) = Some t" "\<not> t_periodic t"
    "t_waiting t \<longrightarrow> supervised (phase_of (w_coin w))"
    "(\<exists>k. phase_of (w_coin w) = Submitted k) \<longrightarrow> t_waiting t \<or> 0 < t_due t"
    using assms(3) by (auto simp: watched_def)
  show ?thesis
    using assms(1)
  proof (cases rule: wstep.cases)
    case (asked ev)
    then show ?thesis
      using react_watched [OF assms(2) t(1-3)] t(4) by simp
  next
    case (reported j x)
    then show ?thesis
      using react_watched [of coin "w\<lparr>w_exch := x\<rparr>" t "Report j"] assms(2) t by simp
  next
    case (repeated j)
    then show ?thesis
      using react_watched [OF assms(2) t(1-3)] t(4) by simp
  next
    case (elapsed t')
    then show ?thesis
      using t by (simp add: watched_def on_timer_same)
  next
    case (called t' u)
    define v where "v = w\<lparr>w_timers := on_timer (compl_timer coin) timer_called (w_timers w)\<rparr>"
    have "watched coin u"
      using react_watched [of coin v "timer_called t" Timeout E] assms(2) t
      unfolding called(5) v_def [symmetric] by (simp add: v_def on_timer_same)
    then obtain t2 where t2: "w_timers u (compl_timer coin) = Some t2" "\<not> t_periodic t2"
      by (auto simp: watched_def)
    then have "on_timer (compl_timer coin) timer_again (w_timers u) = w_timers u"
      by (auto simp: on_timer_def)
    then show ?thesis
      using \<open>watched coin u\<close> called(2) by simp
  qed
qed

lemma always_watched:
  assumes "wreach E coin P (world0 coin x0) w"
  shows "sd_inv coin (w_coin w) \<and> watched coin w"
  using assms
proof (rule wreach_inv)
  have "\<forall>k. phase_of (SymbolData coin) \<noteq> Submitted k"
    by (simp add: SymbolData_def phase_of_def)
  then show "sd_inv coin (w_coin (world0 coin x0)) \<and> watched coin (world0 coin x0)"
    using sd_inv_init by (simp add: world0_def watched_def)
qed (use wstep_sd_inv wstep_watched in blast)

section \<open>An order lost\<close>

definition lost :: "'x exchange \<Rightarrow> string \<Rightarrow> nat \<Rightarrow> 'x world \<Rightarrow> bool" where
  "lost E coin i w \<longleftrightarrow>
     (\<exists>k. phase_of (w_coin w) = Cancelling i k) \<and> x_open E (w_exch w) = {} \<and>
     (\<exists>t. w_timers w (compl_timer coin) = Some t \<and> silent t)"

lemma cycle_stuck:
  assumes "cycle (Cancelling i k, c, n) x a (p', c', n')" and "x \<noteq> Expire" and "\<And>m. x \<noteq> Answer ''CANCELED'' m"
  shows "\<exists>l. p' = Cancelling i l" and "a \<noteq> Place l"
  using assms by (cases rule: cycle.cases; auto)+

lemma react_silent:
  assumes "sd_inv coin (w_coin w)" and "w_timers w (compl_timer coin) = Some t" and "silent t"
    and "orders_of (effects_of (sd_handle ev (w_coin w))) = []"
  shows "\<exists>t'. w_timers (react E ev w) (compl_timer coin) = Some t' \<and> silent t'"
  using assms(1,2)
  by (cases rule: react_timer [where E = E and ev = ev])
     (use assms(3,4) in \<open>auto simp: silent_def simp del: react_simps sd_handle.simps\<close>)

lemma react_lost:
  assumes "documented E" and "sd_inv coin (w_coin w)" and "lost E coin i w"
    and "ev \<noteq> Timeout" and "\<And>j. ev = Report j \<Longrightarrow> \<not> status_is j ''CANCELED''"
  shows "lost E coin i (react E ev w)"
proof -
  let ?s = "w_coin w" and ?t = "state_of (sd_handle ev (w_coin w))" and ?es = "effects_of (sd_handle ev (w_coin w))"
  obtain k t where k: "phase_of ?s = Cancelling i k" and t: "w_timers w (compl_timer coin) = Some t" "silent t"
    using assms(3) by (auto simp: lost_def)
  obtain a where a: "cycle (abs_sd ?s) (stimulus_of ev ?s) a (abs_sd ?t)" "carries a ?t ?es"
    using refines_step [OF assms(2)] by blast
  have "stimulus_of ev ?s \<noteq> Expire" "stimulus_of ev ?s \<noteq> Answer ''CANCELED'' m" for m
    using stimulus_quiet [OF assms(4)] stimulus_answer [of ev ?s "''CANCELED''" m] assms(5) by auto
  note stuck = cycle_stuck [OF a(1) [unfolded abs_sd_def k] this]
  then have none: "orders_of ?es = []"
    using a(2) by (cases a) auto
  have "x_open E (w_exch (react E ev w)) = {}"
    using deal_open [OF assms(1), of ?es "w_exch w"] assms(3) by (simp add: none lost_def del: sd_handle.simps)
  moreover have "\<exists>t'. w_timers (react E ev w) (compl_timer coin) = Some t' \<and> silent t'"
    using react_silent [OF assms(2) t none] .
  ultimately show ?thesis
    using stuck(1) by (simp add: lost_def del: sd_handle.simps)
qed

lemma wreach_sd_inv: "wreach E coin P w w' \<Longrightarrow> sd_inv coin (w_coin w) \<Longrightarrow> sd_inv coin (w_coin w')"
  by (induction rule: wreach.induct) (auto intro: wstep_sd_inv)

text \<open>No report of an earlier deletion comes again.\<close>

fun no_late_deletion :: "happening \<Rightarrow> bool" where
  "no_late_deletion (Repeat j) \<longleftrightarrow> \<not> status_is j ''CANCELED''"
| "no_late_deletion _ \<longleftrightarrow> True"

lemma wstep_lost:
  assumes "documented E" and "wstep E coin w h w'" and "sd_inv coin (w_coin w)" and "lost E coin i w"
    and "no_late_deletion h"
  shows "lost E coin i w'"
  using assms(2)
proof (cases rule: wstep.cases)
  case (asked ev)
  then show ?thesis
    using react_lost [OF assms(1,3,4), of ev] by (cases ev) simp_all
next
  case (reported j x)
  obtain n where "n \<in> x_open E (w_exch w)"
    by (rule documented_report [OF assms(1) reported(3)]) blast
  then show ?thesis
    using assms(4) by (simp add: lost_def)
next
  case (repeated j)
  then show ?thesis
    using react_lost [OF assms(1,3,4), of "Report j"] assms(5) by simp
next
  case (elapsed t)
  then show ?thesis
    using assms(4) by (auto simp: lost_def silent_def)
next
  case (called t u)
  then show ?thesis
    using assms(4) by (auto simp: lost_def silent_def)
qed

lemma stays_lost:
  assumes "documented E" and "wreach E coin (\<lambda>_. no_late_deletion) w w'" and "sd_inv coin (w_coin w)" and "lost E coin i w"
  shows "sd_inv coin (w_coin w') \<and> lost E coin i w'"
  by (rule wreach_inv [OF assms(2)]) (use assms(3,4) wstep_sd_inv wstep_lost [OF assms(1)] in blast)+

end
