(* ===== verification/MarketProps.thy ===== *)
theory MarketProps
  imports Market
begin

text \<open>
  A run of one currency against a concrete exchange, what reports that come late or twice do, and the
  properties of a currency with its exchange and its timer.
\<close>

section \<open>An exchange and a run\<close>

text \<open>An exchange that takes every order and keeps a list of those that are open.\<close>

definition book :: "(string \<times> string) list exchange" where
  "book =
     \<lparr>x_open = set, x_take = (\<lambda>ord x. order_key ord # x), x_cancel = (\<lambda>ord x. x),
      x_report = (\<lambda>j x. case find (about j) x of None \<Rightarrow> None | Some n \<Rightarrow> Some (if closing j then removeAll n x else x)),
      x_repeat = (\<lambda>j x. status_is j ''CANCELED'')\<rparr>"

lemma book_simps [simp]:
  "x_open book = set" "x_take book ord x = order_key ord # x" "x_cancel book ord x = x"
  "x_repeat book j x \<longleftrightarrow> status_is j ''CANCELED''"
  "x_report book j [n] = (if about j n then Some (if closing j then [] else [n]) else None)"
  by (simp_all add: book_def)

lemma documented_book: "documented book"
  unfolding documented_def
proof (intro conjI allI impI)
  fix j x y
  assume "x_report book j x = Some y"
  then obtain n where "find (about j) x = Some n" "y = (if closing j then removeAll n x else x)"
    by (auto simp: book_def split: option.splits)
  then have "n \<in> set x" "about j n" "set y \<subseteq> (if closing j then set x - {n} else set x)"
    by (auto simp: find_Some_iff)
  then show "\<exists>n \<in> x_open book x. about j n \<and> x_open book y \<subseteq> (if closing j then x_open book x - {n} else x_open book x)"
    by (intro bexI [of _ n]) auto
qed auto

lemma book_deals: "fold (deal book) es x = rev (map order_key (orders_of es)) @ x"
  by (induction es arbitrary: x rule: orders_of.induct) auto

definition wrun :: "'x exchange \<Rightarrow> sd_event list \<Rightarrow> 'x world \<Rightarrow> 'x world" where
  "wrun E evs = fold (react E) evs"

lemma wrun_coin: "w_coin (wrun E evs w) = fst (run_events sd_handle evs (w_coin w))"
  by (induction evs arbitrary: w) (simp_all add: wrun_def split_beta del: sd_handle.simps)

lemma wrun_reach:
  "wreach E coin P w0 w \<Longrightarrow> list_all (\<lambda>ev. free_event ev \<and> (\<forall>w. P w (Arrive ev))) evs \<Longrightarrow> wreach E coin P w0 (wrun E evs w)"
  by (induction evs arbitrary: w) (auto simp: wrun_def intro: wreach_step asked)

lemma wrun_snoc: "wrun E (evs @ [ev]) w = react E ev (wrun E evs w)"
  by (simp add: wrun_def)

text \<open>The example up to its first order, and then: the order is confirmed, the user stops trading, and
  the order is filled before the request to delete it arrives.\<close>

definition demo_world :: "sd_event list \<Rightarrow> (string \<times> string) list world" where
  "demo_world evs = wrun book evs (world0 ''BTC'' [])"

lemma demo_world_coin [simp]: "w_coin (demo_world evs) = demo evs"
  by (simp add: demo_world_def wrun_coin demo_def world0_def)

lemma demo_world_reach:
  "list_all (\<lambda>ev. free_event ev \<and> (\<forall>w. P w (Arrive ev))) evs \<Longrightarrow> wreach book ''BTC'' P (world0 ''BTC'' []) (demo_world evs)"
  unfolding demo_world_def by (rule wrun_reach) (rule wreach_init)

lemma D4_free: "list_all (\<lambda>ev. free_event ev \<and> (\<forall>w. orderly w (Arrive ev))) D4"
  by (simp add: D4_def D3_def D2_def D1_def)

lemma D4_snoc: "D4 = D3 @ [Price (dollars 101)]" "list_all (\<lambda>ev. free_event ev \<and> (\<forall>w. orderly w (Arrive ev))) D3"
  by (simp_all add: D4_def D3_def D2_def D1_def)

lemma demo_D3_phase: "phase_of (demo D3) = Armed 0"
  using sd_invD(3) [OF demo_inv [of D3]] demo_D3_simps(3,4) by (auto elim: phase_cases)

lemma demo_world_D3: "w_exch (demo_world D3) = []"
  using one_order [OF documented_book _ demo_world_reach [OF D4_snoc(2)]] demo_D3_phase by (simp add: waited_orders_def)

text \<open>The first order of the example.\<close>

definition demo_key :: "string \<times> string" where
  "demo_key = (''BTCUSDT'', order_id 0 ''BTC'' 0)"

lemma demo_placed_key: "order_key (placed_order (demo D3)) = demo_key"
  using sd_invD(2) [OF demo_inv [of D3]]
  by (simp add: placed_order_def demo_key_def order_key_def data_ok_def order_ok_def current_order_def)
     (simp add: demo_D3 demo_D2 price_in_def started_def)

lemma demo_world_D4: "w_exch (demo_world D4) = [demo_key]"
proof -
  have "demo_world D4 = react book (Price (dollars 101)) (demo_world D3)"
    unfolding D4_snoc(1) demo_world_def wrun_snoc ..
  then show ?thesis
    using demo_fires by (simp add: book_deals demo_world_D3 demo_placed_key)
qed

definition demo_report :: "string \<Rightarrow> json" where
  "demo_report x = rest_report ''BTCUSDT'' x (order_id 0 ''BTC'' 0) ''GTC'' ''BUY'' ''LIMIT''"

lemma demo_report_simps [simp]:
  "about (demo_report x) demo_key" "status_is (demo_report x) y \<longleftrightarrow> x = y"
  "getitem (demo_report x) ''X'' = Inr (JStr x)" "getitem (demo_report x) ''s'' = Inr (JStr ''BTCUSDT'')"
  by (auto simp: demo_key_def demo_report_def rest_report_def status_is_def dict_get_def)

definition W5 :: "(string \<times> string) list world" where
  "W5 = react book (Report (demo_report ''NEW'')) (demo_world D4)"

definition W6 :: "(string \<times> string) list world" where
  "W6 = react book (TradeRun (demo_run ''stop'')) W5"

definition W7 :: "(string \<times> string) list world" where
  "W7 = react book (Report (demo_report ''FILLED'')) (W6\<lparr>w_exch := []\<rparr>)"

lemma demo_confirm:
  "phase_of (state_of (sd_on_order_report (demo_report ''NEW'') (demo D4))) = Open 0"
  "orders_of (effects_of (sd_on_order_report (demo_report ''NEW'') (demo D4))) = []"
proof -
  let ?t = "state_of (sd_on_order_report (demo_report ''NEW'') (demo D4))"
  have "answer (demo_report ''NEW'') (demo D4) = Answer ''NEW'' True"
    by (simp add: answer_def demo_D4_current) (simp add: demo_report_def rest_report_def dict_get_def)
  then obtain a where "cycle (abs_sd (demo D4)) (Answer ''NEW'' True) a (abs_sd ?t)"
    using refines_step [OF demo_inv, of D4 "Report (demo_report ''NEW'')"] by auto
  then show "phase_of ?t = Open 0"
    using demo_D4_phase(1) unfolding abs_sd_def by (cases rule: cycle.cases) auto
  show "orders_of (effects_of (sd_on_order_report (demo_report ''NEW'') (demo D4))) = []"
    using report_asks_nothing [OF demo_inv, of D4] demo_D4_phase(1) by simp
qed

lemma W5_phase: "phase_of (w_coin W5) = Open 0"
  using demo_confirm(1) by (simp add: W5_def)

lemma W5_inv: "sd_inv ''BTC'' (w_coin W5)"
  using sd_events.inv_event [OF demo_inv [of D4], of "Report (demo_report ''NEW'')"] by (simp add: W5_def)

lemma W5_stop:
  "phase_of (w_coin W6) = Cancelling 0 0"
  "orders_of (effects_of (sd_on_trade_run (demo_run ''stop'') (w_coin W5))) = []"
  using order_out_request(1) [OF W5_inv, of 0 "demo_run ''stop''" False "JStr ''BUY''"] demo_request [of "''stop''"]
    out_step(2) [OF W5_inv, of 0 "TradeRun (demo_run ''stop'')"] W5_phase by (simp_all add: W6_def)

text \<open>A timer that never runs out has nothing queued.\<close>

lemma never_due:
  assumes "wreach E coin P (world0 coin x0) w" and "\<And>w. \<not> P w Elapse"
  shows "sd_inv coin (w_coin w) \<and> (\<exists>t. w_timers w (compl_timer coin) = Some t \<and> t_due t = 0)"
  using assms(1)
proof (rule wreach_inv)
  show "sd_inv coin (w_coin (world0 coin x0)) \<and> (\<exists>t. w_timers (world0 coin x0) (compl_timer coin) = Some t \<and> t_due t = 0)"
    using sd_inv_init by (simp add: world0_def)
next
  fix w h w'
  assume w: "sd_inv coin (w_coin w) \<and> (\<exists>t. w_timers w (compl_timer coin) = Some t \<and> t_due t = 0)"
    and step: "wstep E coin w h w'" "P w h"
  then obtain t where t: "w_timers w (compl_timer coin) = Some t" "t_due t = 0"
    by blast
  have "\<exists>t. w_timers (react E ev (w\<lparr>w_exch := x\<rparr>)) (compl_timer coin) = Some t \<and> t_due t = 0" for ev x
    by (rule react_timer [of coin "w\<lparr>w_exch := x\<rparr>" t E ev]) (use w t in simp_all)
  note react = this [of _ "w_exch w"] this
  from step(1) have "\<exists>t. w_timers w' (compl_timer coin) = Some t \<and> t_due t = 0"
    by (cases rule: wstep.cases) (use react t step(2) assms(2) in \<open>simp_all del: react_simps\<close>)
  then show "sd_inv coin (w_coin w') \<and> (\<exists>t. w_timers w' (compl_timer coin) = Some t \<and> t_due t = 0)"
    using w wstep_sd_inv [OF step(1)] by simp
qed

definition punctual :: "'x world \<Rightarrow> happening \<Rightarrow> bool" where
  "punctual w h \<longleftrightarrow> orderly w h \<and> h \<noteq> Elapse"

lemma punctual_simps [simp]: "\<not> punctual w Elapse" "punctual w (Arrive ev) \<longleftrightarrow> ev \<noteq> Timeout"
  by (simp_all add: punctual_def)

lemma W5_reach: "wreach book ''BTC'' punctual (world0 ''BTC'' []) W5"
proof -
  have D4: "wreach book ''BTC'' punctual (world0 ''BTC'' []) (demo_world D4)"
    by (rule demo_world_reach) (simp add: D4_def D3_def D2_def D1_def)
  have "x_report book (demo_report ''NEW'') (w_exch (demo_world D4)) = Some (w_exch (demo_world D4))"
    by (simp add: demo_world_D4 closing_def)
  from wstep.reported [where coin = "''BTC''", OF this]
  have "wstep book ''BTC'' (demo_world D4) (Arrive (Report (demo_report ''NEW''))) W5"
    by (simp add: W5_def)
  from wreach_step [OF D4 this] show ?thesis
    by simp
qed

lemma W6_reach: "wreach book ''BTC'' punctual (world0 ''BTC'' []) W6"
  using wreach_step [OF W5_reach asked [of "TradeRun (demo_run ''stop'')"]] by (simp add: W6_def)

lemma W6_exch: "w_exch W6 = [demo_key]"
  using demo_confirm(2) W5_stop(2) by (simp add: W6_def book_deals) (simp add: W5_def book_deals demo_world_D4)

lemma W6_silent: "\<exists>t. w_timers W6 (compl_timer ''BTC'') = Some t \<and> silent t"
proof -
  obtain t where t: "w_timers W5 (compl_timer ''BTC'') = Some t" "t_due t = 0"
    using never_due [OF W5_reach punctual_simps(1)] by blast
  moreover have "\<not> t_waiting t"
    using always_watched [OF W5_reach] t(1) W5_phase by (simp add: watched_def)
  ultimately show ?thesis
    using react_silent [of "''BTC''" W5 t "TradeRun (demo_run ''stop'')" book] W5_inv W5_stop(2)
    by (simp add: silent_def W6_def)
qed

text \<open>A wait that has run out is not called back: an order that is confirmed after its timer ran out and
  before the timeout is called is given up although it is confirmed, and stays open at the exchange.\<close>

lemma late_timeout:
  "\<exists>w w'. wreach book ''BTC'' (\<lambda>_ _. True) (world0 ''BTC'' []) w \<and> phase_of (w_coin w) = Open 0 \<and>
     wstep book ''BTC'' w (Arrive Timeout) w' \<and> phase_of (w_coin w') = Idle \<and> x_open book (w_exch w') = {demo_key}"
proof -
  define P :: "(string \<times> string) list world \<Rightarrow> happening \<Rightarrow> bool" where "P = (\<lambda>_ _. True)"
  define name where "name = compl_timer ''BTC''"
  let ?w4 = "demo_world D4"
  have D4: "wreach book ''BTC'' Q (world0 ''BTC'' []) ?w4" if "Q = punctual \<or> Q = P" for Q
    using that by (intro demo_world_reach) (auto simp: D4_def D3_def D2_def D1_def P_def)
  obtain t where t: "w_timers ?w4 name = Some t" "t_due t = 0"
    using never_due [OF D4, of punctual] by (auto simp: name_def)
  have "t_waiting t"
    using always_watched [OF D4, of punctual] t demo_D4_phase by (auto simp: watched_def name_def)
  define u where "u = ?w4\<lparr>w_timers := on_timer name timer_elapse (w_timers ?w4)\<rparr>"
  have u: "wreach book ''BTC'' P (world0 ''BTC'' []) u"
    using wreach_step [OF D4 [of P] elapsed] t(1) \<open>t_waiting t\<close> by (simp add: u_def name_def P_def)
  define w where "w = react book (Report (demo_report ''NEW'')) u"
  have "x_report book (demo_report ''NEW'') (w_exch u) = Some (w_exch u)"
    by (simp add: u_def demo_world_D4 closing_def)
  from wstep.reported [where coin = "''BTC''", OF this]
  have "wstep book ''BTC'' u (Arrive (Report (demo_report ''NEW''))) w"
    by (simp add: w_def)
  from wreach_step [OF u this] have w: "wreach book ''BTC'' P (world0 ''BTC'' []) w"
    by (simp add: P_def)
  have coin: "w_coin w = w_coin W5"
    by (simp add: w_def u_def W5_def)
  have exch: "w_exch w = [demo_key]"
    using demo_confirm(2) by (simp add: w_def u_def book_deals demo_world_D4)
  have tu: "sd_inv ''BTC'' (w_coin u)" "w_timers u (compl_timer ''BTC'') = Some (timer_elapse t)"
    using t demo_inv by (simp_all add: u_def name_def on_timer_same)
  have "\<exists>t'. w_timers w name = Some t' \<and> 0 < t_due t'"
    using tu unfolding name_def w_def
    by (cases rule: react_timer [where E = book and ev = "Report (demo_report ''NEW'')"]) simp_all
  then obtain t' where t': "w_timers w name = Some t'" "0 < t_due t'"
    by blast
  have gone: "x_open book (w_exch (react book Timeout v)) = {demo_key}" if "w_exch v = w_exch w" "w_coin v = w_coin w" for v
    using that exch sd_on_order_complete_timeout_run(2) [OF sd_invD(1) [OF W5_inv]] by (simp add: coin book_deals)
  have stopped: "phase_of (w_coin (react book Timeout v)) = Idle" if "w_coin v = w_coin w" for v
    using that timeout_idle [OF W5_inv] by (simp add: coin)
  have "\<exists>w'. wstep book ''BTC'' w (Arrive Timeout) w' \<and> phase_of (w_coin w') = Idle \<and>
      x_open book (w_exch w') = {demo_key}"
    by (intro exI conjI, rule called [OF t' [unfolded name_def] refl])
       (use gone stopped in \<open>simp_all del: react_simps\<close>)
  then show ?thesis
    using w W5_phase coin unfolding P_def by metis
qed

text \<open>Of a deletion the script hears twice.  When the second report arrives while the next deletion is awaited the
  machine forgets an order that is still open, and goes on: it may place another.\<close>

lemma late_deletion:
  assumes "sd_inv coin (w_coin w)" and "phase_of (w_coin w) = Cancelling i k" and "x_repeat E j (w_exch w)"
    and "getitem j ''s'' = Inr (JStr (coin @ ''USDT''))" and "status_is j ''CANCELED''"
  shows "\<exists>w'. wstep E coin w (Repeat j) w' \<and> waited_orders (w_coin w') = {} \<and> x_open E (w_exch w') = x_open E (w_exch w)"
proof (intro exI conjI)
  let ?s = "w_coin w" and ?t = "state_of (sd_handle (Report j) (w_coin w))" and ?es = "effects_of (sd_handle (Report j) (w_coin w))"
  show "wstep E coin w (Repeat j) (react E (Report j) w)"
    by (rule repeated) (rule assms)+
  obtain m where m: "stimulus_of (Report j) ?s = Answer ''CANCELED'' m"
    using assms(5) by (simp add: answer_def status_is_def)
  obtain a where a: "cycle (abs_sd ?s) (Answer ''CANCELED'' m) a (abs_sd ?t)" "carries a ?t ?es"
    using refines_step [OF assms(1), of "Report j"] unfolding m by blast
  then have "a = Tau" "order_out (phase_of ?t) = None"
    using assms(2) unfolding abs_sd_def by (cases rule: cycle.cases; auto)+
  then show "waited_orders (w_coin (react E (Report j) w)) = {}"
    by (simp add: waited_orders_def)
  have "fold (deal E) es x = x" if "orders_of es = []" "deleted_of es = []" for es and x
    using that by (induction es arbitrary: x rule: orders_of.induct) auto
  then show "x_open E (w_exch (react E (Report j) w)) = x_open E (w_exch w)"
    using a(2) \<open>a = Tau\<close> by (simp del: sd_handle.simps)
qed

text \<open>An order that is filled at once: the answer to the request says so, and the report the bot makes of it
  names no commission.  If it comes after the confirmation the settlement raises.\<close>

lemma rest_fill_unsettles:
  fixes coin s k f sd ty
  assumes "sd_inv coin s" and "phase_of s = Open k"
  defines "u \<equiv> sd_on_order_report (rest_report (coin @ ''USDT'') ''FILLED'' (named k s) f sd ty) s"
  shows "outcome_of u = Raised KeyError" and "phase_of (state_of u) = Unsettled (1 - k)" and "\<not> wait_order_act (state_of u)"
proof -
  define j where "j = rest_report (coin @ ''USDT'') ''FILLED'' (named k s) f sd ty"
  have "sd_step s = k"
    using sd_invD(3) [OF assms(1)] assms(2) by (auto elim: phase_cases)
  then have rep: "reports j ''FILLED'' s" and n: "getitem j ''N'' = Inl KeyError"
    by (simp_all add: reports_def j_def rest_report_def dict_get_def named_def current_order_def)
  note settle = settle_missing [OF report_fill(3) [OF assms(1,2) rep] n]
  note fill = report_fill(1,2) [OF assms(1,2) rep]
  show out: "outcome_of u = Raised KeyError"
    using fill settle by (simp add: u_def j_def)
  obtain a where a: "cycle (abs_sd s) (Answer ''FILLED'' True) a (abs_sd (state_of u))" "sd_inv coin (state_of u)"
    using refines_step [OF assms(1), of "Report j"] rep by (auto simp: answer_def reports_def u_def j_def)
  have "state_of u = filled (report_in j s)"
    using fill settle by (simp add: u_def j_def)
  then have "\<not> sd_wait_price (state_of u)"
    using sd_invD(3) [OF assms(1)] assms(2) by (auto simp: filled_def stepped_def report_in_def elim: phase_cases)
  then have free: "phase_of (state_of u) \<noteq> Armed (1 - k)"
    using sd_invD(3) [OF a(2)] by (auto elim: phase_cases)
  from a(1) [unfolded abs_sd_def] show "phase_of (state_of u) = Unsettled (1 - k)"
    using free assms(2) by (cases rule: cycle.cases) auto
  then show "\<not> wait_order_act (state_of u)"
    using act_order_out [OF a(2)] by simp
qed

section \<open>Properties\<close>

text \<open>C8. The timer watches the order: in every reachable world, while an order is unconfirmed its timer runs
  or has run out and is about to call the timeout; and the timer runs only while an order is unconfirmed
  or is being deleted, so an order that was confirmed in time is not given up.\<close>

theorem market_watched:
  assumes "wreach E coin P (world0 coin x0) w"
  shows "\<exists>t. w_timers w (compl_timer coin) = Some t \<and>
    ((\<exists>k. phase_of (w_coin w) = Submitted k) \<longrightarrow> t_waiting t \<or> 0 < t_due t) \<and>
    (t_waiting t \<longrightarrow> supervised (phase_of (w_coin w)))"
  using always_watched [OF assms] by (auto simp: watched_def)

theorem market_watched_witness:
  "\<exists>t. w_timers (demo_world D4) (compl_timer ''BTC'') = Some t \<and> (t_waiting t \<or> 0 < t_due t)"
  using market_watched [OF demo_world_reach [OF D4_free]] demo_D4_phase by auto

text \<open>C7. A fill that crosses a request to delete: the order was confirmed and the machine waits for its
  deletion when the exchange reports it filled.  The fill is ignored, no order is open any more, and
  whatever happens afterwards the machine waits for that deletion for ever: trading is on, no order is placed
  and no timer ends the wait; only a report of an earlier deletion that comes late would end it.\<close>

theorem market_crossed_fill:
  assumes "documented E" and "x_open E x0 = {}"
    and "wreach E coin orderly (world0 coin x0) w"
    and "phase_of (w_coin w) = Cancelling i k"
    and "w_timers w (compl_timer coin) = Some t" and "silent t"
    and "x_report E j (w_exch w) = Some x" and "status_is j ''FILLED''"
    and "wreach E coin (\<lambda>_. no_late_deletion) (react E (Report j) (w\<lparr>w_exch := x\<rparr>)) w'"
  shows "(\<exists>l. phase_of (w_coin w') = Cancelling i l) \<and> sd_running (w_coin w') \<and> x_open E (w_exch w') = {}"
proof -
  define v where "v = w\<lparr>w_exch := x\<rparr>"
  have inv: "sd_inv coin (w_coin v)" and open_w: "x_open E (w_exch w) \<subseteq> waited_orders (w_coin w)"
    using one_order [OF assms(1-3)] by (simp_all add: v_def)
  obtain n where "n \<in> x_open E (w_exch w)" "closing j \<Longrightarrow> x_open E x \<subseteq> x_open E (w_exch w) - {n}"
    by (rule documented_report [OF assms(1,7)]) blast
  then have "lost E coin i v"
    using open_w assms(4-6,8) by (auto simp: v_def lost_def waited_orders_def closing_def)
  from react_lost [OF assms(1) inv this, of "Report j"] assms(8)
  have "lost E coin i (react E (Report j) v)" "sd_inv coin (w_coin (react E (Report j) v))"
    using sd_events.inv_event [OF inv, of "Report j"] by (simp_all add: status_is_def)
  note lost = stays_lost [OF assms(1,9) [folded v_def] this(2,1)]
  then have "sd_running (w_coin w')"
    using phase_start [of coin "w_coin w'"] by (auto simp: lost_def)
  with lost show ?thesis
    by (simp add: lost_def)
qed

theorem market_crossed_fill_witness:
  "(\<exists>l. phase_of (w_coin W7) = Cancelling 0 l) \<and> sd_running (w_coin W7) \<and> set (w_exch W7) = {}"
proof -
  obtain t where t: "w_timers W6 (compl_timer ''BTC'') = Some t" "silent t"
    using W6_silent by blast
  have "x_report book (demo_report ''FILLED'') (w_exch W6) = Some []"
    by (simp add: W6_exch closing_def)
  from market_crossed_fill [OF documented_book _ wreach_weaken [OF W6_reach] W5_stop(1) t this _ wreach_init]
  show ?thesis
    by (simp add: W7_def punctual_def)
qed

end
