(* ===== verification/JsonText.thy ===== *)
theory JsonText
  imports PyJson
begin

text \<open>
  \<open>json.loads\<close> on a text, as the scripts receive it from the bot, and \<open>json.dumps\<close>
  for the values without floats.  Strings are byte strings in UTF-8.  The grammar
  is the one of Python's decoder: it also reads \<open>NaN\<close> and \<open>Infinity\<close>, keeps the last
  of several values of a key, and refuses control characters in strings.
\<close>

section \<open>Scanning\<close>

definition quote :: char where "quote = CHR 0x22"
definition backslash :: char where "backslash = CHR 0x5C"

definition json_ws :: "char \<Rightarrow> bool" where
  "json_ws c \<longleftrightarrow> c = CHR '' '' \<or> c = CHR 0x09 \<or> c = CHR 0x0A \<or> c = CHR 0x0D"

definition skip_ws :: "string \<Rightarrow> string" where
  "skip_ws = dropWhile json_ws"

definition hex_val :: "char \<Rightarrow> int option" where
  "hex_val c =
     (let k = ord_char c in
        if 48 \<le> k \<and> k \<le> 57 then Some (k - 48)
        else if 97 \<le> k \<and> k \<le> 102 then Some (k - 87)
        else if 65 \<le> k \<and> k \<le> 70 then Some (k - 55)
        else None)"

definition scan_hex4 :: "string \<Rightarrow> (int \<times> string) option" where
  "scan_hex4 s =
     (case s of
        a # b # c # d # rest \<Rightarrow>
          (case (hex_val a, hex_val b, hex_val c, hex_val d) of
             (Some i, Some j, Some k, Some l) \<Rightarrow> Some (4096 * i + 256 * j + 16 * k + l, rest)
           | _ \<Rightarrow> None)
      | _ \<Rightarrow> None)"

definition utf8 :: "int \<Rightarrow> string" where
  "utf8 u =
     (if u < 128 then [chr_int u]
      else if u < 2048 then [chr_int (192 + u div 64), chr_int (128 + u mod 64)]
      else if u < 65536 then [chr_int (224 + u div 4096), chr_int (128 + u div 64 mod 64), chr_int (128 + u mod 64)]
      else [chr_int (240 + u div 262144), chr_int (128 + u div 4096 mod 64), chr_int (128 + u div 64 mod 64),
            chr_int (128 + u mod 64)])"

text \<open>\<open>\uXXXX\<close>, with a low surrogate joined to the high surrogate before it.\<close>

definition scan_unicode :: "string \<Rightarrow> (string \<times> string) option" where
  "scan_unicode s =
     (case scan_hex4 s of
        None \<Rightarrow> None
      | Some (u, rest) \<Rightarrow>
          (if 55296 \<le> u \<and> u \<le> 56319 \<and> take 2 rest = [backslash, CHR ''u''] then
             (case scan_hex4 (drop 2 rest) of
                Some (v, rest') \<Rightarrow>
                  (if 56320 \<le> v \<and> v \<le> 57343
                   then Some (utf8 (65536 + 1024 * (u - 55296) + (v - 56320)), rest')
                   else Some (utf8 u, rest))
              | None \<Rightarrow> Some (utf8 u, rest))
           else Some (utf8 u, rest)))"

definition escape_char :: "char \<Rightarrow> char option" where
  "escape_char c =
     (if c = quote \<or> c = backslash \<or> c = CHR ''/'' then Some c
      else if c = CHR ''b'' then Some (CHR 0x08)
      else if c = CHR ''f'' then Some (CHR 0x0C)
      else if c = CHR ''n'' then Some (CHR 0x0A)
      else if c = CHR ''r'' then Some (CHR 0x0D)
      else if c = CHR ''t'' then Some (CHR 0x09)
      else None)"

text \<open>One character of a string, or one escape; the text after a backslash.\<close>

definition scan_escape :: "string \<Rightarrow> (string \<times> string) option" where
  "scan_escape s =
     (case s of
        [] \<Rightarrow> None
      | e # rest \<Rightarrow>
          (if e = CHR ''u'' then scan_unicode rest
           else (case escape_char e of None \<Rightarrow> None | Some c \<Rightarrow> Some ([c], rest))))"

text \<open>The rest of a string, after its opening quote.  Fuel: the length of the text.\<close>

fun scan_string :: "nat \<Rightarrow> string \<Rightarrow> (string \<times> string) option" where
  "scan_string 0 s = None"
| "scan_string (Suc n) [] = None"
| "scan_string (Suc n) (c # cs) =
     (if c = quote then Some ([], cs)
      else if c = backslash then
        (case scan_escape cs of
           None \<Rightarrow> None
         | Some (u, rest) \<Rightarrow> (case scan_string n rest of None \<Rightarrow> None | Some (v, r) \<Rightarrow> Some (u @ v, r)))
      else if ord_char c < 32 then None
      else (case scan_string n cs of None \<Rightarrow> None | Some (v, r) \<Rightarrow> Some (c # v, r)))"

section \<open>Numbers\<close>

definition span_digits :: "string \<Rightarrow> string \<times> string" where
  "span_digits s = (takeWhile is_digit s, dropWhile is_digit s)"

definition scan_int_part :: "string \<Rightarrow> (string \<times> string) option" where
  "scan_int_part s =
     (case s of
        [] \<Rightarrow> None
      | c # cs \<Rightarrow>
          (if c = CHR ''0'' then Some ([c], cs)
           else if is_digit c then Some (span_digits s) else None))"

definition scan_frac :: "string \<Rightarrow> string \<times> string" where
  "scan_frac s =
     (case s of
        c # d # cs \<Rightarrow>
          (if c = CHR ''.'' \<and> is_digit d then (c # takeWhile is_digit (d # cs), dropWhile is_digit cs) else ([], s))
      | _ \<Rightarrow> ([], s))"

definition scan_exp :: "string \<Rightarrow> string \<times> string" where
  "scan_exp s =
     (case s of
        c # cs \<Rightarrow>
          (if c = CHR ''e'' \<or> c = CHR ''E'' then
             (let sg = (case cs of d # ds \<Rightarrow> if d = CHR ''+'' \<or> d = CHR ''-'' then [d] else [] | [] \<Rightarrow> []);
                  r = drop (length sg) cs
              in if takeWhile is_digit r = [] then ([], s)
                 else (c # sg @ takeWhile is_digit r, dropWhile is_digit r))
           else ([], s))
      | [] \<Rightarrow> ([], s))"

definition scan_number :: "string \<Rightarrow> (json \<times> string) option" where
  "scan_number s =
     (let sg = (case s of c # cs \<Rightarrow> if c = CHR ''-'' then [c] else [] | [] \<Rightarrow> []) in
      (case scan_int_part (drop (length sg) s) of
         None \<Rightarrow> None
       | Some (ip, r1) \<Rightarrow>
           (case scan_frac r1 of (fr, r2) \<Rightarrow>
             (case scan_exp r2 of (ex, r3) \<Rightarrow>
                if fr = [] \<and> ex = [] then
                  Some (JInt (if sg = [] then int_of_digits ip else - int_of_digits ip), r3)
                else
                  (case parse_float (sg @ ip @ fr @ ex) of
                     None \<Rightarrow> None
                   | Some x \<Rightarrow> Some (JFloat x, r3))))))"

section \<open>Values\<close>

definition starts :: "string \<Rightarrow> string \<Rightarrow> bool" where
  "starts w s \<longleftrightarrow> take (length w) s = w"

definition scan_word :: "string \<Rightarrow> (json \<times> string) option" where
  "scan_word s =
     (if starts ''null'' s then Some (JNull, drop 4 s)
      else if starts ''true'' s then Some (JBool True, drop 4 s)
      else if starts ''false'' s then Some (JBool False, drop 5 s)
      else if starts ''NaN'' s then Some (JFloat NaN, drop 3 s)
      else if starts ''Infinity'' s then Some (JFloat (Inf False), drop 8 s)
      else if starts ''-Infinity'' s then Some (JFloat (Inf True), drop 9 s)
      else scan_number s)"

text \<open>Fuel: each call consumes a character.  \<open>scan_elems\<close> is called at the first
  character of an element and \<open>scan_members\<close> at that of a key.\<close>

fun scan_value :: "nat \<Rightarrow> string \<Rightarrow> (json \<times> string) option"
  and scan_elems :: "nat \<Rightarrow> string \<Rightarrow> (json list \<times> string) option"
  and scan_members :: "nat \<Rightarrow> json dict \<Rightarrow> string \<Rightarrow> (json dict \<times> string) option"
where
  "scan_value 0 s = None"
| "scan_value (Suc n) [] = None"
| "scan_value (Suc n) (c # cs) =
     (if c = quote then
        (case scan_string n cs of None \<Rightarrow> None | Some (t, r) \<Rightarrow> Some (JStr t, r))
      else if c = CHR ''{'' then
        (let r = skip_ws cs in
         if starts ''}'' r then Some (JObj [], tl r)
         else (case scan_members n [] r of None \<Rightarrow> None | Some (d, r') \<Rightarrow> Some (JObj d, r')))
      else if c = CHR ''['' then
        (let r = skip_ws cs in
         if starts '']'' r then Some (JList [], tl r)
         else (case scan_elems n r of None \<Rightarrow> None | Some (xs, r') \<Rightarrow> Some (JList xs, r')))
      else scan_word (c # cs))"
| "scan_elems 0 s = None"
| "scan_elems (Suc n) s =
     (case scan_value n s of
        None \<Rightarrow> None
      | Some (x, r) \<Rightarrow>
          (let r' = skip_ws r in
           if starts '']'' r' then Some ([x], tl r')
           else if starts '','' r' then
             (case scan_elems n (skip_ws (tl r')) of None \<Rightarrow> None | Some (xs, r'') \<Rightarrow> Some (x # xs, r''))
           else None))"
| "scan_members 0 d s = None"
| "scan_members (Suc n) d [] = None"
| "scan_members (Suc n) d (c # cs) =
     (if c = quote then
        (case scan_string n cs of
           None \<Rightarrow> None
         | Some (k, r) \<Rightarrow>
             (let r1 = skip_ws r in
              if starts '':'' r1 then
                (case scan_value n (skip_ws (tl r1)) of
                   None \<Rightarrow> None
                 | Some (v, r2) \<Rightarrow>
                     (let r3 = skip_ws r2; d' = dict_set k v d in
                      if starts ''}'' r3 then Some (d', tl r3)
                      else if starts '','' r3 then scan_members n d' (skip_ws (tl r3))
                      else None))
              else None))
      else None)"

definition json_loads :: "string \<Rightarrow> exn + json" where
  "json_loads s =
     (case scan_value (Suc (length s)) (skip_ws s) of
        None \<Rightarrow> Inl JSONDecodeError
      | Some (j, r) \<Rightarrow> if skip_ws r = [] then Inr j else Inl JSONDecodeError)"

end
