(* ===== verification/MStrategy.thy ===== *)
theory MStrategy
  imports SymbolSpec JsonText
begin

text \<open>
  The class \<open>Strategy\<close> of mstrategy.py, the object the bot drives: it owns one
  \<open>SymbolData\<close> per currency, parses each message, and hands it to the currency it
  names.  Every method takes the text it receives.
\<close>

section \<open>State\<close>

record account =
  ac_maker_commission :: pyfloat
  ac_taker_commission :: pyfloat
  ac_balances :: "balance dict"

definition Account :: account where
  "Account =
     \<lparr>ac_maker_commission = flit (1 / 100), ac_taker_commission = flit (1 / 100),
      ac_balances = [(''USDT'', Balance)]\<rparr>"

record strategy =
  st_account :: account
  st_symbol_data :: "symbol_data dict"
  st_report :: json

type_synonym st_act = "(strategy, effect) stmt"

definition Strategy :: strategy where
  "Strategy =
     \<lparr>st_account = Account, st_symbol_data = [],
      st_report = JObj [(''X'', JStr ''EMPTY''), (''c'', JStr ''no_order'')]\<rparr>"

section \<open>Helpers\<close>

definition log_func :: "string \<Rightarrow> st_act" where
  "log_func func = p_emit (ToLog (JFmt ''func: {}'' [JStr func]))"

definition log_text :: "string \<Rightarrow> st_act" where
  "log_text msg = p_emit (ToLog (JFmt msg []))"

text \<open>A method of \<open>self.symbol_data[k]\<close>: the object is changed in place.\<close>

definition on_symbol :: "string \<Rightarrow> (symbol_data, effect, 'a) prog \<Rightarrow> (strategy, effect, 'a) prog" where
  "on_symbol k m = (\<lambda>s.
     case map_of (st_symbol_data s) k of
       None \<Rightarrow> (s, [], Raised KeyError)
     | Some sd \<Rightarrow>
         (case m sd of (sd', es, r) \<Rightarrow>
            (s\<lparr>st_symbol_data := dict_set k sd' (st_symbol_data s)\<rparr>, es, r)))"

definition sd_assign :: "string \<Rightarrow> (symbol_data \<Rightarrow> symbol_data) \<Rightarrow> st_act" where
  "sd_assign k f = on_symbol k (p_upd f)"

text \<open>\<open>if s in self.symbol_data\<close>, for a value \<open>s\<close> of a message.\<close>

definition if_known :: "json \<Rightarrow> (string \<Rightarrow> st_act) \<Rightarrow> st_act \<Rightarrow> st_act" where
  "if_known s act other =
     p_read (\<lambda>st. in_dict s (st_symbol_data st))
       (\<lambda>r. p_val r (\<lambda>b. if b then act (the_str s) else other))"

definition is_json_error :: "exn \<Rightarrow> bool" where
  "is_json_error x \<longleftrightarrow> x = JSONDecodeError"

section \<open>Events\<close>

definition sd_on_test :: sd_act where
  "sd_on_test =
     p_val (fdiv (flit (1571427 / 10000000)) (flit 15730)) (\<lambda>cmsn_symb.
       p_read (\<lambda>s. round_at_step (fsub (flit (999 / 1000000)) cmsn_symb) (sd_stepSize s))
         (\<lambda>r. p_val r (\<lambda>q. p_skip)))"

text \<open>What follows the \<open>return\<close> of \<open>eval\<close> is not reached.\<close>

definition st_eval :: st_act where
  "st_eval = p_block [log_func ''eval'', on_symbol ''BTC'' sd_on_test]"

definition st_on_symbols_list :: "string list \<Rightarrow> st_act" where
  "st_on_symbols_list symbols = p_block [
     log_func ''on_symbols_list'',
     p_for symbols (\<lambda>s. p_block [
       p_upd (\<lambda>st. st\<lparr>st_symbol_data := dict_set s (SymbolData s) (st_symbol_data st)\<rparr>),
       p_emit (CreateTimer (compl_timer s))])]"

text \<open>A currency that is not traded: the reply is built, and sent by a method the class
  does not have.\<close>

definition st_on_trade_data :: "string \<Rightarrow> st_act" where
  "st_on_trade_data data = p_block [
     log_func ''on_trade_data'',
     (case json_loads data of
        Inl err \<Rightarrow> log_text ''Trade data JSON parse error''
      | Inr json_in_data \<Rightarrow> p_block [
          p_emit (ToLog json_in_data),
          p_val (getitem json_in_data ''a'') (\<lambda>_. p_skip),
          p_val (getitem json_in_data ''s'') (\<lambda>symbol.
            if_known symbol (\<lambda>k. on_symbol k (sd_on_trade_data json_in_data)) (p_raise AttributeError))])]"

definition st_on_get_trade_state :: "string \<Rightarrow> st_act" where
  "st_on_get_trade_state symbol = p_block [
     p_emit (ToLog (JFmt ''func: {} symbol {}'' [JStr ''on_get_trade_state'', JStr symbol])),
     if_known (JStr symbol)
       (\<lambda>k. on_symbol k (p_read (\<lambda>sd. JObj (sd_trade_state sd)) (\<lambda>j. p_emit (ToWeb j))))
       p_skip]"

text \<open>
  \<open>on_account\<close> and \<open>on_balance\<close> differ in the keys of the message only: \<open>ka\<close> names
  the currency, \<open>kt\<close>, \<open>km\<close> the commissions, \<open>kf\<close>, \<open>kl\<close> the amounts, and \<open>fmt\<close> is
  the text they log.
\<close>

definition set_commission :: "(pyfloat \<Rightarrow> symbol_data \<Rightarrow> symbol_data) \<Rightarrow> string \<Rightarrow> json \<Rightarrow> string \<Rightarrow> st_act" where
  "set_commission put s j k =
     p_val (bind_sum (float_at j k) (\<lambda>x. fdiv x (flit 100))) (\<lambda>x. sd_assign s (put x))"

definition own_balance :: "string \<Rightarrow> json \<Rightarrow> json \<Rightarrow> string \<Rightarrow> string \<Rightarrow> string \<Rightarrow> string \<Rightarrow> string \<Rightarrow> st_act" where
  "own_balance fmt msg symbol kt km kf kl s = p_block [
     set_commission (\<lambda>x sd. sd\<lparr>sd_t_commission := x\<rparr>) s msg kt,
     set_commission (\<lambda>x sd. sd\<lparr>sd_m_commission := x\<rparr>) s msg km,
     p_val (float_at symbol kf) (\<lambda>x. sd_assign s (\<lambda>sd. sd\<lparr>sd_balance := (sd_balance sd)\<lparr>b_free := x\<rparr>\<rparr>)),
     p_val (float_at symbol kl) (\<lambda>x. sd_assign s (\<lambda>sd. sd\<lparr>sd_balance := (sd_balance sd)\<lparr>b_locked := x\<rparr>\<rparr>)),
     on_symbol s (p_read (\<lambda>sd. [JStr s, JStrOf (b_free (sd_balance sd)), JStrOf (b_locked (sd_balance sd))])
       (\<lambda>args. p_emit (ToLog (JFmt fmt args))))]"

definition usdt_balance :: "json \<Rightarrow> string \<Rightarrow> string \<Rightarrow> st_act" where
  "usdt_balance symbol kf kl = p_block [
     p_read (\<lambda>st. map fst (st_symbol_data st)) (\<lambda>ks. p_for ks (\<lambda>smb. p_block [
       p_val (float_at symbol kf) (\<lambda>x. sd_assign smb (\<lambda>sd. sd\<lparr>sd_balance_usdt := (sd_balance_usdt sd)\<lparr>b_free := x\<rparr>\<rparr>)),
       p_val (float_at symbol kl) (\<lambda>x. sd_assign smb (\<lambda>sd. sd\<lparr>sd_balance_usdt := (sd_balance_usdt sd)\<lparr>b_locked := x\<rparr>\<rparr>))])),
     p_val (float_at symbol kf) (\<lambda>f. p_val (float_at symbol kl) (\<lambda>l.
       p_emit (ToLog (JFmt ''Balance : {} free {} / locked {}'' [JStr ''USDT'', JStrOf f, JStrOf l]))))]"

definition update_balances ::
    "string \<Rightarrow> json \<Rightarrow> string \<Rightarrow> string \<Rightarrow> string \<Rightarrow> string \<Rightarrow> string \<Rightarrow> string \<Rightarrow> st_act" where
  "update_balances fmt msg kb ka kt km kf kl =
     p_val (getitem msg kb) (\<lambda>balances. p_val (py_iter balances) (\<lambda>bs. p_for bs (\<lambda>symbol.
       p_val (getitem symbol ka) (\<lambda>s.
         if_known s (own_balance fmt msg symbol kt km kf kl)
           (if s = JStr ''USDT'' then usdt_balance symbol kf kl else p_skip)))))"

definition st_on_account :: "string \<Rightarrow> st_act" where
  "st_on_account acc = p_block [
     log_func ''on_account'',
     (case json_loads acc of
        Inl err \<Rightarrow> log_text ''JSON error in the REST_API account''
      | Inr jacc \<Rightarrow> p_block [
          log_text ''REST_API account format'',
          p_try is_key_error
            (update_balances ''Balance {}: free {} locked {}'' jacc ''balances'' ''asset'' ''takerCommission'' ''makerCommission'' ''free'' ''locked'')
            (log_text ''Key error in the REST_API account'')])]"

definition st_on_balance :: "string \<Rightarrow> st_act" where
  "st_on_balance bal = p_block [
     log_func ''on_balance'',
     (case json_loads bal of
        Inl err \<Rightarrow> log_text ''JSON error in the USER_DATA account''
      | Inr jbal \<Rightarrow> p_block [
          log_text ''USER_DATA account format'',
          p_try is_key_error
            (update_balances ''Balance : {} free {} / locked {}'' jbal ''B'' ''a'' ''t'' ''m'' ''f'' ''l'')
            (log_text ''Key error in the USER_DATA account'')])]"

definition st_on_exchange_info :: "string \<Rightarrow> st_act" where
  "st_on_exchange_info info = p_block [
     log_func ''on_exchange_info'',
     (case json_loads info of
        Inl err \<Rightarrow> log_text ''JSON error in EXCHANGE INFO''
      | Inr json_info \<Rightarrow>
          p_val (getitem json_info ''symbols'') (\<lambda>symbols. p_val (py_iter symbols) (\<lambda>ss. p_for ss (\<lambda>symbol.
            p_val (getitem symbol ''quoteAsset'') (\<lambda>qa.
              if qa \<noteq> JStr ''USDT'' then p_skip
              else p_val (getitem symbol ''baseAsset'') (\<lambda>s.
                if_known s (\<lambda>k. on_symbol k (sd_on_exchange_info symbol)) p_skip))))))]"

definition st_on_wss_data :: "string \<Rightarrow> st_act" where
  "st_on_wss_data data =
     p_val (json_loads data) (\<lambda>_. p_emit (ToLog (JFmt ''WSS DATA: %s'' [JStr data])))"

text \<open>The error reply is never sent: \<open>self.h_to_alert_channel\<close> is not an attribute of
  the strategy.\<close>

definition st_on_order_report :: "string \<Rightarrow> st_act" where
  "st_on_order_report report = p_block [
     log_func ''on_order_report'',
     p_emit (ToLog (JFmt ''ORDER EXEC REPORT: {}'' [JStr report])),
     p_try is_json_error
       (p_val (json_loads report) (\<lambda>jreport.
          p_try is_key_error
            (p_val (bind_sum (getitem jreport ''s'') replace_usdt) (\<lambda>symbol.
               if_known symbol (\<lambda>k. on_symbol k (sd_on_order_report jreport)) p_skip))
            (p_try is_key_error
              (p_val (getitem jreport ''msg'') (\<lambda>m. p_val (getitem jreport ''code'') (\<lambda>c. p_raise AttributeError)))
              (log_text ''Unknown REPORT from Binance''))))
       (log_text ''JSON error in EXEC REPORT'')]"

definition st_on_price :: "string \<Rightarrow> st_act" where
  "st_on_price data =
     p_try is_json_error
       (p_val (json_loads data) (\<lambda>pdata.
          p_val (getitem pdata ''symbol'') (\<lambda>sym0. p_val (getitem pdata ''price'') (\<lambda>price.
            p_val (replace_usdt sym0) (\<lambda>symbol.
              if_known symbol (\<lambda>k. on_symbol k (sd_on_price price)) p_skip)))))
       (log_text ''JSON error in PRICE'')"

definition st_on_trade_run :: "string \<Rightarrow> st_act" where
  "st_on_trade_run data = p_block [
     log_func ''on_trade_run'',
     p_try is_json_error
       (p_val (json_loads data) (\<lambda>rjdata. p_val (getitem rjdata ''s'') (\<lambda>symbol.
          if_known symbol (\<lambda>k. on_symbol k (sd_on_trade_run rjdata)) p_skip)))
       (log_text ''JSON error in RUN TRADE'')]"

definition st_get_trade_steps :: "string \<Rightarrow> (strategy, effect, string list) prog" where
  "st_get_trade_steps symbol =
     p_bind (log_func ''get_trade_steps'') (\<lambda>_.
       p_if (\<lambda>st. dict_has (st_symbol_data st) symbol) (on_symbol symbol sd_get_trade_steps) (p_ret []))"

definition exchange_filter :: "symbol_data \<Rightarrow> json" where
  "exchange_filter sd = JObj
     [(''s'', JStr (sd_symbol sd)), (''pb'', JInt (sd_quotePrecision sd)),
      (''pa'', JInt (sd_quoteAssetPrecision sd)), (''ts'', JFloat (sd_tickSize sd)),
      (''ss'', JFloat (sd_stepSize sd)), (''mu'', sd_multiplierUp sd),
      (''mn'', JFloat (sd_minNotional sd)), (''md'', JFloat (sd_multiplierDown sd))]"

definition st_get_exchange_info :: st_act where
  "st_get_exchange_info = p_block [
     log_func ''get_exchange_info'',
     p_read (\<lambda>st. JObj [(''e'', JStr ''getFilters''),
         (''f'', JList (map (\<lambda>kv. exchange_filter (snd kv)) (st_symbol_data st)))])
       (\<lambda>j. p_emit (ToWeb j))]"

section \<open>The events of the bot\<close>

text \<open>\<open>TimerFired k\<close>: the bot calls \<open>symbol_data[k].on_order_complete_timeout\<close>.\<close>

datatype st_event =
    EvEval
  | SymbolsList "string list"
  | TradeDataMsg string
  | GetTradeState string
  | AccountMsg string
  | BalanceMsg string
  | ExchangeInfoMsg string
  | WssData string
  | ReportMsg string
  | PriceMsg string
  | TradeRunMsg string
  | GetExchangeInfo
  | TimerFired string

fun st_handle :: "st_event \<Rightarrow> st_act" where
  "st_handle EvEval = st_eval"
| "st_handle (SymbolsList ss) = st_on_symbols_list ss"
| "st_handle (TradeDataMsg d) = st_on_trade_data d"
| "st_handle (GetTradeState k) = st_on_get_trade_state k"
| "st_handle (AccountMsg d) = st_on_account d"
| "st_handle (BalanceMsg d) = st_on_balance d"
| "st_handle (ExchangeInfoMsg d) = st_on_exchange_info d"
| "st_handle (WssData d) = st_on_wss_data d"
| "st_handle (ReportMsg d) = st_on_order_report d"
| "st_handle (PriceMsg d) = st_on_price d"
| "st_handle (TradeRunMsg d) = st_on_trade_run d"
| "st_handle GetExchangeInfo = st_get_exchange_info"
| "st_handle (TimerFired k) = on_symbol k sd_on_order_complete_timeout"

end
