(* ===== verification/MStrategyFacts.thy ===== *)
theory MStrategyFacts
  imports MStrategy
begin

text \<open>
  Facts about \<open>Strategy\<close>: every event keeps the invariant of every currency, and a
  message of the market or of the user is one event of the one currency it names.
\<close>

section \<open>One currency inside the strategy\<close>

lemma on_symbol_known:
  assumes "map_of (st_symbol_data st) k = Some sd"
  shows "state_of (on_symbol k m st) = st\<lparr>st_symbol_data := dict_set k (state_of (m sd)) (st_symbol_data st)\<rparr>"
    and "effects_of (on_symbol k m st) = effects_of (m sd)"
    and "outcome_of (on_symbol k m st) = outcome_of (m sd)"
  using assms by (simp_all add: on_symbol_def split_beta)

lemma on_symbol_unknown:
  "map_of (st_symbol_data st) k = None \<Longrightarrow> on_symbol k m st = (st, [], Raised KeyError)"
  by (simp add: on_symbol_def)

lemma emits_on_symbol [emits_intros]: "emits_only P m \<Longrightarrow> emits_only P (on_symbol k m)"
  by (auto simp: emits_only_def on_symbol_def split_beta split: option.splits)

lemma emits_if_known [emits_intros]:
  "(\<And>k. emits_only P (act k)) \<Longrightarrow> emits_only P other \<Longrightarrow> emits_only P (if_known s act other)"
  unfolding if_known_def by (intro emits_intros)

lemma emits_sd_assign [emits_intros]: "emits_only P (sd_assign k f)"
  unfolding sd_assign_def by (intro emits_intros)

lemma keeps_if_known [keeps_intros]:
  "(\<And>k. keeps I (act k)) \<Longrightarrow> keeps I other \<Longrightarrow> keeps I (if_known s act other)"
  unfolding if_known_def by (intro keeps_intros)

section \<open>The invariant\<close>

definition st_inv :: "strategy \<Rightarrow> bool" where
  "st_inv st \<longleftrightarrow> (\<forall>k sd. map_of (st_symbol_data st) k = Some sd \<longrightarrow> sd_inv k sd)"

lemma st_invD: "st_inv st \<Longrightarrow> map_of (st_symbol_data st) k = Some sd \<Longrightarrow> sd_inv k sd"
  by (simp add: st_inv_def)

lemma st_inv_set:
  "st_inv st \<Longrightarrow> sd_inv k sd \<Longrightarrow> st_inv (st\<lparr>st_symbol_data := dict_set k sd (st_symbol_data st)\<rparr>)"
  by (simp add: st_inv_def)

lemma keeps_on_symbol [keeps_intros]:
  assumes "keeps (sd_inv k) m"
  shows "keeps st_inv (on_symbol k m)"
proof (rule keepsI)
  fix st
  assume inv: "st_inv st"
  show "st_inv (state_of (on_symbol k m st))"
  proof (cases "map_of (st_symbol_data st) k")
    case None
    with inv show ?thesis
      by (simp add: on_symbol_unknown)
  next
    case (Some sd)
    from keepsD [OF assms st_invD [OF inv Some]] st_inv_set [OF inv] show ?thesis
      by (simp add: on_symbol_known(1) [OF Some])
  qed
qed

lemma keeps_sd_event: "keeps (sd_inv k) (sd_handle ev)"
  by (rule keepsI) (rule sd_events.inv_event)

lemmas keeps_sd_events [keeps_intros] =
  keeps_sd_event [of _ "TradeData j" for j, unfolded sd_handle.simps]
  keeps_sd_event [of _ "TradeRun j" for j, unfolded sd_handle.simps]
  keeps_sd_event [of _ "Price j" for j, unfolded sd_handle.simps]
  keeps_sd_event [of _ "Report j" for j, unfolded sd_handle.simps]
  keeps_sd_event [of _ Timeout, unfolded sd_handle.simps]
  keeps_sd_event [of _ "ExchangeInfo j" for j, unfolded sd_handle.simps]

text \<open>The account data are no part of the trading cycle.\<close>

lemma sd_inv_account [simp]:
  "sd_inv k (sd\<lparr>sd_balance := b\<rparr>) = sd_inv k sd" "sd_inv k (sd\<lparr>sd_balance_usdt := b\<rparr>) = sd_inv k sd"
  "sd_inv k (sd\<lparr>sd_t_commission := x\<rparr>) = sd_inv k sd" "sd_inv k (sd\<lparr>sd_m_commission := x\<rparr>) = sd_inv k sd"
  using mode_ok_cong(1) [of "sd\<lparr>sd_balance := b\<rparr>" sd] mode_ok_cong(1) [of "sd\<lparr>sd_balance_usdt := b\<rparr>" sd]
    mode_ok_cong(1) [of "sd\<lparr>sd_t_commission := x\<rparr>" sd] mode_ok_cong(1) [of "sd\<lparr>sd_m_commission := x\<rparr>" sd]
  by (simp_all add: sd_inv_def machine_ok_def data_ok_def)

lemma keeps_sd_assign: "(\<And>sd. sd_inv k sd \<Longrightarrow> sd_inv k (f sd)) \<Longrightarrow> keeps st_inv (sd_assign k f)"
  unfolding sd_assign_def by (intro keeps_intros)

lemma keeps_balances: "keeps st_inv (update_balances fmt msg kb ka kt km kf kl)"
  unfolding update_balances_def own_balance_def usdt_balance_def set_commission_def
  by (intro keeps_intros keeps_sd_assign; simp)

lemma keeps_sd_on_test: "keeps I sd_on_test"
  unfolding sd_on_test_def by (intro keeps_intros)

lemma emits_sum [emits_intros]:
  "(\<And>x. emits_only P (f x)) \<Longrightarrow> (\<And>y. emits_only P (g y)) \<Longrightarrow>
   emits_only P (case v of Inl x \<Rightarrow> f x | Inr y \<Rightarrow> g y)"
  by (simp split: sum.split)

lemma st_handle_keeps: "keeps st_inv (st_handle ev)"
proof (cases ev)
  case EvEval
  then show ?thesis
    unfolding EvEval st_handle.simps st_eval_def log_func_def by (intro keeps_intros keeps_sd_on_test)
next
  case (SymbolsList ss)
  show ?thesis
    unfolding SymbolsList st_handle.simps st_on_symbols_list_def log_func_def
    by (intro keeps_intros st_inv_set sd_inv_init)
next
  case (AccountMsg d)
  then show ?thesis
    unfolding AccountMsg st_handle.simps st_on_account_def log_func_def log_text_def
    by (intro keeps_intros keeps_balances)
next
  case (BalanceMsg d)
  then show ?thesis
    unfolding BalanceMsg st_handle.simps st_on_balance_def log_func_def log_text_def
    by (intro keeps_intros keeps_balances)
next
  case (TradeDataMsg d)
  then show ?thesis
    unfolding TradeDataMsg st_handle.simps st_on_trade_data_def log_func_def log_text_def by (intro keeps_intros)
next
  case (GetTradeState k)
  then show ?thesis
    unfolding GetTradeState st_handle.simps st_on_get_trade_state_def by (intro keeps_intros)
next
  case (ExchangeInfoMsg d)
  then show ?thesis
    unfolding ExchangeInfoMsg st_handle.simps st_on_exchange_info_def log_func_def log_text_def by (intro keeps_intros)
next
  case (WssData d)
  then show ?thesis
    unfolding WssData st_handle.simps st_on_wss_data_def by (intro keeps_intros)
next
  case (ReportMsg d)
  then show ?thesis
    unfolding ReportMsg st_handle.simps st_on_order_report_def log_func_def log_text_def by (intro keeps_intros)
next
  case (PriceMsg d)
  then show ?thesis
    unfolding PriceMsg st_handle.simps st_on_price_def log_text_def by (intro keeps_intros)
next
  case (TradeRunMsg d)
  then show ?thesis
    unfolding TradeRunMsg st_handle.simps st_on_trade_run_def log_func_def log_text_def by (intro keeps_intros)
next
  case GetExchangeInfo
  then show ?thesis
    unfolding GetExchangeInfo st_handle.simps st_get_exchange_info_def log_func_def by (intro keeps_intros)
next
  case (TimerFired k)
  then show ?thesis
    unfolding TimerFired st_handle.simps by (intro keeps_intros)
qed

interpretation st_events: event_system st_handle Strategy st_inv
proof
  show "st_inv Strategy"
    by (simp add: st_inv_def Strategy_def)
  show "st_inv (state_of (st_handle ev st))" if "st_inv st" for st ev
    using keepsD [OF st_handle_keeps that] .
qed

section \<open>Routing\<close>

text \<open>
  The event of one currency a message of the market or of the user is: the method
  of \<open>Strategy\<close> reads the currency out of the text and calls the method of
  \<open>SymbolData\<close>.  None: no currency is touched.
\<close>

definition known :: "strategy \<Rightarrow> string \<times> sd_event \<Rightarrow> (string \<times> sd_event) option" where
  "known st r = (if dict_has (st_symbol_data st) (fst r) then Some r else None)"

definition str_at :: "json \<Rightarrow> string \<Rightarrow> string option" where
  "str_at j k = (case getitem j k of Inr (JStr x) \<Rightarrow> Some x | _ \<Rightarrow> None)"

fun route :: "st_event \<Rightarrow> strategy \<Rightarrow> (string \<times> sd_event) option" where
  "route (TradeDataMsg d) st =
     (case json_loads d of
        Inr j \<Rightarrow>
          (case (getitem j ''a'', str_at j ''s'') of
             (Inr _, Some k) \<Rightarrow> known st (k, TradeData j)
           | _ \<Rightarrow> None)
      | Inl _ \<Rightarrow> None)"
| "route (ReportMsg d) st =
     (case json_loads d of
        Inr j \<Rightarrow> (case str_at j ''s'' of Some x \<Rightarrow> known st (py_remove ''USDT'' x, Report j) | None \<Rightarrow> None)
      | Inl _ \<Rightarrow> None)"
| "route (PriceMsg d) st =
     (case json_loads d of
        Inr j \<Rightarrow>
          (case (str_at j ''symbol'', getitem j ''price'') of
             (Some x, Inr p) \<Rightarrow> known st (py_remove ''USDT'' x, Price p)
           | _ \<Rightarrow> None)
      | Inl _ \<Rightarrow> None)"
| "route (TradeRunMsg d) st =
     (case json_loads d of
        Inr j \<Rightarrow> (case str_at j ''s'' of Some k \<Rightarrow> known st (k, TradeRun j) | None \<Rightarrow> None)
      | Inl _ \<Rightarrow> None)"
| "route (TimerFired k) st = known st (k, Timeout)"
| "route _ st = None"

fun routed :: "st_event \<Rightarrow> bool" where
  "routed (TradeDataMsg d) = True"
| "routed (ReportMsg d) = True"
| "routed (PriceMsg d) = True"
| "routed (TradeRunMsg d) = True"
| "routed (TimerFired k) = True"
| "routed _ = False"

text \<open>What the event does to the strategy: \<open>r\<close> is the run of the routed event.\<close>

definition delegates ::
    "strategy \<Rightarrow> (string \<times> sd_event) option \<Rightarrow> strategy \<times> effect list \<times> unit outcome \<Rightarrow> bool" where
  "delegates st r out \<longleftrightarrow>
     (case r of
        None \<Rightarrow> state_of out = st \<and> orders_of (effects_of out) = [] \<and> deleted_of (effects_of out) = []
      | Some (k, ev) \<Rightarrow>
          (\<exists>sd. map_of (st_symbol_data st) k = Some sd \<and>
             state_of out = st\<lparr>st_symbol_data := dict_set k (state_of (sd_handle ev sd)) (st_symbol_data st)\<rparr> \<and>
             orders_of (effects_of out) = orders_of (effects_of (sd_handle ev sd)) \<and>
             deleted_of (effects_of out) = deleted_of (effects_of (sd_handle ev sd))))"

lemma delegates_None:
  "state_of out = st \<Longrightarrow> orders_of (effects_of out) = [] \<Longrightarrow> deleted_of (effects_of out) = [] \<Longrightarrow> delegates st None out"
  by (simp add: delegates_def)

text \<open>A program that only adds effects without orders after a known currency's event.\<close>

lemma delegates_if_known:
  assumes "\<And>k. act k = on_symbol k (sd_handle (e k))" and "emits_only no_trade other"
    and "\<And>st. state_of (other st) = st"
  shows "delegates st (case s of JStr k \<Rightarrow> known st (k, e k) | _ \<Rightarrow> None) (if_known s act other st)"
proof (cases "in_dict s (st_symbol_data st) = Inr True")
  case True
  then obtain k where k: "s = JStr k" "dict_has (st_symbol_data st) k"
    by (auto simp: in_dict_True)
  then obtain sd where sd: "map_of (st_symbol_data st) k = Some sd"
    by (auto simp: dict_has_def)
  show ?thesis
    using k sd by (simp add: if_known_def prog_defs known_def delegates_def assms(1) on_symbol_known [OF sd])
next
  case False
  have "(case s of JStr k \<Rightarrow> known st (k, e k) | _ \<Rightarrow> None) = None"
    using False by (cases s) (auto simp: known_def)
  moreover have "state_of (if_known s act other st) = st" "orders_of (effects_of (if_known s act other st)) = []"
    "deleted_of (effects_of (if_known s act other st)) = []"
    using False assms(3) [of st] emits_no_trade [OF assms(2), of st]
    by (cases "in_dict s (st_symbol_data st)"; simp add: if_known_def prog_defs)+
  ultimately show ?thesis
    by (simp add: delegates_def)
qed

text \<open>Log entries around it, and the clauses of \<open>try\<close>, change neither state nor orders.\<close>

definition harmless :: "st_act \<Rightarrow> bool" where
  "harmless m \<longleftrightarrow> (\<forall>st. state_of (m st) = st) \<and> emits_only no_trade m"

lemma harmlessD:
  assumes "harmless m"
  shows "state_of (m st) = st" "orders_of (effects_of (m st)) = []" "deleted_of (effects_of (m st)) = []"
  using assms emits_no_trade [of m st] by (simp_all add: harmless_def)

lemma harmless_basic:
  "harmless p_skip" "harmless (p_raise x)" "no_trade e \<Longrightarrow> harmless (p_emit e)" "harmless (log_text t)" "harmless (log_func t)"
  by (simp_all add: harmless_def emits_only_def prog_defs log_text_def log_func_def)

lemma harmless_val: "(\<And>a. harmless (k a)) \<Longrightarrow> harmless (p_val v k)"
  by (cases v) (simp_all add: harmless_basic)

lemma delegates_bind:
  assumes "harmless m" and "delegates st None (m st)" and "outcome_of (m st) = Done () \<Longrightarrow> delegates st r (k () st)"
    and "outcome_of (m st) \<noteq> Done () \<Longrightarrow> r = None"
  shows "delegates st r (p_bind m k st)"
proof -
  obtain es out where m: "m st = (st, es, out)"
    using harmlessD(1) [OF assms(1), of st] by (cases "m st") auto
  note es = harmlessD(2,3) [OF assms(1), of st, unfolded m, simplified]
  show ?thesis
    using assms(3,4) es m
    by (cases out) (auto simp: p_bind_def delegates_def split_beta split: option.splits)
qed

lemma delegates_try:
  assumes "delegates st r (m st)" and "harmless h"
  shows "delegates st r (p_try P m h st)"
  using assms(1) harmlessD [OF assms(2)]
  by (auto simp: p_try_def delegates_def split_beta split: option.splits outcome.split)

lemma delegates_harmless: "harmless m \<Longrightarrow> delegates st None (m st)"
  using harmlessD [of m st] by (simp add: delegates_def)

text \<open>A program after harmless statements: they cannot raise here.\<close>

lemma delegates_after:
  assumes "harmless m" and "outcome_of (m st) = Done ()" and "delegates st r (k () st)"
  shows "delegates st r (p_bind m k st)"
  using delegates_bind [of m st r k] delegates_harmless [OF assms(1), of st] assms by simp

lemma log_done: "outcome_of (p_skip st) = Done ()" "outcome_of (log_text t st) = Done ()" "outcome_of (log_func t st) = Done ()" "outcome_of (p_emit e st) = Done ()"
  by (simp_all add: log_text_def log_func_def prog_defs)

lemma delegates_val:
  assumes "\<And>a. v = Inr a \<Longrightarrow> delegates st (r a) (k a st)"
  shows "delegates st (case v of Inl x \<Rightarrow> None | Inr a \<Rightarrow> r a) (p_val v k st)"
  using assms by (cases v) (simp_all add: delegates_harmless harmless_basic)

lemma str_at_case: "getitem j k = Inr v \<Longrightarrow> str_at j k = (case v of JStr x \<Rightarrow> Some x | _ \<Rightarrow> None)"
  by (simp add: str_at_def split: json.split)

lemma str_at_None: "getitem j k = Inl x \<Longrightarrow> str_at j k = None"
  by (simp add: str_at_def)

lemma option_json_case:
  "(case (case s of JStr k \<Rightarrow> Some k | _ \<Rightarrow> None) of Some k \<Rightarrow> f k | None \<Rightarrow> None) =
   (case s of JStr k \<Rightarrow> f k | _ \<Rightarrow> None)"
  by (cases s) simp_all

lemma if_known_at:
  assumes "\<And>k. act k = on_symbol k (sd_handle (e k))" and "harmless other"
  shows "delegates st (case str_at j x of Some k \<Rightarrow> known st (k, e k) | None \<Rightarrow> None)
    (p_val (getitem j x) (\<lambda>s. if_known s act other) st)"
proof (cases "getitem j x")
  case (Inl ex)
  then show ?thesis
    by (simp add: str_at_None delegates_harmless harmless_basic)
next
  case (Inr s)
  have "emits_only no_trade other" "\<And>st. state_of (other st) = st"
    using assms(2) by (simp_all add: harmless_def)
  from delegates_if_known [of act e other, OF assms(1) this, of st s] Inr show ?thesis
    by (simp add: str_at_case option_json_case)
qed

lemmas route_steps = delegates_after delegates_try delegates_harmless harmless_basic log_done no_trade_simps

lemma st_routes_trade_run: "delegates st (route (TradeRunMsg d) st) (st_on_trade_run d st)"
proof (cases "json_loads d")
  case (Inl x)
  then show ?thesis
    by (simp add: st_on_trade_run_def) (intro route_steps)
next
  case (Inr j)
  have "delegates st (route (TradeRunMsg d) st)
      (p_val (getitem j ''s'') (\<lambda>symbol. if_known symbol (\<lambda>k. on_symbol k (sd_on_trade_run j)) p_skip) st)"
    using if_known_at [of "\<lambda>k. on_symbol k (sd_on_trade_run j)" "\<lambda>k. TradeRun j" p_skip st j "''s''"]
    by (simp add: Inr harmless_basic)
  with Inr show ?thesis
    by (simp add: st_on_trade_run_def del: route.simps) (intro route_steps)
qed

lemma st_routes_trade_data: "delegates st (route (TradeDataMsg d) st) (st_on_trade_data d st)"
proof (cases "json_loads d")
  case (Inl x)
  then show ?thesis
    by (simp add: st_on_trade_data_def) (intro route_steps)
next
  case (Inr j)
  show ?thesis
  proof (cases "getitem j ''a''")
    case (Inl x)
    have "harmless (p_bind (p_raise x) k)" for x and k :: "unit \<Rightarrow> st_act"
      by (simp add: harmless_def emits_only_def p_bind_def p_raise_def)
    with Inl Inr show ?thesis
      by (simp add: st_on_trade_data_def) (intro route_steps)
  next
    case (Inr a)
    have "delegates st (route (TradeDataMsg d) st)
        (p_val (getitem j ''s'') (\<lambda>symbol. if_known symbol (\<lambda>k. on_symbol k (sd_on_trade_data j)) (p_raise AttributeError)) st)"
      using if_known_at [of "\<lambda>k. on_symbol k (sd_on_trade_data j)" "\<lambda>k. TradeData j" "p_raise AttributeError" st j "''s''"]
      by (simp add: \<open>json_loads d = Inr j\<close> Inr harmless_basic)
    then show ?thesis
      using Inr \<open>json_loads d = Inr j\<close>
      by (simp add: st_on_trade_data_def del: route.simps) (intro route_steps)
  qed
qed

lemma replace_usdt_case:
  "p_val (bind_sum v replace_usdt) f =
   (case v of
      Inl x \<Rightarrow> p_raise x
    | Inr j \<Rightarrow> (case j of JStr s \<Rightarrow> f (JStr (py_remove ''USDT'' s)) | _ \<Rightarrow> p_raise AttributeError))"
  by (cases v; cases "projr v") auto

lemma if_known_str:
  assumes "\<And>k. act k = on_symbol k (sd_handle (e k))"
  shows "delegates st (known st (k, e k)) (if_known (JStr k) act p_skip st)"
  using delegates_if_known [of act e p_skip st "JStr k", OF assms emits_silent(1)] by (simp add: p_skip_def)

lemma st_routes_report: "delegates st (route (ReportMsg d) st) (st_on_order_report d st)"
proof (cases "json_loads d")
  case (Inl x)
  then show ?thesis
    by (simp add: st_on_order_report_def) (intro route_steps)
next
  case (Inr j)
  let ?body = "p_val (bind_sum (getitem j ''s'') replace_usdt)
      (\<lambda>symbol. if_known symbol (\<lambda>k. on_symbol k (sd_on_order_report j)) p_skip)"
  let ?reply = "p_try is_key_error
      (p_val (getitem j ''msg'') (\<lambda>m. p_val (getitem j ''code'') (\<lambda>c. p_raise AttributeError)))
      (log_text ''Unknown REPORT from Binance'') :: st_act"
  have "delegates st (route (ReportMsg d) st) (?body st)"
  proof (cases "getitem j ''s''")
    case (Inl x)
    then show ?thesis
      using Inr by (simp add: str_at_None) (intro route_steps)
  next
    case (Inr v)
    then show ?thesis
      using \<open>json_loads d = Inr j\<close> if_known_str [of "\<lambda>k. on_symbol k (sd_on_order_report j)" "\<lambda>k. Report j" st]
      by (cases v) (simp_all add: str_at_case delegates_harmless harmless_basic)
  qed
  moreover have "harmless ?reply"
    by (cases "getitem j ''msg''"; cases "getitem j ''code''")
      (simp_all add: harmless_def emits_only_def p_try_def p_raise_def log_text_def p_emit_def)
  ultimately show ?thesis
    using Inr by (simp add: st_on_order_report_def del: route.simps) (intro route_steps)
qed

lemma st_routes_price: "delegates st (route (PriceMsg d) st) (st_on_price d st)"
proof (cases "json_loads d")
  case (Inl x)
  then show ?thesis
    by (simp add: st_on_price_def) (intro route_steps)
next
  case (Inr j)
  have "delegates st (route (PriceMsg d) st)
     (p_val (getitem j ''symbol'') (\<lambda>sym0. p_val (getitem j ''price'') (\<lambda>price.
            p_val (replace_usdt sym0) (\<lambda>symbol. if_known symbol (\<lambda>k. on_symbol k (sd_on_price price)) p_skip))) st)"
  proof (cases "getitem j ''symbol''")
    case (Inl x)
    then show ?thesis
      using Inr by (simp add: str_at_None) (intro route_steps)
  next
    case sym: (Inr v)
    show ?thesis
    proof (cases "getitem j ''price''")
      case (Inl x)
      then show ?thesis
        using \<open>json_loads d = Inr j\<close> sym
        by (cases "str_at j ''symbol''") (simp_all add: delegates_harmless harmless_basic)
    next
      case (Inr q)
      then show ?thesis
        using \<open>json_loads d = Inr j\<close> sym if_known_str [of "\<lambda>k. on_symbol k (sd_on_price q)" "\<lambda>k. Price q" st]
        by (cases v) (simp_all add: str_at_case delegates_harmless harmless_basic)
    qed
  qed
  with Inr show ?thesis
    by (simp add: st_on_price_def del: route.simps) (intro route_steps)
qed

lemma st_routes_timer: "delegates st (route (TimerFired k) st) (on_symbol k sd_on_order_complete_timeout st)"
proof (cases "map_of (st_symbol_data st) k")
  case None
  then show ?thesis
    by (simp add: known_def dict_has_def on_symbol_unknown delegates_def)
next
  case (Some sd)
  then show ?thesis
    by (simp add: known_def dict_has_def on_symbol_known [OF Some] delegates_def)
qed

lemma st_routes:
  assumes "routed ev"
  shows "delegates st (route ev st) (st_handle ev st)"
proof (cases ev)
  case (TradeDataMsg d)
  then show ?thesis
    by (simp add: st_routes_trade_data del: route.simps)
next
  case (ReportMsg d)
  then show ?thesis
    by (simp add: st_routes_report del: route.simps)
next
  case (PriceMsg d)
  then show ?thesis
    by (simp add: st_routes_price del: route.simps)
next
  case (TradeRunMsg d)
  then show ?thesis
    by (simp add: st_routes_trade_run del: route.simps)
next
  case (TimerFired k)
  then show ?thesis
    by (simp add: st_routes_timer del: route.simps)
qed (use assms in simp_all)

text \<open>The other messages place and delete nothing.\<close>

lemma update_balances_no_trade: "emits_only no_trade (update_balances fmt msg kb ka kt km kf kl)"
  unfolding update_balances_def own_balance_def usdt_balance_def set_commission_def
  by (intro emits_intros no_trade_simps)

lemma st_unrouted:
  assumes "\<not> routed ev"
  shows "emits_only no_trade (st_handle ev)"
proof (cases ev)
  case EvEval
  show ?thesis
    unfolding EvEval st_handle.simps st_eval_def log_func_def sd_on_test_def by (intro emits_intros no_trade_simps)
next
  case (SymbolsList ss)
  show ?thesis
    unfolding SymbolsList st_handle.simps st_on_symbols_list_def log_func_def by (intro emits_intros no_trade_simps)
next
  case (GetTradeState k)
  show ?thesis
    unfolding GetTradeState st_handle.simps st_on_get_trade_state_def by (intro emits_intros no_trade_simps)
next
  case (AccountMsg d)
  show ?thesis
    unfolding AccountMsg st_handle.simps st_on_account_def log_func_def log_text_def
    by (intro emits_intros no_trade_simps update_balances_no_trade)
next
  case (BalanceMsg d)
  show ?thesis
    unfolding BalanceMsg st_handle.simps st_on_balance_def log_func_def log_text_def
    by (intro emits_intros no_trade_simps update_balances_no_trade)
next
  case (ExchangeInfoMsg d)
  show ?thesis
    unfolding ExchangeInfoMsg st_handle.simps st_on_exchange_info_def log_func_def log_text_def
    by (intro emits_intros no_trade_simps sd_on_exchange_info_effects)
next
  case (WssData d)
  show ?thesis
    unfolding WssData st_handle.simps st_on_wss_data_def by (intro emits_intros no_trade_simps)
next
  case GetExchangeInfo
  show ?thesis
    unfolding GetExchangeInfo st_handle.simps st_get_exchange_info_def log_func_def
    by (intro emits_intros no_trade_simps)
qed (use assms in simp_all)

end
