(* ===== verification/MStrategyProps.thy ===== *)
theory MStrategyProps
  imports MStrategyFacts SymbolProps
begin

text \<open>
  The properties of the strategy as a whole: the invariant of every currency, the
  routing of messages, what a message may place, the account data, and the errors.
\<close>

section \<open>Library\<close>

definition btc :: strategy where
  "btc = state_of (st_handle (SymbolsList [''BTC'', ''ETH'']) Strategy)"

lemma btc_data: "st_symbol_data btc = [(''BTC'', SymbolData ''BTC''), (''ETH'', SymbolData ''ETH'')]"
  by (simp add: btc_def st_on_symbols_list_def log_func_def run_prog Strategy_def dict_set_def)

lemma btc_reach: "reach st_handle Strategy btc"
  unfolding btc_def by (intro reach_event reach_init)

text \<open>Messages as the bot receives them.\<close>

definition quoted :: "string \<Rightarrow> string" where
  "quoted s = quote # s @ [quote]"

definition field :: "string \<Rightarrow> string \<Rightarrow> string" where
  "field k v = quoted k @ '': '' @ quoted v"

definition price_text :: string where
  "price_text = ''{'' @ field ''symbol'' ''BTCUSDT'' @ '', '' @ field ''price'' ''100.5'' @ ''}''"

definition stop_text :: string where
  "stop_text = ''{'' @ field ''s'' ''XRP'' @ '', '' @ field ''a'' ''stop'' @ '', '' @ field ''p'' ''BUY'' @ ''}''"

definition error_text :: string where
  "error_text = ''{'' @ field ''code'' ''-1021'' @ '', '' @ field ''msg'' ''Timestamp'' @ ''}''"

definition balance_text :: string where
  "balance_text = ''{'' @ field ''m'' ''10'' @ '', '' @ field ''t'' ''25'' @ '', '' @ quoted ''B'' @ '': [{'' @
     field ''a'' ''BTC'' @ '','' @ field ''f'' ''1.5'' @ '','' @ field ''l'' ''0.25'' @ ''}]}''"

lemma price_json: "json_loads price_text = Inr (JObj [(''symbol'', JStr ''BTCUSDT''), (''price'', JStr ''100.5'')])"
  by code_simp

lemma stop_json: "json_loads stop_text = Inr (JObj [(''s'', JStr ''XRP''), (''a'', JStr ''stop''), (''p'', JStr ''BUY'')])"
  by code_simp

lemma error_json: "json_loads error_text = Inr (JObj [(''code'', JStr ''-1021''), (''msg'', JStr ''Timestamp'')])"
  by code_simp

lemma balance_json:
  "json_loads balance_text = Inr (JObj [(''m'', JStr ''10''), (''t'', JStr ''25''),
     (''B'', JList [JObj [(''a'', JStr ''BTC''), (''f'', JStr ''1.5''), (''l'', JStr ''0.25'')]])])"
  by code_simp

lemma usdt_removed: "py_remove ''USDT'' ''BTCUSDT'' = ''BTC''"
  by code_simp

lemma price_route: "route (PriceMsg price_text) btc = Some (''BTC'', Price (JStr ''100.5''))"
  by (simp add: price_json str_at_def dict_get_def usdt_removed known_def dict_has_def btc_data)

section \<open>Routing\<close>

text \<open>C22. Every currency keeps its invariant: whatever messages, prices, reports and timers arrive, in whatever
  order and however malformed, each currency of the strategy satisfies the invariant of its trading
  cycle, under its own name.\<close>

theorem st_every_currency_ok:
  assumes "reach st_handle Strategy st" and "map_of (st_symbol_data st) k = Some sd"
  shows "sd_inv k sd"
  using st_events.inv_reach [OF assms(1)] assms(2) by (rule st_invD)

theorem st_every_currency_ok_witness:
  "sd_inv ''ETH'' (SymbolData ''ETH'')"
  using st_every_currency_ok [OF btc_reach, of "''ETH''"] by (simp add: btc_data)

text \<open>C23. Delegation: a message with trade data, a start or stop, a report, a price, or a timer is the one event of
  the one currency it names, read from the text; the strategy's state, the orders placed and those
  deleted are the ones of that event, and without such a currency nothing happens.\<close>

theorem st_delegates:
  assumes "routed ev"
  shows "delegates st (route ev st) (st_handle ev st)"
  by (rule st_routes [OF assms])

theorem st_delegates_witness:
  "delegates btc (Some (''BTC'', Price (JStr ''100.5''))) (st_on_price price_text btc)"
  using st_delegates [of "PriceMsg price_text" btc] price_route by simp

text \<open>Isolation: such a message changes the state of no other currency.\<close>

theorem st_other_currencies:
  assumes "routed ev" and "\<forall>e. route ev st \<noteq> Some (j, e)"
  shows "map_of (st_symbol_data (state_of (st_handle ev st))) j = map_of (st_symbol_data st) j"
  using st_routes [OF assms(1), of st] assms(2)
  by (auto simp: delegates_def split: option.splits prod.splits)

theorem st_other_currencies_witness:
  "map_of (st_symbol_data (state_of (st_on_price price_text btc))) ''ETH'' = Some (SymbolData ''ETH'')"
  using st_other_currencies [of "PriceMsg price_text" btc "''ETH''"] price_route by (simp add: btc_data)

lemma st_no_order:
  assumes "\<not> routed ev"
  shows "orders_of (effects_of (st_handle ev st)) = []"
  using emits_no_trade(1) [OF st_unrouted [OF assms]] .

text \<open>C24. What the strategy may place: if a message makes the strategy send an order to the exchange, it sends
  exactly one, for one of its currencies that had no order out, and only when the trigger of the step is
  reached; it is the order of that currency's step as it was before the message, with the price and the
  quantity the user set when the message starts trading, under the new name, and right in pair, side and
  type.\<close>

theorem st_order_placed:
  assumes "st_inv st" and "ord \<in> set (orders_of (effects_of (st_handle ev st)))"
  shows "orders_of (effects_of (st_handle ev st)) = [ord] \<and>
    (\<exists>k sd sd'. map_of (st_symbol_data st) k = Some sd \<and> \<not> wait_order_act sd \<and>
       map_of (st_symbol_data (state_of (st_handle ev st))) k = Some sd' \<and> placed_right k sd' ord \<and>
       ord = order_due sd (sd_step sd'))"
proof -
  have r: "routed ev"
    using assms(2) st_no_order [of ev st] by (cases "routed ev") auto
  note d = st_routes [OF r, of st, unfolded delegates_def]
  obtain k e where ke: "route ev st = Some (k, e)"
    using d assms(2) by (cases "route ev st") auto
  obtain sd where sd: "map_of (st_symbol_data st) k = Some sd"
    "state_of (st_handle ev st) = st\<lparr>st_symbol_data := dict_set k (state_of (sd_handle e sd)) (st_symbol_data st)\<rparr>"
    "orders_of (effects_of (st_handle ev st)) = orders_of (effects_of (sd_handle e sd))"
    using d ke by auto
  from order_placed_inv [OF st_invD [OF assms(1) sd(1)], of ord e] order_sent [OF st_invD [OF assms(1) sd(1)], of ord e]
    assms(2) sd show ?thesis
    by auto
qed

definition hit_text :: string where
  "hit_text = ''{'' @ field ''symbol'' ''BTCUSDT'' @ '', '' @ field ''price'' ''101'' @ ''}''"

lemma hit_json: "json_loads hit_text = Inr (JObj [(''symbol'', JStr ''BTCUSDT''), (''price'', JStr ''101'')])"
  by code_simp

lemma hit_price: "float_of (JStr ''101'') = Inr (Fin False 101)"
  by code_simp

definition armed_btc :: strategy where
  "armed_btc = btc\<lparr>st_symbol_data := [(''BTC'', demo D3), (''ETH'', SymbolData ''ETH'')]\<rparr>"

lemma armed_btc_inv: "st_inv armed_btc"
  using demo_inv [of D3] sd_inv_init [of "''ETH''"] by (simp add: st_inv_def armed_btc_def)

lemma armed_btc_orders: "orders_of (effects_of (st_handle (PriceMsg hit_text) armed_btc)) = [placed_order (demo D3)]"
proof -
  have "route (PriceMsg hit_text) armed_btc = Some (''BTC'', Price (JStr ''101''))"
    by (simp add: hit_json str_at_def dict_get_def usdt_removed known_def dict_has_def armed_btc_def)
  then show ?thesis
    using st_routes [of "PriceMsg hit_text" armed_btc] price_turn(2) [OF demo_inv _ hit_price, of D3] demo_hits
    by (simp add: delegates_def armed_btc_def)
qed

theorem st_order_placed_witness:
  "\<exists>k sd sd'. map_of (st_symbol_data armed_btc) k = Some sd \<and>
     map_of (st_symbol_data (state_of (st_handle (PriceMsg hit_text) armed_btc))) k = Some sd' \<and>
     placed_right k sd' (placed_order (demo D3)) \<and> placed_order (demo D3) = order_due sd (sd_step sd')"
  using st_order_placed [OF armed_btc_inv, of "placed_order (demo D3)" "PriceMsg hit_text"] armed_btc_orders
  by (simp del: st_handle.simps) blast

section \<open>Account data\<close>

lemma on_symbol_upd: "map_of (st_symbol_data st) k = Some sd \<Longrightarrow>
    on_symbol k (p_upd f) st = (st\<lparr>st_symbol_data := dict_set k (f sd) (st_symbol_data st)\<rparr>, [], Done ())"
  by (simp add: on_symbol_def p_upd_def)

lemma dict_set_set: "dict_set k v (dict_set k w d) = dict_set k v d"
  by (simp add: dict_set_def update_last)

text \<open>The account data of a message for one currency.\<close>

definition balance_in :: "pyfloat \<Rightarrow> pyfloat \<Rightarrow> pyfloat \<Rightarrow> pyfloat \<Rightarrow> symbol_data \<Rightarrow> symbol_data" where
  "balance_in tc mc f l sd =
     sd\<lparr>sd_t_commission := tc, sd_m_commission := mc, sd_balance := \<lparr>b_free = f, b_locked = l\<rparr>\<rparr>"

lemma own_balance_run:
  assumes "map_of (st_symbol_data st) k = Some sd"
    and "float_at msg kt = Inr t" and "fdiv t (flit 100) = Inr tc" and "float_at msg km = Inr m" and "fdiv m (flit 100) = Inr mc"
    and "float_at entry kf = Inr f" and "float_at entry kl = Inr l"
  shows "own_balance fmt msg entry kt km kf kl k st =
    (st\<lparr>st_symbol_data := dict_set k (balance_in tc mc f l sd) (st_symbol_data st)\<rparr>,
     [ToLog (JFmt fmt [JStr k, JStrOf f, JStrOf l])], Done ())"
proof -
  have b: "b\<lparr>b_free := f, b_locked := l\<rparr> = \<lparr>b_free = f, b_locked = l\<rparr>" for b :: balance
    by (cases b) simp
  have c: "(b\<lparr>b_free := f\<rparr>)\<lparr>b_locked := l\<rparr> = \<lparr>b_free = f, b_locked = l\<rparr>" for b :: balance
    by (cases b) simp
  show ?thesis
    using assms
    by (simp add: own_balance_def set_commission_def sd_assign_def p_bind_def on_symbol_upd dict_set_set balance_in_def c
        on_symbol_def prog_defs)
qed

text \<open>C25. The account of one currency: a USER_DATA message with one entry, for a known currency, sets its free and
  locked amounts and both commissions, in fractions, and changes nothing else of any currency.\<close>

theorem st_balance_stored:
  assumes "json_loads d = Inr msg" and "getitem msg ''B'' = Inr (JList [entry])" and "getitem entry ''a'' = Inr (JStr k)"
    and "map_of (st_symbol_data st) k = Some sd"
    and "float_at msg ''t'' = Inr t" and "fdiv t (flit 100) = Inr tc"
    and "float_at msg ''m'' = Inr m" and "fdiv m (flit 100) = Inr mc"
    and "float_at entry ''f'' = Inr f" and "float_at entry ''l'' = Inr l"
  shows "state_of (st_on_balance d st) =
      st\<lparr>st_symbol_data := dict_set k (balance_in tc mc f l sd) (st_symbol_data st)\<rparr> \<and>
    outcome_of (st_on_balance d st) = Done ()"
  using own_balance_run [OF assms(4-10)] assms(1-4)
  by (simp add: st_on_balance_def log_func_def log_text_def update_balances_def if_known_def dict_has_def
      p_bind_def p_try_def prog_defs)

theorem st_balance_stored_witness:
  "map_of (st_symbol_data (state_of (st_on_balance balance_text btc))) ''BTC'' =
     Some (balance_in (flit (25 / 100)) (flit (10 / 100)) (flit (15 / 10)) (flit (25 / 100)) (SymbolData ''BTC''))"
proof -
  have "float_of (JStr ''25'') = Inr (flit 25)" "fdiv (flit 25) (flit 100) = Inr (flit (25 / 100))"
    "float_of (JStr ''10'') = Inr (flit 10)" "fdiv (flit 10) (flit 100) = Inr (flit (10 / 100))"
    "float_of (JStr ''1.5'') = Inr (flit (15 / 10))" "float_of (JStr ''0.25'') = Inr (flit (25 / 100))"
    by code_simp+
  then show ?thesis
    using st_balance_stored [OF balance_json, of "JObj [(''a'', JStr ''BTC''), (''f'', JStr ''1.5''), (''l'', JStr ''0.25'')]"
        "''BTC''" btc "SymbolData ''BTC''" "flit 25" "flit (25 / 100)" "flit 10" "flit (10 / 100)" "flit (15 / 10)" "flit (25 / 100)"]
    by (simp add: btc_data dict_get_def float_at_def)
qed

section \<open>Errors\<close>

fun text_of :: "st_event \<Rightarrow> string option" where
  "text_of (TradeDataMsg d) = Some d"
| "text_of (TradeRunMsg d) = Some d"
| "text_of (ReportMsg d) = Some d"
| "text_of (PriceMsg d) = Some d"
| "text_of (AccountMsg d) = Some d"
| "text_of (BalanceMsg d) = Some d"
| "text_of (ExchangeInfoMsg d) = Some d"
| "text_of _ = None"

lemma json_loads_error: "json_loads d = Inl x \<Longrightarrow> x = JSONDecodeError"
  by (auto simp: json_loads_def split: option.splits prod.splits if_splits)

text \<open>A text that is not JSON: trade data, a start or stop, a report, a price, an account or an exchange
  description is logged and dropped; no currency changes and nothing is sent anywhere else.\<close>

theorem st_bad_text:
  assumes "text_of ev = Some d" and "json_loads d = Inl x"
  shows "state_of (st_handle ev st) = st \<and> outcome_of (st_handle ev st) = Done () \<and>
    (\<forall>e \<in> set (effects_of (st_handle ev st)). \<exists>j. e = ToLog j)"
  using assms json_loads_error [OF assms(2)]
  by (cases ev)
    (auto simp: st_on_trade_data_def st_on_trade_run_def st_on_order_report_def st_on_price_def st_on_account_def
      st_on_balance_def st_on_exchange_info_def log_func_def log_text_def is_json_error_def run_prog)

theorem st_bad_text_witness:
  "state_of (st_on_price ''nonsense'' btc) = btc \<and> outcome_of (st_on_price ''nonsense'' btc) = Done ()"
proof -
  have "json_loads ''nonsense'' = Inl JSONDecodeError"
    by code_simp
  then show ?thesis
    using st_bad_text [of "PriceMsg ''nonsense''" "''nonsense''" JSONDecodeError btc] by simp
qed

text \<open>C26. An error report of the exchange, without a currency: the handler meant to forward it raises
  AttributeError instead; nothing reaches the web client or the alert channel, and no currency changes.\<close>

theorem st_error_report_lost:
  assumes "json_loads d = Inr j" and "getitem j ''s'' = Inl KeyError"
    and "getitem j ''msg'' = Inr m" and "getitem j ''code'' = Inr c"
  shows "state_of (st_on_order_report d st) = st \<and> outcome_of (st_on_order_report d st) = Raised AttributeError \<and>
    (\<forall>e \<in> set (effects_of (st_on_order_report d st)). \<exists>j. e = ToLog j)"
  using assms
  by (auto simp: st_on_order_report_def log_func_def log_text_def is_key_error_def is_json_error_def run_prog)

theorem st_error_report_lost_witness:
  "outcome_of (st_on_order_report error_text btc) = Raised AttributeError"
  using st_error_report_lost [OF error_json, of "JStr ''Timestamp''" "JStr ''-1021''" btc] by (simp add: dict_get_def)

text \<open>Trade data for a currency that is not traded: the method raises AttributeError and the web client gets
  no answer.\<close>

theorem st_unknown_currency:
  assumes "json_loads d = Inr j" and "getitem j ''a'' = Inr a" and "getitem j ''s'' = Inr (JStr k)"
    and "map_of (st_symbol_data st) k = None"
  shows "state_of (st_on_trade_data d st) = st \<and> outcome_of (st_on_trade_data d st) = Raised AttributeError \<and>
    web_of (effects_of (st_on_trade_data d st)) = []"
  using assms
  by (simp add: st_on_trade_data_def log_func_def if_known_def dict_has_def run_prog)

theorem st_unknown_currency_witness:
  "outcome_of (st_on_trade_data stop_text btc) = Raised AttributeError"
  using st_unknown_currency [OF stop_json, of "JStr ''stop''" "''XRP''" btc] by (simp add: dict_get_def btc_data)

end
