(* ===== verification/Bot.thy ===== *)
theory Bot
  imports MarketProps MStrategyProps
begin

text \<open>
  The whole script at the exchange: all its currencies, driven by the messages of the bot, and the
  exchange of theory Market.
\<close>

section \<open>The script and the exchange\<close>

record 'x bot =
  b_script :: strategy
  b_exch :: 'x

definition bot_react :: "'x exchange \<Rightarrow> st_event \<Rightarrow> 'x bot \<Rightarrow> 'x bot" where
  "bot_react E ev b =
     (case st_handle ev (b_script b) of (st, es, _) \<Rightarrow> \<lparr>b_script = st, b_exch = fold (deal E) es (b_exch b)\<rparr>)"

lemma bot_react_simps [simp]:
  "b_script (bot_react E ev b) = state_of (st_handle ev (b_script b))"
  "b_exch (bot_react E ev b) = fold (deal E) (effects_of (st_handle ev (b_script b))) (b_exch b)"
  by (simp_all add: bot_react_def split_beta)

text \<open>The bot gives the script its currencies once, at the start (src/application.cpp, \<open>init\<close>).\<close>

definition bot0 :: "'x exchange \<Rightarrow> string list \<Rightarrow> 'x \<Rightarrow> 'x bot" where
  "bot0 E ss x = bot_react E (SymbolsList ss) \<lparr>b_script = Strategy, b_exch = x\<rparr>"

fun st_free :: "st_event \<Rightarrow> bool" where
  "st_free (ReportMsg d) = False"
| "st_free (SymbolsList ss) = False"
| "st_free _ = True"

text \<open>Messages arrive in any order.  A text handed to \<open>on_order_report\<close> reports something new, repeats a
  report of a currency's order (\<open>Again\<close>), or names no currency of the script.\<close>

datatype bot_event = Msg st_event | Again string

inductive bstep :: "'x exchange \<Rightarrow> 'x bot \<Rightarrow> bot_event \<Rightarrow> 'x bot \<Rightarrow> bool"
  for E :: "'x exchange"
where
  st_asked: "st_free ev \<Longrightarrow> bstep E b (Msg ev) (bot_react E ev b)"
| st_reported: "json_loads d = Inr j \<Longrightarrow> x_report E j (b_exch b) = Some x \<Longrightarrow>
    bstep E b (Msg (ReportMsg d)) (bot_react E (ReportMsg d) (b\<lparr>b_exch := x\<rparr>))"
| st_repeated: "json_loads d = Inr j \<Longrightarrow> x_repeat E j (b_exch b) \<Longrightarrow>
    str_at j ''s'' = Some (k @ ''USDT'') \<Longrightarrow> dict_has (st_symbol_data (b_script b)) k \<Longrightarrow>
    bstep E b (Again d) (bot_react E (ReportMsg d) b)"
| st_ignored: "route (ReportMsg d) (b_script b) = None \<Longrightarrow> bstep E b (Msg (ReportMsg d)) (bot_react E (ReportMsg d) b)"

inductive breach :: "'x exchange \<Rightarrow> ('x bot \<Rightarrow> bot_event \<Rightarrow> bool) \<Rightarrow> 'x bot \<Rightarrow> 'x bot \<Rightarrow> bool"
  for E :: "'x exchange" and P :: "'x bot \<Rightarrow> bot_event \<Rightarrow> bool" and b0 :: "'x bot"
where
  breach_init: "breach E P b0 b0"
| breach_step: "breach E P b0 b \<Longrightarrow> bstep E b ev b' \<Longrightarrow> P b ev \<Longrightarrow> breach E P b0 b'"

text \<open>No timeout gives an order up, and no report of an earlier deletion comes again to a currency that awaits
  another.\<close>

fun bot_orderly :: "'x bot \<Rightarrow> bot_event \<Rightarrow> bool" where
  "bot_orderly b (Msg (TimerFired k)) = False"
| "bot_orderly b (Msg ev) = True"
| "bot_orderly b (Again d) \<longleftrightarrow>
     (case route (ReportMsg d) (b_script b) of
        Some (k, Report j) \<Rightarrow>
          (case map_of (st_symbol_data (b_script b)) k of
             Some sd \<Rightarrow> \<not> (status_is j ''CANCELED'' \<and> (\<exists>i l. phase_of sd = Cancelling i l))
           | None \<Rightarrow> True)
      | _ \<Rightarrow> True)"

section \<open>What the currencies wait for\<close>

definition awaits :: "strategy \<Rightarrow> string \<rightharpoonup> (string \<times> string) set" where
  "awaits st k = map_option waited_orders (map_of (st_symbol_data st) k)"

definition awaited :: "strategy \<Rightarrow> (string \<times> string) set" where
  "awaited st = \<Union> (ran (awaits st))"

definition steady :: "(string \<rightharpoonup> (string \<times> string) set) \<Rightarrow> strategy \<Rightarrow> bool" where
  "steady W st \<longleftrightarrow> st_inv st \<and> awaits st = W"

definition coin_steady :: "string \<Rightarrow> (string \<times> string) set \<Rightarrow> symbol_data \<Rightarrow> bool" where
  "coin_steady k X sd \<longleftrightarrow> sd_inv k sd \<and> waited_orders sd = X"

lemma awaits_set:
  "awaits (st\<lparr>st_symbol_data := dict_set k sd (st_symbol_data st)\<rparr>) = (awaits st)(k \<mapsto> waited_orders sd)"
  by (simp add: awaits_def fun_eq_iff)

lemma keeps_steady [keeps_intros]:
  assumes "\<And>X. keeps (coin_steady k X) m"
  shows "keeps (steady W) (on_symbol k m)"
proof (rule keepsI)
  fix st
  assume st: "steady W st"
  show "steady W (state_of (on_symbol k m st))"
  proof (cases "map_of (st_symbol_data st) k")
    case None
    with st show ?thesis
      by (simp add: on_symbol_unknown)
  next
    case (Some sd)
    have "coin_steady k (waited_orders sd) sd"
      using st st_invD [of st k sd] Some by (simp add: steady_def coin_steady_def)
    from keepsD [OF assms this] have "sd_inv k (state_of (m sd))" "waited_orders (state_of (m sd)) = waited_orders sd"
      by (simp_all add: coin_steady_def)
    moreover have "W k = Some (waited_orders sd)"
      using st Some by (auto simp: steady_def awaits_def)
    ultimately show ?thesis
      using st st_inv_set [of st k "state_of (m sd)"] 
      by (simp add: on_symbol_known(1) [OF Some] steady_def awaits_set fun_upd_idem)
  qed
qed

lemma waited_account [simp]:
  "waited_orders (sd\<lparr>sd_balance := b\<rparr>) = waited_orders sd" "waited_orders (sd\<lparr>sd_balance_usdt := b\<rparr>) = waited_orders sd"
  "waited_orders (sd\<lparr>sd_t_commission := x\<rparr>) = waited_orders sd" "waited_orders (sd\<lparr>sd_m_commission := x\<rparr>) = waited_orders sd"
  using mode_ok_cong(2) [of "sd\<lparr>sd_balance := b\<rparr>" sd] mode_ok_cong(2) [of "sd\<lparr>sd_balance_usdt := b\<rparr>" sd]
    mode_ok_cong(2) [of "sd\<lparr>sd_t_commission := x\<rparr>" sd] mode_ok_cong(2) [of "sd\<lparr>sd_m_commission := x\<rparr>" sd]
  by (simp_all add: waited_orders_def cong: option.case_cong)

lemma keeps_steady_assign:
  "(\<And>sd. sd_inv k sd \<Longrightarrow> sd_inv k (f sd) \<and> waited_orders (f sd) = waited_orders sd) \<Longrightarrow> keeps (steady W) (sd_assign k f)"
  unfolding sd_assign_def coin_steady_def by (intro keeps_intros) (auto simp: coin_steady_def)

lemma keeps_steady_balances: "keeps (steady W) (update_balances fmt msg kb ka kt km kf kl)"
  unfolding update_balances_def own_balance_def usdt_balance_def set_commission_def
  by (intro keeps_intros keeps_steady_assign; simp)

lemma keeps_steady_info: "keeps (coin_steady k X) (sd_on_exchange_info j)"
proof (rule keepsI)
  fix sd
  assume sd: "coin_steady k X sd"
  let ?t = "state_of (sd_on_exchange_info j sd)"
  have frame: "filters_changed sd ?t"
    by (rule sd_on_exchange_info_frame)
  have "sd_orders ?t = sd_orders sd"
    using frame by (cases sd; cases ?t; simp add: filters_changed_def)
  then show "coin_steady k X ?t"
    using sd inv_filters_changed [OF _ frame, of k] by (simp add: coin_steady_def waited_orders_def cong: option.case_cong)
qed

lemma unrouted_steady:
  assumes "\<not> routed ev" and "st_free ev"
  shows "keeps (steady W) (st_handle ev)"
proof (cases ev)
  case EvEval
  show ?thesis
    unfolding EvEval st_handle.simps st_eval_def log_func_def by (intro keeps_intros keeps_sd_on_test)
next
  case (GetTradeState k)
  show ?thesis
    unfolding GetTradeState st_handle.simps st_on_get_trade_state_def by (intro keeps_intros)
next
  case (AccountMsg d)
  show ?thesis
    unfolding AccountMsg st_handle.simps st_on_account_def log_func_def log_text_def
    by (intro keeps_intros keeps_steady_balances)
next
  case (BalanceMsg d)
  show ?thesis
    unfolding BalanceMsg st_handle.simps st_on_balance_def log_func_def log_text_def
    by (intro keeps_intros keeps_steady_balances)
next
  case (ExchangeInfoMsg d)
  show ?thesis
    unfolding ExchangeInfoMsg st_handle.simps st_on_exchange_info_def log_func_def log_text_def
    by (intro keeps_intros keeps_steady_info)
next
  case (WssData d)
  show ?thesis
    unfolding WssData st_handle.simps st_on_wss_data_def by (intro keeps_intros)
next
  case GetExchangeInfo
  show ?thesis
    unfolding GetExchangeInfo st_handle.simps st_get_exchange_info_def log_func_def by (intro keeps_intros)
qed (use assms in simp_all)

section \<open>The orders of the script\<close>

text \<open>A currency whose name survives \<open>replace('USDT', '')\<close> on its pair.\<close>

definition plain :: "string \<Rightarrow> bool" where
  "plain k \<longleftrightarrow> py_remove ''USDT'' (k @ ''USDT'') = k"

definition bot_inv :: "'x exchange \<Rightarrow> 'x bot \<Rightarrow> bool" where
  "bot_inv E b \<longleftrightarrow> st_inv (b_script b) \<and> (\<forall>k \<in> dom (awaits (b_script b)). plain k) \<and>
     x_open E (b_exch b) \<subseteq> awaited (b_script b)"

lemma awaits_key:
  assumes "st_inv st" and "awaits st k = Some X" and "(pair, n) \<in> X"
  shows "pair = k @ ''USDT''" and "X = {(pair, n)}"
proof -
  obtain sd where sd: "map_of (st_symbol_data st) k = Some sd" "X = waited_orders sd"
    using assms(2) by (auto simp: awaits_def)
  obtain i where "order_out (phase_of sd) = Some i"
    using assms(3) sd(2) by (auto simp: waited_orders_def split: option.splits)
  from waited_key [OF st_invD [OF assms(1) sd(1)] this] assms(3) sd(2)
  show "pair = k @ ''USDT''" and "X = {(pair, n)}"
    by auto
qed

text \<open>What an exchange has done when the script handles a message, and what is known of a repeated report.\<close>

definition st_delivered :: "strategy \<Rightarrow> st_event \<Rightarrow> (string \<times> string) set \<Rightarrow> (string \<times> string) set \<Rightarrow> bool" where
  "st_delivered st ev X Y \<longleftrightarrow>
     Y \<subseteq> X \<and>
     (\<forall>d j. ev = ReportMsg d \<longrightarrow> json_loads d = Inr j \<longrightarrow> closing j \<longrightarrow>
        (\<exists>n \<in> X. about j n \<and> Y \<subseteq> X - {n}) \<or>
        (\<forall>k sd. route ev st = Some (k, Report j) \<longrightarrow> map_of (st_symbol_data st) k = Some sd \<longrightarrow> stale k sd j Y))"

lemma route_report:
  assumes "route ev st = Some (k, Report j)"
  obtains d x where "ev = ReportMsg d" and "json_loads d = Inr j" and "str_at j ''s'' = Some x" and "k = py_remove ''USDT'' x"
  using assms
  by (cases ev) (auto simp: known_def split: sum.splits option.splits prod.splits if_splits)

lemma route_timeout: "route ev st = Some (k, Timeout) \<Longrightarrow> ev = TimerFired k"
  by (cases ev) (auto simp: known_def split: sum.splits option.splits prod.splits if_splits)

lemma routed_open:
  assumes "documented E" and "bot_inv E b" and "routed ev" and "\<forall>k. ev \<noteq> TimerFired k"
    and "st_delivered (b_script b) ev (x_open E (b_exch b)) (x_open E y)"
  shows "bot_inv E (bot_react E ev (b\<lparr>b_exch := y\<rparr>))"
proof -
  let ?st = "b_script b" and ?X = "x_open E (b_exch b)" and ?Y = "x_open E y"
  have inv: "st_inv ?st" "\<forall>k \<in> dom (awaits ?st). plain k" "?X \<subseteq> awaited ?st"
    using assms(2) by (simp_all add: bot_inv_def)
  have "?Y \<subseteq> ?X"
    using assms(5) by (simp add: st_delivered_def)
  let ?out = "st_handle ev ?st"
  have inv': "st_inv (state_of ?out)"
    using keepsD [OF st_handle_keeps inv(1)] .
  have sent: "x_open E (b_exch (bot_react E ev (b\<lparr>b_exch := y\<rparr>))) \<subseteq> order_key ` set (orders_of (effects_of ?out)) \<union> ?Y"
    using deal_open [OF assms(1)] by (simp del: st_handle.simps)
  note d = st_routes [OF assms(3), of ?st, unfolded delegates_def]
  show ?thesis
  proof (cases "route ev ?st")
    case None
    then have "state_of ?out = ?st" "orders_of (effects_of ?out) = []"
      using d by simp_all
    then show ?thesis
      using inv sent \<open>?Y \<subseteq> ?X\<close> by (auto simp: bot_inv_def simp del: st_handle.simps)
  next
    case (Some r)
    then obtain k e where r: "route ev ?st = Some (k, e)"
      by (cases r) auto
    then obtain sd where sd: "map_of (st_symbol_data ?st) k = Some sd"
      "state_of ?out = ?st\<lparr>st_symbol_data := dict_set k (state_of (sd_handle e sd)) (st_symbol_data ?st)\<rparr>"
      "orders_of (effects_of ?out) = orders_of (effects_of (sd_handle e sd))"
      using d by auto
    have k: "awaits ?st k = Some (waited_orders sd)"
      by (simp add: awaits_def sd(1))
    have new: "awaits (state_of ?out) = (awaits ?st)(k \<mapsto> waited_orders (state_of (sd_handle e sd)))"
      unfolding sd(2) by (rule awaits_set)
    have "e \<noteq> Timeout"
      using route_timeout r assms(4) by auto
    have "delivered k sd e (?X \<inter> waited_orders sd) (?Y \<inter> waited_orders sd)"
      unfolding delivered_def
    proof (intro conjI allI impI)
      fix j
      assume j: "e = Report j" "closing j"
      obtain d x where dx: "ev = ReportMsg d" "json_loads d = Inr j" "str_at j ''s'' = Some x" "k = py_remove ''USDT'' x"
        by (rule route_report [OF r [unfolded j(1)]])
      from assms(5) dx(1,2) j(2) consider n where "n \<in> ?X" "about j n" "?Y \<subseteq> ?X - {n}" | "stale k sd j ?Y"
        using r j(1) sd(1) unfolding st_delivered_def by metis
      then show "(\<exists>n \<in> ?X \<inter> waited_orders sd. ?Y \<inter> waited_orders sd \<subseteq> ?X \<inter> waited_orders sd - {n}) \<or>
          stale k sd j (?Y \<inter> waited_orders sd)"
      proof cases
        case (1 m)
        obtain pair n where n: "m = (pair, n)"
          by (cases m)
        then obtain k0 X0 where k0: "awaits ?st k0 = Some X0" "(pair, n) \<in> X0"
          using inv(3) 1(1) by (auto simp: awaited_def ran_def)
        have "x = pair"
          using 1(2) n dx(3) by (simp add: str_at_def)
        then have "k = k0"
          using awaits_key(1) [OF inv(1) k0] inv(2) k0(1) dx(4) by (auto simp: plain_def)
        then show ?thesis
          using 1 n k k0 by auto
      next
        case 2
        then have "stale k sd j (?Y \<inter> waited_orders sd)"
          by (auto simp: stale_def split: if_splits)
        then show ?thesis ..
      qed
    qed (use \<open>?Y \<subseteq> ?X\<close> in auto)
    from event_open [OF st_invD [OF inv(1) sd(1)] \<open>e \<noteq> Timeout\<close> this]
    have own: "order_key ` set (orders_of (effects_of ?out)) \<subseteq> waited_orders (state_of (sd_handle e sd))"
      "?Y \<inter> waited_orders sd \<subseteq> waited_orders (state_of (sd_handle e sd))"
      by (auto simp: sd(3))
    have "z \<in> awaited (state_of ?out)" if z: "z \<in> ?Y" for z
    proof -
      obtain k' X' where k': "awaits ?st k' = Some X'" "z \<in> X'"
        using z \<open>?Y \<subseteq> ?X\<close> inv(3) by (auto simp: awaited_def ran_def)
      show ?thesis
      proof (cases "k' = k")
        case True
        then show ?thesis
          using own(2) z k k' new by (auto simp: awaited_def ran_def)
      next
        case False
        then have "awaits (state_of ?out) k' = Some X'"
          using k'(1) new by simp
        then show ?thesis
          using k'(2) by (auto simp: awaited_def ran_def)
      qed
    qed
    moreover have "waited_orders (state_of (sd_handle e sd)) \<subseteq> awaited (state_of ?out)"
      using new by (auto simp: awaited_def ran_def)
    moreover have "dom (awaits (state_of ?out)) = dom (awaits ?st)"
      using new k by auto
    ultimately show ?thesis
      using inv' inv(2) sent own(1) by (simp add: bot_inv_def del: st_handle.simps) blast
  qed
qed

lemma unrouted_open:
  assumes "documented E" and "bot_inv E b" and "\<not> routed ev" and "st_free ev"
  shows "bot_inv E (bot_react E ev b)"
proof -
  let ?out = "st_handle ev (b_script b)"
  have "steady (awaits (b_script b)) (state_of ?out)"
    by (rule keepsD [OF unrouted_steady [OF assms(3,4)]]) (use assms(2) in \<open>simp add: steady_def bot_inv_def\<close>)
  then have "st_inv (state_of ?out)" "awaits (state_of ?out) = awaits (b_script b)"
    by (simp_all add: steady_def)
  moreover have "x_open E (b_exch (bot_react E ev b)) \<subseteq> x_open E (b_exch b)"
    using deal_open [OF assms(1), of "effects_of ?out" "b_exch b"] st_no_order [OF assms(3)] by (simp del: st_handle.simps)
  ultimately show ?thesis
    using assms(2) by (auto simp: bot_inv_def awaited_def simp del: st_handle.simps)
qed

lemma bstep_inv:
  assumes "documented E" and "bstep E b ev b'" and "bot_orderly b ev" and "bot_inv E b"
  shows "bot_inv E b'"
  using assms(2)
proof (cases rule: bstep.cases)
  case (st_asked ev')
  have timer: "\<forall>k. ev' \<noteq> TimerFired k"
    using assms(3) st_asked(1) by auto
  show ?thesis
  proof (cases "routed ev'")
    case True
    have "st_delivered (b_script b) ev' (x_open E (b_exch b)) (x_open E (b_exch b))"
      using st_asked(3) by (cases ev') (simp_all add: st_delivered_def)
    from routed_open [OF assms(1,4) True timer this] show ?thesis
      using st_asked by simp
  next
    case False
    then show ?thesis
      using unrouted_open [OF assms(1,4)] st_asked by simp
  qed
next
  case (st_reported d j x)
  obtain n where n: "n \<in> x_open E (b_exch b)" "about j n" "x_open E x \<subseteq> x_open E (b_exch b)"
    "closing j \<Longrightarrow> x_open E x \<subseteq> x_open E (b_exch b) - {n}"
    by (rule documented_report [OF assms(1) st_reported(4)]) blast
  then have "st_delivered (b_script b) (ReportMsg d) (x_open E (b_exch b)) (x_open E x)"
    using st_reported(3) unfolding st_delivered_def by auto
  then show ?thesis
    using routed_open [OF assms(1,4), of "ReportMsg d"] st_reported(2) by simp
next
  case (st_repeated d j k)
  have k: "py_remove ''USDT'' (k @ ''USDT'') = k"
    using assms(4) st_repeated(6) by (auto simp: bot_inv_def plain_def awaits_def dict_has_def)
  have route: "route (ReportMsg d) (b_script b) = Some (k, Report j)"
    using st_repeated(3,5,6) k by (simp add: known_def)
  have "stale k sd j (x_open E (b_exch b))" if "map_of (st_symbol_data (b_script b)) k = Some sd" for sd
    using repeat_stale [OF assms(1) st_repeated(4)] st_repeated(1,5) assms(3) that route
    by (auto simp: str_at_def simp del: route.simps split: sum.splits json.splits)
  then have "st_delivered (b_script b) (ReportMsg d) (x_open E (b_exch b)) (x_open E (b_exch b))"
    using route st_repeated(3) by (auto simp: st_delivered_def simp del: route.simps)
  then show ?thesis
    using routed_open [OF assms(1,4), of "ReportMsg d" "b_exch b"] st_repeated(2) by simp
next
  case (st_ignored d)
  let ?out = "st_handle (ReportMsg d) (b_script b)"
  have "state_of ?out = b_script b" "orders_of (effects_of ?out) = []"
    using st_routes_report [of "b_script b" d] st_ignored(3) by (simp_all add: delegates_def del: route.simps)
  then show ?thesis
    using assms(4) deal_open [OF assms(1), of "effects_of ?out" "b_exch b"]
    unfolding st_ignored(2) by (auto simp: bot_inv_def simp del: st_handle.simps)
qed

lemma bot0_inv:
  assumes "documented E" and "x_open E x = {}" and "\<forall>k \<in> set ss. plain k"
  shows "bot_inv E (bot0 E ss x)"
proof -
  let ?I = "\<lambda>st. st_inv st \<and> (\<forall>k \<in> dom (awaits st). plain k)"
  let ?st = "state_of (st_handle (SymbolsList ss) Strategy)"
  have set: "?I (st\<lparr>st_symbol_data := dict_set k (SymbolData k) (st_symbol_data st)\<rparr>)" if "?I st" "k \<in> set ss" for st k
    using that st_inv_set [of st k "SymbolData k"] sd_inv_init assms(3) by (simp add: awaits_set)
  have "keeps ?I (st_handle (SymbolsList ss))"
    unfolding st_handle.simps st_on_symbols_list_def log_func_def by (intro keeps_intros set)
  moreover have "?I Strategy"
    by (simp add: st_inv_def awaits_def Strategy_def dom_def)
  ultimately have "?I ?st"
    by (rule keepsD)
  moreover have "x_open E (b_exch (bot0 E ss x)) = {}"
    using deal_open [OF assms(1), of "effects_of (st_handle (SymbolsList ss) Strategy)" x] st_no_order [of "SymbolsList ss" Strategy] assms(2)
    by (simp add: bot0_def del: st_handle.simps)
  ultimately show ?thesis
    by (simp add: bot_inv_def) (simp add: bot0_def)
qed

lemma breach_inv:
  assumes "breach E bot_orderly b0 b" and "documented E" and "bot_inv E b0"
  shows "bot_inv E b"
  using assms(1) by (induction rule: breach.induct) (use assms(3) bstep_inv [OF assms(2)] in blast)+

section \<open>A run\<close>

text \<open>The messages of the example as texts.\<close>

definition set_text :: string where
  "set_text = ''{'' @ field ''a'' ''set'' @ '', '' @ field ''s'' ''BTC'' @ '', '' @ quoted ''q'' @ '': 2.0, '' @
     quoted ''B'' @ '': {'' @ quoted ''t'' @ '': 100.0, '' @ quoted ''p'' @ '': 99.0}, '' @
     quoted ''S'' @ '': {'' @ quoted ''t'' @ '': 110.0, '' @ quoted ''p'' @ '': 111.0}}''"

definition start_text :: string where
  "start_text = ''{'' @ field ''a'' ''start'' @ '', '' @ field ''p'' ''BUY'' @ '', '' @ field ''s'' ''BTC'' @ ''}''"

definition tick_text :: "string \<Rightarrow> string" where
  "tick_text x = ''{'' @ field ''symbol'' ''BTCUSDT'' @ '', '' @ quoted ''price'' @ '': '' @ x @ ''}''"

lemma set_json: "json_loads set_text = Inr demo_set"
  by code_simp

lemma start_json: "json_loads start_text = Inr (demo_run ''start'')"
  by code_simp

lemma tick_json:
  "json_loads (tick_text ''98.0'') = Inr (JObj [(''symbol'', JStr ''BTCUSDT''), (''price'', dollars 98)])"
  "json_loads (tick_text ''101.0'') = Inr (JObj [(''symbol'', JStr ''BTCUSDT''), (''price'', dollars 101)])"
  by code_simp+

definition demo_messages :: "st_event list" where
  "demo_messages = [TradeDataMsg set_text, TradeRunMsg start_text, PriceMsg (tick_text ''98.0''), PriceMsg (tick_text ''101.0'')]"

definition demo_bot :: "st_event list \<Rightarrow> (string \<times> string) list bot" where
  "demo_bot evs = fold (bot_react book) evs (bot0 book [''BTC'', ''ETH''] [])"

lemma demo_bot_reach:
  "list_all (\<lambda>ev. st_free ev \<and> (\<forall>b. P b (Msg ev))) evs \<Longrightarrow> breach book P (bot0 book [''BTC'', ''ETH''] []) (demo_bot evs)"
proof (induction evs rule: rev_induct)
  case Nil
  show ?case
    by (simp add: demo_bot_def breach_init)
next
  case (snoc ev evs)
  then show ?case
    using breach_step [OF _ st_asked [of ev book "demo_bot evs"]] by (simp add: demo_bot_def)
qed

text \<open>\<open>BTC\<close> is where the events of the example have led it.\<close>

definition btc_at :: "sd_event list \<Rightarrow> strategy \<Rightarrow> bool" where
  "btc_at evs st \<longleftrightarrow> map_of (st_symbol_data st) ''BTC'' = Some (demo evs)"

lemma btc_at_step:
  assumes "btc_at evs st" and "routed m" and "\<And>st. dict_has (st_symbol_data st) ''BTC'' \<Longrightarrow> route m st = Some (''BTC'', e)"
  shows "btc_at (evs @ [e]) (state_of (st_handle m st))"
    and "orders_of (effects_of (st_handle m st)) = orders_of (effects_of (sd_handle e (demo evs)))"
  using st_routes [OF assms(2), of st] assms(1,3) by (auto simp: delegates_def btc_at_def demo_snoc dict_has_def)

lemma demo_routes:
  assumes "dict_has (st_symbol_data st) ''BTC''"
  shows "route (TradeDataMsg set_text) st = Some (''BTC'', TradeData demo_set)"
    and "route (TradeRunMsg start_text) st = Some (''BTC'', TradeRun (demo_run ''start''))"
    and "route (PriceMsg (tick_text ''98.0'')) st = Some (''BTC'', Price (dollars 98))"
    and "route (PriceMsg (tick_text ''101.0'')) st = Some (''BTC'', Price (dollars 101))"
proof -
  have "getitem demo_set ''a'' = Inr (JStr ''set'')" "str_at demo_set ''s'' = Some ''BTC''"
    "str_at (demo_run ''start'') ''s'' = Some ''BTC''"
    by (simp_all add: demo_set_def demo_run_def str_at_def dict_get_def)
  then show "route (TradeDataMsg set_text) st = Some (''BTC'', TradeData demo_set)"
    and "route (TradeRunMsg start_text) st = Some (''BTC'', TradeRun (demo_run ''start''))"
    using assms by (simp_all add: set_json start_json known_def)
  show "route (PriceMsg (tick_text ''98.0'')) st = Some (''BTC'', Price (dollars 98))"
    and "route (PriceMsg (tick_text ''101.0'')) st = Some (''BTC'', Price (dollars 101))"
    using assms by (simp_all add: tick_json str_at_def dict_get_def usdt_removed known_def)
qed

lemma demo_bot_open: "demo_key \<in> set (b_exch (demo_bot demo_messages))"
proof -
  have "btc_at [] (b_script (demo_bot []))"
    using btc_data by (simp add: btc_at_def demo_bot_def bot0_def btc_def)
  then have "btc_at D1 (b_script (demo_bot (take 1 demo_messages)))"
    using btc_at_step(1) [where evs = "[]", OF _ _ demo_routes(1)] by (simp add: D1_def demo_messages_def demo_bot_def del: st_handle.simps)
  then have "btc_at D2 (b_script (demo_bot (take 2 demo_messages)))"
    using btc_at_step(1) [OF _ _ demo_routes(2)]
    by (simp add: D2_def demo_messages_def demo_bot_def del: st_handle.simps)
  then have "btc_at D3 (b_script (demo_bot (take 3 demo_messages)))"
    using btc_at_step(1) [OF _ _ demo_routes(3)]
    by (simp add: D3_def demo_messages_def demo_bot_def del: st_handle.simps)
  from btc_at_step(2) [OF this _ demo_routes(4)]
  have "orders_of (effects_of (st_handle (PriceMsg (tick_text ''101.0'')) (b_script (demo_bot (take 3 demo_messages))))) =
      [placed_order (demo D3)]"
    using demo_fires by simp
  then show ?thesis
    by (simp add: demo_messages_def demo_bot_def book_deals demo_placed_key del: st_handle.simps)
qed

section \<open>Properties\<close>

text \<open>C6. One order per pair: whatever messages, prices, requests and reports the script receives, in any order, every
  order of it that is open at the exchange is the one order some currency waits for, so no pair ever has
  two.  This holds against any exchange that behaves as documented, for currencies with plain names, as
  long as no timeout gives an order up and no report of an earlier deletion comes again while the currency
  awaits another.\<close>

theorem bot_one_order:
  assumes "documented E" and "x_open E x = {}" and "\<forall>k \<in> set ss. plain k"
    and "breach E bot_orderly (bot0 E ss x) b"
  shows "x_open E (b_exch b) \<subseteq> awaited (b_script b) \<and>
    (\<forall>pair m n. (pair, m) \<in> x_open E (b_exch b) \<and> (pair, n) \<in> x_open E (b_exch b) \<longrightarrow> m = n)"
proof -
  have b: "st_inv (b_script b)" "x_open E (b_exch b) \<subseteq> awaited (b_script b)"
    using breach_inv [OF assms(4,1) bot0_inv [OF assms(1-3)]] by (simp_all add: bot_inv_def)
  have "m = n" if "(pair, m) \<in> awaited (b_script b)" "(pair, n) \<in> awaited (b_script b)" for pair m n
  proof -
    obtain k X l Y where k: "awaits (b_script b) k = Some X" "(pair, m) \<in> X"
      and l: "awaits (b_script b) l = Some Y" "(pair, n) \<in> Y"
      using \<open>(pair, m) \<in> _\<close> \<open>(pair, n) \<in> _\<close> by (auto simp: awaited_def ran_def)
    have "k = l"
      using awaits_key(1) [OF b(1) k] awaits_key(1) [OF b(1) l] by simp
    then show ?thesis
      using awaits_key(2) [OF b(1) k] l k(1) by simp
  qed
  with b(2) show ?thesis
    by blast
qed


theorem bot_one_order_witness:
  "demo_key \<in> x_open book (b_exch (demo_bot demo_messages)) \<and>
   x_open book (b_exch (demo_bot demo_messages)) \<subseteq> awaited (b_script (demo_bot demo_messages))"
proof -
  have "plain ''BTC''" "plain ''ETH''"
    by code_simp+
  then show ?thesis
    using bot_one_order [OF documented_book _ _ demo_bot_reach [of _ demo_messages]] demo_bot_open
    by (simp add: demo_messages_def)
qed

end
