(* ===== verification/SingleStrategy.thy ===== *)
theory SingleStrategy
  imports Framework Fsm JsonText SymbolData
begin

text \<open>
  The class \<open>Strategy\<close> of strategy.py, the earlier script: one currency, whose trading
  data the user types into a chat.  Its state, its helpers, and the pieces of text
  it shows.

  The script calls methods of the bot that not every host has (\<open>trade_state\<close> is a
  method of the stub class at the head of the file, \<open>to_alert_channel\<close> one of the
  bot): the methods the host object has are a part of the state, which nothing
  changes, and a call of another one raises \<open>AttributeError\<close>.
\<close>

section \<open>State\<close>

datatype sg_handler =
    G_start | G_change | G_ready | G_wait_user_command | G_wait_input_triggr | G_wait_input_price
  | G_wait_input_quantity | G_wait_ready_to_trade | G_start_trade | G_wait_order_compl | G_wait_order_fill
  | G_wait_order_del | G_wait_price | G_in_price | G_resume

record single =
  sg_host :: "string list"
  sg_fsm :: "sg_handler fsm"
  sg_alert_dict :: "string dict dict"
  sg_taker_commission :: pyfloat
  sg_maker_commission :: pyfloat
  sg_balances :: "balance dict"
  sg_report :: json
  sg_is_wait_price :: bool
  sg_counter :: int
  sg_reinput :: bool
  sg_input_step :: nat
  sg_run_step :: nat
  sg_symbol :: string
  sg_orders :: "order list"
  sg_price :: "pyfloat list"
  sg_trigger :: "pyfloat list"
  sg_temp_orders :: "order list"
  sg_temp_trigger :: "pyfloat list"
  sg_running :: bool
  sg_change_mode :: bool
  sg_wait_order_fill :: order_ref
  sg_trade_state :: "json dict"

type_synonym sg_act = "(single, effect) stmt"

definition sg_Order :: order where
  "sg_Order = Order\<lparr>o_symbol := ''BTC''\<rparr>"

definition sg_fsm_init :: "sg_handler fsm" where
  "sg_fsm_init =
     set_state ST_READY
      (set_start ST_START
       (add_state ST_STOP None True
        (add_state ST_RESUME (Some G_resume) False
         (add_state ST_IN_PRICE (Some G_in_price) False
          (add_state ST_WAIT_PRICE (Some G_wait_price) False
           (add_state ST_WAIT_ORDER_DEL (Some G_wait_order_del) False
            (add_state ST_WAIT_ORDER_FILL (Some G_wait_order_fill) False
             (add_state ST_WAIT_ORDER_CMPL (Some G_wait_order_compl) False
              (add_state ST_START_TRADE (Some G_start_trade) False
               (add_state ST_READY_TO_TRADE (Some G_wait_ready_to_trade) False
                (add_state ST_WAIT_INP_QUANTITY (Some G_wait_input_quantity) False
                 (add_state ST_WAIT_INP_PRICE (Some G_wait_input_price) False
                  (add_state ST_WAIT_INP_TRIGGER (Some G_wait_input_triggr) False
                   (add_state ST_WAIT_USER_COMMAND (Some G_wait_user_command) False
                    (add_state ST_READY (Some G_ready) False
                     (add_state ST_CHANGE (Some G_change) False
                      (add_state ST_START (Some G_start) False
                        StateMachine)))))))))))))))))"

definition SingleStrategy :: "string list \<Rightarrow> single" where
  "SingleStrategy host =
     \<lparr>sg_host = host,
      sg_fsm = sg_fsm_init,
      sg_alert_dict = [],
      sg_taker_commission = flit (1 / 100), sg_maker_commission = flit (1 / 100),
      sg_balances = [(''USDT'', Balance), (''BTC'', Balance), (''BNB'', Balance)],
      sg_report = JObj [(''X'', JStr ''EMPTY''), (''c'', JStr ''no_order'')],
      sg_is_wait_price = False, sg_counter = 0, sg_reinput = False, sg_input_step = 0, sg_run_step = 0,
      sg_symbol = ''BTC'',
      sg_orders = [sg_Order, sg_Order], sg_price = [f0, f0], sg_trigger = [f0, f0],
      sg_temp_orders = [sg_Order, sg_Order], sg_temp_trigger = [f0, f0],
      sg_running = False, sg_change_mode = False, sg_wait_order_fill = NewOrder,
      sg_trade_state =
        [(''e'', JStr ''tradeState''), (''s'', JStr ''BTC''), (''x'', JStr ''data''), (''a'', JStr ''wait''),
         (''m'', JFmt ''Trading stopped. Waiting for trade data'' []),
         (''O'', JObj [(''S'', JStr []), (''X'', JStr [])])]\<rparr>"

text \<open>The methods the script calls, and those the bot of this repository has (py_wrapper.cpp).\<close>

definition script_calls :: "string list" where
  "script_calls =
     [''exec_order'', ''delete_order'', ''send_message'', ''to_log'', ''request_value'', ''request_command'',
      ''get_price'', ''to_journal'', ''to_alert_channel'', ''create_timer'', ''stop_timer'', ''trade_state'']"

definition bot_methods :: "string list" where
  "bot_methods =
     [''exec_order'', ''delete_order'', ''delete_all_orders'', ''send_message'', ''to_log'', ''request_value'',
      ''request_command'', ''get_price'', ''add_stream'', ''del_stream'', ''send_to_web'', ''to_journal'',
      ''to_alert_channel'', ''create_timer'', ''start_timer'', ''stop_timer'', ''del_timer'']"

text \<open>The host the script defines for itself when \<open>debug\<close> is set; it lacks \<open>to_alert_channel\<close>.\<close>

definition stub_methods :: "string list" where
  "stub_methods =
     [''exec_order'', ''delete_order'', ''delete_all_orders'', ''send_message'', ''request_value'', ''request_command'',
      ''create_timer'', ''stop_timer'', ''to_log'', ''add_stream'', ''to_journal'', ''trade_state'', ''get_price'']"

section \<open>Helpers\<close>

definition host :: "string \<Rightarrow> effect \<Rightarrow> sg_act" where
  "host m e = p_if (\<lambda>s. m \<in> set (sg_host s)) (p_emit e) (p_raise AttributeError)"

definition sg_set_state :: "string \<Rightarrow> sg_act" where
  "sg_set_state st = p_upd (\<lambda>s. s\<lparr>sg_fsm := set_state st (sg_fsm s)\<rparr>)"

definition sg_log :: "string \<Rightarrow> sg_act" where
  "sg_log func =
     p_read (\<lambda>s. [JStr (get_state (sg_fsm s)), JStr func])
       (\<lambda>args. host ''to_log'' (ToLog (JFmt ''FSM state: {} func: {}'' args)))"

definition send_message :: "json \<Rightarrow> bool \<Rightarrow> sg_act" where
  "send_message msg alw = host ''send_message'' (SendMessage msg alw)"

definition sg_to_journal :: "json \<Rightarrow> sg_act" where
  "sg_to_journal msg = host ''to_journal'' (ToJournal msg)"

definition request_value :: "json \<Rightarrow> sg_act" where
  "request_value msg = host ''request_value'' (RequestValue msg)"

definition request_command :: "json \<Rightarrow> json list \<Rightarrow> sg_act" where
  "request_command msg keys = host ''request_command'' (RequestCommand msg keys)"

definition sg_to_alert_channel :: "json \<Rightarrow> sg_act" where
  "sg_to_alert_channel msg = host ''to_alert_channel'' (ToAlertChannel msg)"

definition trade_state :: "json \<Rightarrow> sg_act" where
  "trade_state j = host ''trade_state'' (ToWeb j)"

definition send_curr_trade_state :: sg_act where
  "send_curr_trade_state = p_read (\<lambda>s. JObj (sg_trade_state s)) trade_state"

definition sg_stop_timer :: "string \<Rightarrow> sg_act" where
  "sg_stop_timer name = host ''stop_timer'' (StopTimer name)"

text \<open>\<open>self.curr_trade_state[k] = v\<close>, and \<open>self.curr_trade_state["O"][k] = v\<close>; the key
  \<open>O\<close> is there from the start and always a dict.\<close>

definition cts_set :: "string \<Rightarrow> json \<Rightarrow> sg_act" where
  "cts_set k v = p_upd (\<lambda>s. s\<lparr>sg_trade_state := dict_set k v (sg_trade_state s)\<rparr>)"

definition cts_O_set :: "string \<Rightarrow> json \<Rightarrow> sg_act" where
  "cts_O_set k v =
     p_read (\<lambda>s. dict_get (sg_trade_state s) ''O'') (\<lambda>r. p_val r (\<lambda>ob.
       case ob of JObj d \<Rightarrow> cts_set ''O'' (JObj (dict_set k v d)) | _ \<Rightarrow> p_raise TypeError))"

definition upd_sg_order :: "nat \<Rightarrow> (order \<Rightarrow> order) \<Rightarrow> sg_act" where
  "upd_sg_order i f = p_upd (\<lambda>s. s\<lparr>sg_orders := (sg_orders s)[i := f (sg_orders s ! i)]\<rparr>)"

definition upd_temp_order :: "nat \<Rightarrow> (order \<Rightarrow> order) \<Rightarrow> sg_act" where
  "upd_temp_order i f = p_upd (\<lambda>s. s\<lparr>sg_temp_orders := (sg_temp_orders s)[i := f (sg_temp_orders s ! i)]\<rparr>)"

definition set_trigger :: "nat \<Rightarrow> pyfloat \<Rightarrow> sg_act" where
  "set_trigger i x = p_upd (\<lambda>s. s\<lparr>sg_trigger := (sg_trigger s)[i := x]\<rparr>)"

definition set_temp_trigger :: "nat \<Rightarrow> pyfloat \<Rightarrow> sg_act" where
  "set_temp_trigger i x = p_upd (\<lambda>s. s\<lparr>sg_temp_trigger := (sg_temp_trigger s)[i := x]\<rparr>)"

definition run_order :: "single \<Rightarrow> order" where
  "run_order s = sg_orders s ! sg_run_step s"

definition sg_waited :: "single \<Rightarrow> order" where
  "sg_waited s = (case sg_wait_order_fill s of NewOrder \<Rightarrow> sg_Order | SlotOrder i \<Rightarrow> sg_orders s ! i)"

definition sg_wait_act :: "single \<Rightarrow> bool" where
  "sg_wait_act s \<longleftrightarrow> o_newClientOrderId (sg_waited s) \<noteq> []"

text \<open>\<open>self.wait_order_fill.newClientOrderId = ""\<close> clears the name of the order itself
  when \<open>wait_order_fill\<close> is one of \<open>self.orders\<close>.\<close>

definition clear_waited :: sg_act where
  "clear_waited =
     p_read sg_wait_order_fill (\<lambda>w.
       case w of
         NewOrder \<Rightarrow> p_skip
       | SlotOrder i \<Rightarrow> upd_sg_order i (\<lambda>ord. ord\<lparr>o_newClientOrderId := []\<rparr>))"

definition sg_report_item :: "string \<Rightarrow> single \<Rightarrow> exn + json" where
  "sg_report_item k s = getitem (sg_report s) k"

definition sg_report_is :: "string \<Rightarrow> single \<Rightarrow> exn + bool" where
  "sg_report_is status s =
     bind_sum (sg_report_item ''c'' s) (\<lambda>c.
       if c = JStr (o_newClientOrderId (run_order s))
       then bind_sum (sg_report_item ''X'' s) (\<lambda>x. Inr (x = JStr status))
       else Inr False)"

definition balance_of :: "string \<Rightarrow> single \<Rightarrow> exn + balance" where
  "balance_of k s = dict_get (sg_balances s) k"

section \<open>Common functions\<close>

definition to_all_logs :: "json \<Rightarrow> bool \<Rightarrow> sg_act" where
  "to_all_logs msg alw = p_block [send_message msg alw, sg_to_journal msg, send_curr_trade_state]"

definition sg_reset_order_report :: sg_act where
  "sg_reset_order_report = p_upd (\<lambda>s. s\<lparr>sg_report := empty_report\<rparr>)"

definition reset_all :: sg_act where
  "reset_all = p_block [
     sg_log ''reset_all'',
     sg_reset_order_report,
     p_upd (\<lambda>s. s\<lparr>sg_is_wait_price := False, sg_input_step := 0, sg_run_step := 0, sg_reinput := False\<rparr>)]"

definition sg_percent :: "pyfloat \<Rightarrow> pyfloat \<Rightarrow> exn + pyfloat" where
  "sg_percent val prc = bind_sum (fdiv val (flit 100)) (\<lambda>x. Inr (fmul x prc))"

definition sg_is_trigger_in_price :: "string \<Rightarrow> pyfloat \<Rightarrow> single \<Rightarrow> exn + bool" where
  "sg_is_trigger_in_price symbol val s =
     bind_sum (py_nth (sg_price s) 0) (\<lambda>p0.
       if is_zero p0 then Inr False
       else bind_sum (py_nth (sg_price s) 1) (\<lambda>p1.
         if is_zero p1 then Inr False
         else Inr ((p0 \<le> val \<and> val \<le> p1) \<or> (val \<le> p0 \<and> p1 \<le> val))))"

definition pos_text :: "string \<Rightarrow> string \<Rightarrow> pyfloat list \<Rightarrow> order list \<Rightarrow> json" where
  "pos_text header symbol trig ords =
     JFmt ''{}: USDT -> {} trigger {} price {} quantity {} {} -> USDT trigger {} price {} quantity {}''
       [JStr header, JStr symbol, JStr (fmt_f (trig ! 0)), JStr (fmt_f (o_price (ords ! 0))),
        JStr (fmt_f (o_quantity (ords ! 0))), JStr symbol, JStr (fmt_f (trig ! 1)),
        JStr (fmt_f (o_price (ords ! 1))), JStr (fmt_f (o_quantity (ords ! 1)))]"

definition sg_print_trade_pos :: sg_act where
  "sg_print_trade_pos =
     p_read (\<lambda>s. if \<not> sg_running s then pos_text ''Positions entered'' (sg_symbol s) (sg_trigger s) (sg_orders s)
              else pos_text ''New positions'' (sg_symbol s) (sg_temp_trigger s) (sg_temp_orders s))
       (\<lambda>m. send_message m False)"

text \<open>While trading runs the quantities of \<open>temp_orders\<close> are not reset.\<close>

definition reset_trade_pos :: sg_act where
  "reset_trade_pos =
     p_if (\<lambda>s. \<not> sg_running s)
       (p_block [
         set_trigger 0 f0,
         upd_sg_order 0 (\<lambda>ord. ord\<lparr>o_price := f0, o_quantity := f0\<rparr>),
         set_trigger 1 f0,
         upd_sg_order 1 (\<lambda>ord. ord\<lparr>o_price := f0, o_quantity := f0\<rparr>)])
       (p_block [
         set_temp_trigger 0 f0,
         upd_temp_order 0 (\<lambda>ord. ord\<lparr>o_price := f0\<rparr>),
         set_temp_trigger 1 f0,
         upd_temp_order 1 (\<lambda>ord. ord\<lparr>o_price := f0\<rparr>)])"

section \<open>Alerts\<close>

text \<open>Texts the script stores as data, in UTF-8.\<close>

definition utf8_text :: "int list \<Rightarrow> string" where
  "utf8_text = map chr_int"

definition key_result :: string where
  "key_result = utf8_text [208, 152, 209, 130, 208, 190, 208, 179, 58, 32]"

definition text_buy :: string where
  "text_buy = utf8_text [208, 159, 208, 190, 208, 186, 209, 131, 208, 191, 208, 176, 209, 130, 209, 140]"

definition text_sell :: string where
  "text_sell = utf8_text [208, 159, 209, 128, 208, 190, 208, 180, 208, 176, 208, 178, 208, 176, 209, 130, 209, 140]"

definition key_indicator :: string where
  "key_indicator = utf8_text [208, 152, 208, 189, 208, 180, 208, 184, 208, 186, 208, 176, 209, 130, 208, 190, 209, 128, 58]"

text \<open>\<open>dict(x.split("=") for x in body.split(newline))\<close>: every line has one \<open>=\<close>.\<close>

fun dict_of_lines :: "string list \<Rightarrow> string dict \<Rightarrow> exn + string dict" where
  "dict_of_lines [] d = Inr d"
| "dict_of_lines (l # ls) d =
     (case py_split (CHR ''='') l of
        [k, v] \<Rightarrow> dict_of_lines ls (dict_set k v d)
      | _ \<Rightarrow> Inl ValueError)"

definition float_in :: "string \<Rightarrow> string dict \<Rightarrow> exn + pyfloat" where
  "float_in k d = bind_sum (dict_get d k) (\<lambda>t. float_of (JStr t))"

definition judged :: "bool \<Rightarrow> string dict \<Rightarrow> string dict" where
  "judged buy d = dict_set key_result (if buy then text_buy else text_sell) d"

definition judge :: "string \<Rightarrow> (string dict \<Rightarrow> exn + bool) \<Rightarrow> string dict \<Rightarrow> exn + string dict" where
  "judge name test d =
     bind_sum (dict_get d ''label'') (\<lambda>lbl.
       if lbl = name then bind_sum (test d) (\<lambda>buy. Inr (judged buy d)) else Inr d)"

definition on_alert :: "string \<Rightarrow> string \<Rightarrow> sg_act" where
  "on_alert name body =
     p_val
       (bind_sum (dict_of_lines (py_split (CHR 0x0A) body) []) (\<lambda>d.
        bind_sum (judge ''MACD'' (\<lambda>d. bind_sum (float_in ''MACD'' d) (\<lambda>x. Inr (f0 < x))) d) (\<lambda>d.
        bind_sum (judge ''Momentum'' (\<lambda>d. bind_sum (float_in ''mom'' d) (\<lambda>x. Inr (f0 < x))) d) (\<lambda>d.
        bind_sum (judge ''HMA'' (\<lambda>d.
            bind_sum (float_in ''hullma'' d) (\<lambda>x. bind_sum (float_in ''price'' d) (\<lambda>y. Inr (x < y)))) d) (\<lambda>d.
        bind_sum (dict_get d ''label'') (\<lambda>lbl. Inr (lbl, d)))))))
       (\<lambda>r. p_upd (\<lambda>s. s\<lparr>sg_alert_dict := dict_set (fst r) (snd r) (sg_alert_dict s)\<rparr>))"

fun dict_to_string :: "string dict \<Rightarrow> string" where
  "dict_to_string [] = []"
| "dict_to_string ((k, v) # d) =
     (if k = ''label'' then dict_to_string d
      else (if k = ''title'' then key_indicator else k) @ '' '' @ v @ [CHR 0x0A] @ dict_to_string d)"

definition on_indicators :: sg_act where
  "on_indicators = p_block [
     sg_log ''on_indicators'',
     p_read sg_alert_dict (\<lambda>d. p_for d (\<lambda>kv. send_message (JStr (dict_to_string (snd kv))) False))]"

end
