(* ===== verification/SingleFsm.thy ===== *)
theory SingleFsm
  imports SingleStrategy
begin

text \<open>
  The handlers of the machine of strategy.py and the methods the bot calls.  A
  handler takes the argument of \<open>run\<close>: \<open>None\<close> (\<open>JNull\<close>), or what the user typed; \<open>go\<close>
  is the rest of the machine, for the handlers that run it again.
\<close>

section \<open>Input of trading data\<close>

definition sg_fsm_ready :: sg_act where
  "sg_fsm_ready = sg_log ''fsm_ready''"

definition key_1 :: "string \<Rightarrow> json" where
  "key_1 symbol = JFmt ''$1 Position USDT -> %s'' [JStr symbol]"

definition key_2 :: "string \<Rightarrow> json" where
  "key_2 symbol = JFmt ''$2 Position %s -> USDT'' [JStr symbol]"

definition key_q :: "string \<Rightarrow> json" where
  "key_q symbol = JFmt ''$q Quantity %s'' [JStr symbol]"

definition key_cancel :: json where "key_cancel = JStr ''$c Cancel''"
definition key_back :: json where "key_back = JStr ''$r Back''"
definition key_start :: json where "key_start = JStr ''$e Start''"
definition key_apply :: json where "key_apply = JStr ''$a Apply changes''"

definition data_keys :: "string \<Rightarrow> json list" where
  "data_keys symbol = [key_1 symbol, key_2 symbol, key_q symbol, key_cancel]"

definition sg_fsm_start :: sg_act where
  "sg_fsm_start = p_block [
     sg_log ''fsm_start'',
     reset_trade_pos,
     p_upd (\<lambda>s. s\<lparr>sg_input_step := 0, sg_counter := 0\<rparr>),
     cts_set ''x'' (JStr ''script''),
     cts_set ''a'' (JStr ''start''),
     cts_set ''m'' (JFmt ''Script started'' []),
     to_all_logs (JFmt ''Script started'' []) True,
     p_read sg_symbol (\<lambda>sym. request_command (JFmt ''Trade data:'' []) (data_keys sym)),
     sg_set_state ST_WAIT_USER_COMMAND]"

definition sg_fsm_change :: "(json \<Rightarrow> sg_act) \<Rightarrow> sg_act" where
  "sg_fsm_change go = p_block [
     sg_log ''fsm_change'',
     p_upd (\<lambda>s. s\<lparr>sg_temp_trigger := (sg_temp_trigger s)[0 := sg_trigger s ! 0, 1 := sg_trigger s ! 1]\<rparr>),
     p_read (\<lambda>s. (o_price (sg_orders s ! 0), o_quantity (sg_orders s ! 0)))
       (\<lambda>pq. upd_temp_order 0 (\<lambda>ord. ord\<lparr>o_price := fst pq, o_quantity := snd pq\<rparr>)),
     p_read (\<lambda>s. (o_price (sg_orders s ! 1), o_quantity (sg_orders s ! 1)))
       (\<lambda>pq. upd_temp_order 1 (\<lambda>ord. ord\<lparr>o_price := fst pq, o_quantity := snd pq\<rparr>)),
     sg_print_trade_pos,
     sg_set_state ST_READY_TO_TRADE,
     go JNull]"

text \<open>\<open>cmd.split(" ")[0]\<close>: a method of strings.  The text of a float is no command.\<close>

fun command :: "json \<Rightarrow> exn + string" where
  "command (JStr s) = Inr (hd (py_split (CHR '' '') s))"
| "command (JStrOf x) = Inr []"
| "command (JFmt f xs) = Inr []"
| "command _ = Inl AttributeError"

definition command_pos :: "nat \<Rightarrow> sg_act" where
  "command_pos step = p_block [
     p_upd (\<lambda>s. s\<lparr>sg_input_step := step, sg_reinput := False\<rparr>),
     p_read sg_symbol (\<lambda>sym. request_value
       (JFmt (if step = 0 then ''Enter the trigger USDT -> {}'' else ''Enter the trigger {} -> USDT'') [JStr sym])),
     sg_set_state ST_WAIT_INP_TRIGGER]"

definition command_quantity :: sg_act where
  "command_quantity = p_block [
     p_read sg_symbol (\<lambda>sym. request_value (JFmt ''Enter the quantity of {}'' [JStr sym])),
     sg_set_state ST_WAIT_INP_QUANTITY]"

definition command_back :: sg_act where
  "command_back = p_block [
     p_read sg_symbol (\<lambda>sym. request_command (JFmt ''Trade data:'' [])
       [key_1 sym, key_2 sym, key_q sym, key_start, key_cancel]),
     sg_set_state ST_WAIT_USER_COMMAND]"

text \<open>The steps offered: \<open>own\<close> and \<open>usdt\<close> are the amounts, \<open>prefix\<close> the command.\<close>

definition offer_steps :: "string \<Rightarrow> pyfloat \<Rightarrow> pyfloat \<Rightarrow> json list \<Rightarrow> single \<Rightarrow> exn + json list" where
  "offer_steps pre own usdt keys s =
     bind_sum (fdiv usdt (o_price (sg_orders s ! 0))) (\<lambda>q.
       let k1 = (if o_quantity (sg_orders s ! 0) \<le> q
                 then [JFmt (pre @ ''1 USDT -> {}'') [JStr (sg_symbol s)]] else []);
           k2 = (if o_quantity (sg_orders s ! 1) \<le> own
                 then [JFmt (pre @ ''2 {} -> USDT'') [JStr (sg_symbol s)]] else [])
       in Inr (k2 @ k1 @ keys))"

definition command_exec :: sg_act where
  "command_exec =
     p_read (\<lambda>s. bind_sum (balance_of (sg_symbol s) s) (\<lambda>b. bind_sum (balance_of ''USDT'' s) (\<lambda>u.
         offer_steps ''$s'' (b_free b) (b_free u) [key_back, key_cancel] s)))
       (\<lambda>r. p_val r (\<lambda>keys. request_command (JFmt ''First step of trading'' []) keys))"

definition command_apply :: sg_act where
  "command_apply =
     p_read (\<lambda>s. bind_sum (balance_of (sg_symbol s) s) (\<lambda>b. bind_sum (balance_of ''USDT'' s) (\<lambda>u.
         offer_steps ''$a'' (fadd (b_free b) (b_locked b)) (fadd (b_free u) (b_locked u)) [key_back] s)))
       (\<lambda>r. p_val r (\<lambda>keys.
         p_read (\<lambda>s. JFmt ''Next step of trading (now {}):''
             [JFmt (if sg_run_step s = 0 then ''USDT -> {}'' else ''{} -> USDT'') [JStr (sg_symbol s)]])
           (\<lambda>msg. request_command msg keys)))"

definition delete_sg_waited :: sg_act where
  "delete_sg_waited = p_block [
     p_read sg_waited (\<lambda>ord. host ''delete_order'' (DeleteOrder ord)),
     sg_set_state ST_WAIT_ORDER_DEL]"

definition command_cancel :: "(json \<Rightarrow> sg_act) \<Rightarrow> sg_act" where
  "command_cancel go = p_block [
     cts_set ''x'' (JStr ''script''),
     cts_set ''a'' (JStr ''stop''),
     cts_set ''m'' (JFmt ''Script stopped by the user'' []),
     to_all_logs (JFmt ''Script stopped by the user'' []) False,
     p_if sg_wait_act
       delete_sg_waited
       (p_block [sg_set_state ST_RESUME, go JNull])]"

text \<open>\<open>self.run_step = int(args[0].strip(chars)) - 1\<close>.\<close>

definition choose_run_step :: "string \<Rightarrow> string \<Rightarrow> sg_act" where
  "choose_run_step chars cmd = p_block [
     p_upd (\<lambda>s. s\<lparr>sg_input_step := 0\<rparr>),
     p_val (case parse_int (py_strip (\<lambda>c. c \<in> set chars) cmd) of None \<Rightarrow> Inl ValueError | Some i \<Rightarrow> Inr i)
       (\<lambda>i. p_upd (\<lambda>s. s\<lparr>sg_run_step := nat (i - 1)\<rparr>))]"

definition begin_trade :: "json \<Rightarrow> json \<Rightarrow> (json \<Rightarrow> sg_act) \<Rightarrow> sg_act" where
  "begin_trade msg jmsg go = p_block [
     send_message msg False,
     sg_to_journal jmsg,
     sg_set_state ST_START_TRADE,
     go JNull]"

definition command_start :: "string \<Rightarrow> (json \<Rightarrow> sg_act) \<Rightarrow> sg_act" where
  "command_start cmd go = p_block [
     choose_run_step ''$s'' cmd,
     begin_trade (JFmt ''Trading started, waiting for the price..'' []) (JFmt ''Trading started:'' []) go]"

text \<open>The temporary data become those traded with.\<close>

definition take_temp :: "single \<Rightarrow> single" where
  "take_temp s =
     s\<lparr>sg_trigger := (sg_trigger s)[0 := sg_temp_trigger s ! 0, 1 := sg_temp_trigger s ! 1],
       sg_orders := (sg_orders s)
         [0 := (sg_orders s ! 0)\<lparr>o_price := o_price (sg_temp_orders s ! 0), o_quantity := o_quantity (sg_temp_orders s ! 0)\<rparr>,
          1 := (sg_orders s ! 1)\<lparr>o_price := o_price (sg_temp_orders s ! 1), o_quantity := o_quantity (sg_temp_orders s ! 1)\<rparr>]\<rparr>"

definition command_continue :: "string \<Rightarrow> (json \<Rightarrow> sg_act) \<Rightarrow> sg_act" where
  "command_continue cmd go = p_block [
     choose_run_step ''$a'' cmd,
     p_upd take_temp,
     p_if sg_wait_act
       (p_block [
         delete_sg_waited,
         send_message (JFmt ''Trading goes on with new data, waiting for the deletion..'' []) False,
         p_upd (\<lambda>s. s\<lparr>sg_change_mode := True\<rparr>)])
       (begin_trade (JFmt ''Trading goes on with new data, waiting for the price..'' [])
          (JFmt ''Trading goes on with new data:'' []) go)]"

definition set_quantities :: "pyfloat \<Rightarrow> sg_act" where
  "set_quantities q =
     p_if (\<lambda>s. \<not> sg_running s)
       (p_block [upd_sg_order 0 (\<lambda>ord. ord\<lparr>o_quantity := q\<rparr>), upd_sg_order 1 (\<lambda>ord. ord\<lparr>o_quantity := q\<rparr>)])
       (p_block [upd_temp_order 0 (\<lambda>ord. ord\<lparr>o_quantity := q\<rparr>), upd_temp_order 1 (\<lambda>ord. ord\<lparr>o_quantity := q\<rparr>)])"

definition command_all :: "bool \<Rightarrow> (json \<Rightarrow> sg_act) \<Rightarrow> sg_act" where
  "command_all usdt go = p_block [
     p_read (\<lambda>s.
         if usdt then bind_sum (balance_of ''USDT'' s) (\<lambda>u. fdiv (b_free u) (o_price (sg_orders s ! 0)))
         else bind_sum (balance_of (sg_symbol s) s) (\<lambda>b. Inr (b_free b)))
       (\<lambda>r. p_val r set_quantities),
     sg_print_trade_pos,
     sg_set_state ST_READY_TO_TRADE,
     go JNull]"

definition sg_fsm_wait_user_command :: "(json \<Rightarrow> sg_act) \<Rightarrow> json \<Rightarrow> sg_act" where
  "sg_fsm_wait_user_command go cmd = p_block [
     sg_log ''fsm_wait_user_command'',
     p_val (command cmd) (\<lambda>c.
       if c = ''$1'' then command_pos 0
       else if c = ''$2'' then command_pos 1
       else if c = ''$q'' then command_quantity
       else if c = ''$r'' then command_back
       else if c = ''$e'' then command_exec
       else if c = ''$a'' then command_apply
       else if c = ''$c'' then command_cancel go
       else if c = ''$s1'' \<or> c = ''$s2'' then command_start c go
       else if c = ''$a1'' \<or> c = ''$a2'' then command_continue c go
       else if c = ''$au'' then command_all True go
       else if c = ''$as'' then command_all False go
       else p_skip)]"

definition show_unless_reinput :: sg_act where
  "show_unless_reinput = p_when (\<lambda>s. \<not> sg_reinput s) sg_print_trade_pos"

definition sg_fsm_wait_input_triggr :: "(json \<Rightarrow> sg_act) \<Rightarrow> json \<Rightarrow> sg_act" where
  "sg_fsm_wait_input_triggr go arg = p_block [
     sg_log ''fsm_wait_input_triggr'',
     p_try is_value_error
       (p_block [
         p_val (float_of arg) (\<lambda>x. p_read sg_input_step (\<lambda>i.
           p_if (\<lambda>s. \<not> sg_running s) (set_trigger i x) (set_temp_trigger i x))),
         show_unless_reinput,
         p_upd (\<lambda>s. s\<lparr>sg_reinput := False\<rparr>),
         sg_set_state ST_WAIT_INP_PRICE,
         request_value (JFmt ''Enter the price'' [])])
       (p_block [
         request_value (JFmt ''Wrong trigger!'' []),
         sg_set_state ST_WAIT_USER_COMMAND,
         p_upd (\<lambda>s. s\<lparr>sg_reinput := True\<rparr>),
         p_read (\<lambda>s. JStr (''$'' @ py_str_int (int (sg_input_step s) + 1))) go])]"

definition sg_fsm_wait_input_price :: "(json \<Rightarrow> sg_act) \<Rightarrow> json \<Rightarrow> sg_act" where
  "sg_fsm_wait_input_price go arg = p_block [
     sg_log ''fsm_wait_input_price'',
     p_try is_value_error
       (p_block [
         p_val (float_of arg) (\<lambda>x. p_read sg_input_step (\<lambda>i.
           p_if (\<lambda>s. \<not> sg_running s)
             (upd_sg_order i (\<lambda>ord. ord\<lparr>o_price := x\<rparr>))
             (upd_temp_order i (\<lambda>ord. ord\<lparr>o_price := x\<rparr>)))),
         show_unless_reinput,
         p_upd (\<lambda>s. s\<lparr>sg_reinput := False\<rparr>),
         sg_set_state ST_READY_TO_TRADE,
         go JNull])
       (p_block [
         request_value (JFmt ''Wrong price!'' []),
         sg_set_state ST_WAIT_INP_TRIGGER,
         p_upd (\<lambda>s. s\<lparr>sg_reinput := True\<rparr>),
         p_read (\<lambda>s. JStrOf (sg_trigger s ! sg_input_step s)) go])]"

text \<open>\<open>str(arg).upper() == "ALL"\<close>: only a typed text can be it.\<close>

fun is_all :: "json \<Rightarrow> bool" where
  "is_all (JStr t) = (py_upper t = ''ALL'')"
| "is_all _ = False"

text \<open>The balance is an object, which is never equal to \<open>0.00\<close>.\<close>

definition offer_all :: "(json \<Rightarrow> sg_act) \<Rightarrow> sg_act" where
  "offer_all go =
     p_bind
       (p_if (\<lambda>s. is_zero (o_price (sg_orders s ! 0)))
          (p_bind
             (p_read sg_symbol (\<lambda>sym. send_message (JFmt ''Cannot set the USDT quantity, no price USDT -> {}'' [JStr sym]) False))
             (\<lambda>_. p_ret []))
          (p_read (balance_of ''USDT'') (\<lambda>r. p_val r (\<lambda>_. p_ret [JStr ''$au All USDT'']))))
       (\<lambda>keys. p_read (\<lambda>s. bind_sum (balance_of (sg_symbol s) s) (\<lambda>_. Inr (keys @ [JFmt ''$as All %s'' [JStr (sg_symbol s)]])))
          (\<lambda>r. p_val r (\<lambda>keys.
             if keys = [] then p_block [
               send_message (JFmt ''No currency available'' []) False,
               sg_set_state ST_READY_TO_TRADE,
               go JNull]
             else p_block [
               request_command (JFmt ''Choice of currency:'' []) keys,
               sg_set_state ST_WAIT_USER_COMMAND])))"

text \<open>What follows the \<open>return\<close> of the branch for \<open>ALL\<close> is not reached.\<close>

definition sg_fsm_wait_input_quantity :: "(json \<Rightarrow> sg_act) \<Rightarrow> json \<Rightarrow> sg_act" where
  "sg_fsm_wait_input_quantity go arg = p_block [
     sg_log ''fsm_wait_input_quantity'',
     p_try is_value_error
       (p_block [
         p_val (float_of arg) set_quantities,
         p_read sg_symbol (\<lambda>sym. request_command (JFmt ''Trade data:'' []) (data_keys sym)),
         sg_set_state ST_READY_TO_TRADE,
         sg_print_trade_pos,
         go (JInt 0)])
       (if is_all arg then offer_all go
        else p_block [
          request_value (JFmt ''Wrong quantity!'' []),
          sg_set_state ST_WAIT_USER_COMMAND,
          p_upd (\<lambda>s. s\<lparr>sg_reinput := True\<rparr>),
          go (JStr ''$q'')])]"

definition positions_entered :: "single \<Rightarrow> bool" where
  "positions_entered s \<longleftrightarrow>
     (let ords = (if \<not> sg_running s then sg_orders s else sg_temp_orders s)
      in f0 < o_quantity (ords ! 0) \<and> f0 < o_price (ords ! 0) \<and> f0 < o_price (ords ! 1))"

definition sg_fsm_wait_ready_to_trade :: sg_act where
  "sg_fsm_wait_ready_to_trade = p_block [
     sg_log ''fsm_wait_ready_to_trade'',
     p_read (\<lambda>s. data_keys (sg_symbol s) @
         (if positions_entered s then [if \<not> sg_running s then key_start else key_apply] else []))
       (\<lambda>keys. request_command (JFmt ''Choice of action'' []) keys),
     sg_set_state ST_WAIT_USER_COMMAND]"

section \<open>Trading\<close>

definition sg_fsm_start_trade :: sg_act where
  "sg_fsm_start_trade = p_block [
     p_read sg_symbol (\<lambda>sym. sg_to_alert_channel (JFmt ''Trading {} started'' [JStr sym])),
     p_read (\<lambda>s. JFmt ''Quantity {}: {}'' [JStr (sg_symbol s), JStrOf (o_quantity (sg_orders s ! 0))]) sg_to_journal,
     p_read (\<lambda>s. JFmt ''USDT -> {}: trigger {}, price {}''
         [JStr (sg_symbol s), JStrOf (sg_trigger s ! 0), JStrOf (o_price (sg_orders s ! 0))]) sg_to_journal,
     p_read (\<lambda>s. JFmt ''{} -> USDT: trigger {}, price {}''
         [JStr (sg_symbol s), JStrOf (sg_trigger s ! 1), JStrOf (o_price (sg_orders s ! 1))]) sg_to_journal,
     cts_set ''x'' (JStr ''trigger''),
     cts_set ''a'' (JStr ''wait''),
     p_read (\<lambda>s. JFmt ''Waiting for trigger {}'' [JStrOf (sg_trigger s ! sg_run_step s)]) (cts_set ''m''),
     send_curr_trade_state,
     p_upd (\<lambda>s. s\<lparr>sg_is_wait_price := True\<rparr>),
     host ''create_timer'' (CreateIntervalTimer ''price_timer'' 1 True),
     sg_set_state ST_WAIT_PRICE,
     p_upd (\<lambda>s. s\<lparr>sg_running := True\<rparr>)]"

definition sg_fsm_wait_price :: "(json \<Rightarrow> sg_act) \<Rightarrow> sg_act" where
  "sg_fsm_wait_price go =
     p_read (\<lambda>s. sg_is_trigger_in_price (sg_symbol s) (sg_trigger s ! sg_run_step s) s) (\<lambda>hit. p_val hit (\<lambda>b.
       if b then p_block [
         p_upd (\<lambda>s. s\<lparr>sg_is_wait_price := False\<rparr>),
         sg_set_state ST_IN_PRICE,
         go JNull]
       else p_skip))"

text \<open>The name of a purchase has no number: its format has one place only.\<close>

definition sg_order_id :: "nat \<Rightarrow> string \<Rightarrow> int \<Rightarrow> string" where
  "sg_order_id step symbol counter =
     (if step = 1 then ''order_'' @ symbol @ ''_to_usdt_'' @ py_str_int counter
      else ''order_usdt_to_'' @ symbol @ ''_'')"

definition sg_placed_msg :: "single \<Rightarrow> json" where
  "sg_placed_msg s =
     JFmt (if sg_run_step s = 1 then ''Order placed to sell {} at {} USDT'' else ''Order placed to buy {} at {} USDT'')
       [JStr (sg_symbol s), JStrOf (o_price (run_order s))]"

definition sg_upd_run_order :: "(single \<Rightarrow> order \<Rightarrow> order) \<Rightarrow> sg_act" where
  "sg_upd_run_order f = p_upd (\<lambda>s. s\<lparr>sg_orders := (sg_orders s)[sg_run_step s := f s (run_order s)]\<rparr>)"

definition sg_name_order :: sg_act where
  "sg_name_order =
     p_if (\<lambda>s. sg_run_step s = 1)
       (p_block [
         sg_upd_run_order (\<lambda>s ord. ord\<lparr>o_newClientOrderId := sg_order_id 1 (sg_symbol s) (sg_counter s), o_side := SELL\<rparr>),
         cts_O_set ''S'' (JStr ''SELL'')])
       (p_when (\<lambda>s. sg_run_step s = 0)
         (p_block [
           sg_upd_run_order (\<lambda>s ord. ord\<lparr>o_newClientOrderId := sg_order_id 0 (sg_symbol s) (sg_counter s), o_side := BUY\<rparr>),
           cts_O_set ''S'' (JStr ''BUY'')]))"

definition sg_fsm_in_price :: sg_act where
  "sg_fsm_in_price = p_block [
     sg_log ''fsm_in_price'',
     p_read (\<lambda>s. JFmt ''Trigger {} fired'' [JStrOf (sg_trigger s ! sg_run_step s)]) (\<lambda>msg. p_block [
       cts_set ''x'' (JStr ''trigger''),
       cts_set ''m'' msg,
       cts_set ''a'' (JStr ''ready''),
       to_all_logs msg False,
       sg_upd_run_order (\<lambda>s ord. ord\<lparr>o_symbol := sg_symbol s @ ''USDT'', o_stopPrice := f0\<rparr>),
       sg_name_order,
       p_read (\<lambda>s. if sg_run_step s = 1 \<or> sg_run_step s = 0 then sg_placed_msg s else msg) (\<lambda>msg. p_block [
         sg_upd_run_order (\<lambda>s ord. ord\<lparr>o_type := LIMIT, o_timeInForce := GTC\<rparr>),
         p_read run_order (\<lambda>ord. host ''exec_order'' (ExecOrder ord)),
         host ''create_timer'' (CreateIntervalTimer ''compl_timer'' 5 False),
         p_read (\<lambda>s. print_order_to_string (run_order s)) (\<lambda>ostr. to_all_logs ostr False),
         sg_set_state ST_WAIT_ORDER_CMPL,
         cts_set ''m'' msg,
         cts_set ''x'' (JStr ''order''),
         cts_O_set ''X'' (JStr ''NEW''),
         to_all_logs msg False])])]"

text \<open>A rejected order: \<open>stop_timer\<close> is called without the name it needs.\<close>

definition sg_order_rejected :: sg_act where
  "sg_order_rejected =
     p_read (\<lambda>s. bind_sum (sg_report_item ''code'' s) int_of) (\<lambda>r. p_val r (\<lambda>code.
       p_read (sg_report_item ''msg'') (\<lambda>r. p_val r (\<lambda>m.
         let msg = JFmt ''Binance refused the order: code {} message {}'' [JInt code, m] in p_block [
           cts_set ''a'' (JStr ''error''),
           cts_set ''m'' msg,
           to_all_logs msg False,
           sg_set_state ST_RESUME,
           sg_reset_order_report,
           p_if (\<lambda>s. ''stop_timer'' \<in> set (sg_host s)) (p_raise TypeError) (p_raise AttributeError)]))))"

definition sg_order_confirmed :: sg_act where
  "sg_order_confirmed =
     p_read (sg_report_is ''NEW'') (\<lambda>r. p_val r (\<lambda>b.
       if b then
         (let msg = JFmt ''Order confirmed by Binance, waiting for it to be filled'' [] in p_block [
           sg_reset_order_report,
           sg_stop_timer ''compl_timer'',
           cts_set ''a'' (JStr ''wait''),
           cts_O_set ''X'' (JStr ''FILLED''),
           cts_set ''m'' msg,
           to_all_logs msg False,
           sg_set_state ST_WAIT_ORDER_FILL,
           p_upd (\<lambda>s. s\<lparr>sg_wait_order_fill := SlotOrder (sg_run_step s)\<rparr>)])
       else p_skip))"

definition is_sg_key_error :: "exn \<Rightarrow> bool" where
  "is_sg_key_error x \<longleftrightarrow> x = KeyError"

definition sg_fsm_wait_order_compl :: sg_act where
  "sg_fsm_wait_order_compl = p_block [
     sg_log ''fsm_wait_order_compl'',
     p_try is_sg_key_error sg_order_rejected sg_order_confirmed]"

definition sg_next_step :: sg_act where
  "sg_next_step = p_upd (\<lambda>s.
     if sg_run_step s = 0 then s\<lparr>sg_run_step := 1\<rparr>
     else if sg_run_step s = 1 then s\<lparr>sg_run_step := 0, sg_counter := sg_counter s + 1\<rparr>
     else s)"

definition sg_fsm_wait_order_fill :: sg_act where
  "sg_fsm_wait_order_fill = p_block [
     sg_log ''fsm_wait_order_fill'',
     p_read (sg_report_is ''FILLED'') (\<lambda>r. p_val r (\<lambda>b.
       if b then
         (let msg = JFmt ''Order filled by Binance'' [] in p_block [
           cts_set ''a'' (JStr ''ready''),
           cts_set ''m'' msg,
           to_all_logs msg False,
           p_read (\<lambda>s. [JInt (sg_counter s), JInt (int (sg_run_step s))])
             (\<lambda>args. host ''to_log'' (ToLog (JFmt ''Cycle {} step {}'' args))),
           sg_next_step,
           clear_waited,
           p_upd (\<lambda>s. s\<lparr>sg_is_wait_price := True\<rparr>),
           sg_set_state ST_WAIT_PRICE])
       else p_skip))]"

definition sg_fsm_wait_order_del :: "(json \<Rightarrow> sg_act) \<Rightarrow> sg_act" where
  "sg_fsm_wait_order_del go = p_block [
     sg_log ''fsm_wait_order_del'',
     p_read (sg_report_item ''X'') (\<lambda>r. p_val r (\<lambda>x.
       if x = JStr ''CANCELED'' then p_block [
         clear_waited,
         p_read (\<lambda>s. JFmt ''Order {} cancelled'' [JStr (o_newClientOrderId (run_order s))]) (\<lambda>msg. p_block [
           to_all_logs msg False,
           cts_set ''x'' (JStr ''order''),
           cts_set ''a'' (JStr ''stop''),
           cts_set ''m'' msg,
           p_if sg_change_mode
             (p_block [
               p_upd (\<lambda>s. s\<lparr>sg_is_wait_price := True\<rparr>),
               sg_set_state ST_WAIT_PRICE,
               p_upd (\<lambda>s. s\<lparr>sg_change_mode := False\<rparr>)])
             (p_block [sg_set_state ST_RESUME, go JNull])])]
       else p_skip))]"

definition sg_fsm_resume :: "(json \<Rightarrow> sg_act) \<Rightarrow> sg_act" where
  "sg_fsm_resume go = p_block [
     sg_log ''fsm_resume'',
     sg_stop_timer ''price_timer'',
     sg_stop_timer ''compl_timer'',
     reset_all,
     p_upd (\<lambda>s. s\<lparr>sg_running := False\<rparr>),
     p_read (\<lambda>s. JFmt ''Script {} stopped'' [JStr (sg_symbol s)]) (\<lambda>msg. p_block [
       sg_set_state ST_READY,
       cts_set ''x'' (JStr ''script''),
       cts_set ''a'' (JStr ''stop''),
       cts_set ''m'' msg,
       cts_O_set ''S'' (JStr []),
       cts_O_set ''X'' (JStr []),
       sg_to_alert_channel msg,
       to_all_logs msg False]),
     go JNull]"

section \<open>The machine\<close>

fun sg_exec :: "(json \<Rightarrow> sg_act) \<Rightarrow> sg_handler \<Rightarrow> json \<Rightarrow> sg_act" where
  "sg_exec go G_start arg = sg_fsm_start"
| "sg_exec go G_change arg = sg_fsm_change go"
| "sg_exec go G_ready arg = sg_fsm_ready"
| "sg_exec go G_wait_user_command arg = sg_fsm_wait_user_command go arg"
| "sg_exec go G_wait_input_triggr arg = sg_fsm_wait_input_triggr go arg"
| "sg_exec go G_wait_input_price arg = sg_fsm_wait_input_price go arg"
| "sg_exec go G_wait_input_quantity arg = sg_fsm_wait_input_quantity go arg"
| "sg_exec go G_wait_ready_to_trade arg = sg_fsm_wait_ready_to_trade"
| "sg_exec go G_start_trade arg = sg_fsm_start_trade"
| "sg_exec go G_wait_order_compl arg = sg_fsm_wait_order_compl"
| "sg_exec go G_wait_order_fill arg = sg_fsm_wait_order_fill"
| "sg_exec go G_wait_order_del arg = sg_fsm_wait_order_del go"
| "sg_exec go G_wait_price arg = sg_fsm_wait_price go"
| "sg_exec go G_in_price arg = sg_fsm_in_price"
| "sg_exec go G_resume arg = sg_fsm_resume go"

primrec sg_run :: "nat \<Rightarrow> json \<Rightarrow> sg_act" where
  "sg_run 0 arg s = (s, [], Raised RecursionError)"
| "sg_run (Suc n) arg s = run sg_fsm (sg_exec (sg_run n)) arg s"

definition sg_fsm_run :: "json \<Rightarrow> sg_act" where
  "sg_fsm_run = sg_run run_depth"

end
