(* ===== verification/SingleEvents.thy ===== *)
theory SingleEvents
  imports SingleFsm MStrategy
begin

text \<open>
  The methods of \<open>Strategy\<close> of strategy.py that the bot and the user call.  Each
  takes the text it receives; several parse it outside of any \<open>try\<close>.
\<close>

section \<open>Trading data and state\<close>

definition sg_eval :: sg_act where
  "sg_eval = p_block [
     sg_log ''eval'',
     cts_set ''x'' (JStr ''data''),
     cts_set ''a'' (JStr ''ready''),
     cts_set ''m'' (JFmt ''Trade data is ready'' []),
     send_curr_trade_state]"

text \<open>A text that is not JSON leaves \<open>json_data\<close> a string, which has no keys.\<close>

definition sg_on_trade_run :: "string \<Rightarrow> sg_act" where
  "sg_on_trade_run data = p_block [
     sg_log ''on_trade_run'',
     (let json_data = (case json_loads data of Inl err \<Rightarrow> JStr ''{\"c\":\"---\"}'' | Inr j \<Rightarrow> j)
      in p_block [
        p_upd (\<lambda>s. s\<lparr>sg_input_step := 0\<rparr>),
        p_val (getitem json_data ''a'') (\<lambda>a.
          if a = JStr ''start''
          then p_val (getitem json_data ''p'') (\<lambda>p.
            if p = JStr ''BUY'' \<or> p = JStr ''SELL''
            then p_block [
              p_upd (\<lambda>s. s\<lparr>sg_run_step := if p = JStr ''BUY'' then 0 else 1\<rparr>),
              begin_trade (JFmt ''Trading started, waiting for the price..'' []) (JFmt ''Trading started:'' []) sg_fsm_run]
            else p_skip)
          else p_block [sg_set_state ST_RESUME, sg_fsm_run JNull])])]"

definition sg_get_trade_steps :: "string \<Rightarrow> (single, effect, string list) prog" where
  "sg_get_trade_steps symbol =
     p_bind
       (p_read (\<lambda>s. [JStr (get_state (sg_fsm s)), JStr ''get_trade_steps'', JStr symbol])
         (\<lambda>args. host ''to_log'' (ToLog (JFmt ''FSM state: {} func: {} symbol {}'' args))))
       (\<lambda>_. p_read (\<lambda>s.
         bind_sum (balance_of symbol s) (\<lambda>b. bind_sum (balance_of ''USDT'' s) (\<lambda>u.
           let sell = (if \<not> is_zero (o_quantity (sg_orders s ! 1)) \<and> o_quantity (sg_orders s ! 1) \<le> b_free b
                       then [''SELL''] else [])
           in if is_zero (o_price (sg_orders s ! 0)) then Inr sell
              else bind_sum (fdiv (b_free u) (o_price (sg_orders s ! 0))) (\<lambda>q.
                Inr (sell @ (if o_quantity (sg_orders s ! 0) \<le> q then [''BUY''] else []))))))
         (\<lambda>r. p_val r p_ret))"

text \<open>The first currency of the list ends the call: \<open>SymbolData\<close> takes no argument.\<close>

definition sg_on_symbols_list :: "string list \<Rightarrow> sg_act" where
  "sg_on_symbols_list symbols = p_block [
     sg_log ''on_symbols_list'',
     p_for symbols (\<lambda>_. p_raise TypeError)]"

definition is_script_running :: "(single, effect, bool) prog" where
  "is_script_running = p_bind (sg_log ''is_script_running'') (\<lambda>_. p_read sg_running p_ret)"

text \<open>Of the quantities only that of the purchase is set.\<close>

definition sg_take_trade_data :: "json \<Rightarrow> sg_act" where
  "sg_take_trade_data j = p_block [
     p_val (float_at2 j ''B'' ''t'') (set_trigger 0),
     p_val (float_at2 j ''B'' ''p'') (\<lambda>x. upd_sg_order 0 (\<lambda>ord. ord\<lparr>o_price := x\<rparr>)),
     p_val (float_at2 j ''S'' ''t'') (set_trigger 1),
     p_val (float_at2 j ''S'' ''p'') (\<lambda>x. upd_sg_order 1 (\<lambda>ord. ord\<lparr>o_price := x\<rparr>)),
     p_val (float_at j ''q'') (\<lambda>x. upd_sg_order 0 (\<lambda>ord. ord\<lparr>o_quantity := x\<rparr>)),
     cts_set ''x'' (JStr ''data''),
     cts_set ''a'' (JStr ''ready''),
     cts_set ''m'' (JFmt ''Trade data is ready'' []),
     send_curr_trade_state]"

definition sg_data_reply :: "json \<Rightarrow> single \<Rightarrow> json" where
  "sg_data_reply a s = JObj
     [(''e'', JStr ''tradeData''), (''a'', a),
      (''q'', JStrOf (o_quantity (sg_orders s ! 0))), (''s'', JStr (sg_symbol s)), (''r'', JStr ''1s''),
      (''B'', JObj [(''t'', JStrOf (sg_trigger s ! 0)), (''p'', JStrOf (o_price (sg_orders s ! 0)))]),
      (''S'', JObj [(''t'', JStrOf (sg_trigger s ! 1)), (''p'', JStrOf (o_price (sg_orders s ! 1)))]),
      (''c'', JStr ''000''), (''m'', JStr ''Ok'')]"

definition sg_refuse_data :: "json \<Rightarrow> json \<Rightarrow> string \<Rightarrow> sg_act" where
  "sg_refuse_data a smb code = trade_state (JObj
     [(''e'', JStr ''tradeData''), (''a'', a), (''c'', JStr code),
      (''m'', JFmt ''Currency {} is not supported'' [smb])])"

text \<open>The handler of the parse error writes to a variable that is assigned further down
  only: \<open>UnboundLocalError\<close>, a \<open>NameError\<close>.\<close>

definition sg_on_trade_data :: "string \<Rightarrow> sg_act" where
  "sg_on_trade_data data = p_block [
     sg_log ''on_trade_data'',
     (case json_loads data of
        Inl err \<Rightarrow> p_raise NameError
      | Inr j \<Rightarrow>
          p_val (getitem j ''a'') (\<lambda>a. p_val (getitem j ''s'') (\<lambda>smb.
            p_if (\<lambda>s. smb \<noteq> JStr (sg_symbol s))
              (sg_refuse_data a smb ''002'')
              (p_bind
                (p_try is_key_error
                  (p_bind (if a = JStr ''set'' then sg_take_trade_data j else p_skip) (\<lambda>_. p_ret True))
                  (p_ret False))
                (\<lambda>ok. if ok then p_read (sg_data_reply a) trade_state
                      else sg_refuse_data a smb ''003'')))))]"

definition sg_on_get_trade_state :: "string \<Rightarrow> sg_act" where
  "sg_on_get_trade_state symbol = p_block [sg_log ''on_get_trade_state'', send_curr_trade_state]"

definition on_price_timer :: sg_act where
  "on_price_timer = p_read sg_symbol (\<lambda>smb. host ''get_price'' (GetPrice smb))"

section \<open>Commands\<close>

definition on_start :: sg_act where
  "on_start = p_block [
     sg_log ''on_start'',
     p_if (\<lambda>s. get_state (sg_fsm s) \<noteq> ST_READY \<and> get_state (sg_fsm s) \<noteq> ST_STOP)
       (send_message (JFmt ''FSM: not possible, the script is running'' []) False)
       (p_block [sg_set_state ST_START, sg_fsm_run JNull])]"

definition on_change :: sg_act where
  "on_change = p_block [
     sg_log ''on_change'',
     p_upd (\<lambda>s. s\<lparr>sg_is_wait_price := False\<rparr>),
     sg_set_state ST_CHANGE,
     sg_fsm_run JNull]"

definition on_stop :: sg_act where
  "on_stop = p_block [
     sg_log ''on_stop'',
     send_message (JFmt ''FSM: script stopped by the user'' []) True,
     p_if sg_wait_act
       delete_sg_waited
       (p_block [sg_set_state ST_RESUME, sg_fsm_run JNull])]"

definition on_set_symbol :: "string \<Rightarrow> sg_act" where
  "on_set_symbol symbol = p_block [
     sg_log ''on_set_symbol'',
     p_upd (\<lambda>s. s\<lparr>sg_symbol := symbol, sg_balances := dict_set symbol Balance (sg_balances s)\<rparr>)]"

definition on_user_value :: "json \<Rightarrow> sg_act" where
  "on_user_value val = p_block [sg_log ''on_user_value'', sg_fsm_run val]"

section \<open>Account\<close>

definition upd_balance :: "json \<Rightarrow> (balance \<Rightarrow> balance) \<Rightarrow> sg_act" where
  "upd_balance smb f =
     p_read (balance_of (the_str smb)) (\<lambda>r. p_val r (\<lambda>b.
       p_upd (\<lambda>s. s\<lparr>sg_balances := dict_set (the_str smb) (f b) (sg_balances s)\<rparr>)))"

definition own_or_usdt :: "json \<Rightarrow> single \<Rightarrow> bool" where
  "own_or_usdt smb s \<longleftrightarrow> smb = JStr (sg_symbol s) \<or> smb = JStr ''USDT''"

text \<open>The entries of both messages: \<open>ka\<close> names the currency, \<open>kf\<close>, \<open>kl\<close> the amounts.\<close>

definition sg_entry :: "json \<Rightarrow> json \<Rightarrow> string \<Rightarrow> string \<Rightarrow> sg_act" where
  "sg_entry elem smb kf kl = p_block [
     p_val (float_at elem kf) (\<lambda>x. upd_balance smb (\<lambda>b. b\<lparr>b_free := x\<rparr>)),
     p_val (float_at elem kl) (\<lambda>x. upd_balance smb (\<lambda>b. b\<lparr>b_locked := x\<rparr>))]"

definition sg_on_account :: "string \<Rightarrow> sg_act" where
  "sg_on_account acc = p_block [
     sg_log ''on_account'',
     p_val (json_loads acc) (\<lambda>j.
       p_try is_key_error
         (p_block [
           p_val (bind_sum (float_at j ''takerCommission'') (\<lambda>x. fdiv x (flit 100)))
             (\<lambda>x. p_upd (\<lambda>s. s\<lparr>sg_taker_commission := x\<rparr>)),
           p_val (bind_sum (float_at j ''makerCommission'') (\<lambda>x. fdiv x (flit 100)))
             (\<lambda>x. p_upd (\<lambda>s. s\<lparr>sg_maker_commission := x\<rparr>)),
           p_val (getitem j ''balances'') (\<lambda>balances. p_block [
             host ''to_log'' (ToLog (JFmt ''REST_API account format'' [])),
             p_val (py_iter balances) (\<lambda>bs. p_for bs (\<lambda>elem.
               p_val (getitem elem ''asset'') (\<lambda>smb.
                 p_when (own_or_usdt smb) (p_block [
                   sg_entry elem smb ''free'' ''locked'',
                   p_read (balance_of (the_str smb)) (\<lambda>r. p_val r (\<lambda>b.
                     host ''to_log'' (ToLog (JFmt ''Account: {} free {} / locked {}''
                       [smb, JStrOf (b_free b), JStrOf (b_locked b)]))))]))))])])
         (host ''to_log'' (ToLog (JFmt ''Unknown account format'' []))))]"

definition sg_on_balance :: "string \<Rightarrow> sg_act" where
  "sg_on_balance bal = p_block [
     sg_log ''on_balance'',
     p_val (json_loads bal) (\<lambda>jbal. p_val (getitem jbal ''B'') (\<lambda>balances.
       p_val (py_iter balances) (\<lambda>bs. p_for bs (\<lambda>symbol.
         p_val (getitem symbol ''a'') (\<lambda>smb.
           p_when (own_or_usdt smb) (sg_entry symbol smb ''f'' ''l''))))))]"

section \<open>The market\<close>

definition sg_on_wss_data :: "string \<Rightarrow> sg_act" where
  "sg_on_wss_data data = p_val (json_loads data) (\<lambda>_. p_skip)"

definition sg_on_order_report :: "string \<Rightarrow> sg_act" where
  "sg_on_order_report rep = p_block [
     sg_log ''on_order_report'',
     p_val (json_loads rep) (\<lambda>j. p_upd (\<lambda>s. s\<lparr>sg_report := j\<rparr>)),
     host ''to_log'' (ToLog (JFmt ''ORDER EXEC REPORT: {}'' [JStr rep])),
     sg_fsm_run JNull]"

text \<open>The machine runs on the price of another currency too.\<close>

definition sg_on_price :: "string \<Rightarrow> sg_act" where
  "sg_on_price data =
     p_val (json_loads data) (\<lambda>pdata.
       p_val (getitem pdata ''symbol'') (\<lambda>sym0. p_val (getitem pdata ''price'') (\<lambda>price.
         p_val (replace_usdt sym0) (\<lambda>symbol. p_block [
           p_when (\<lambda>s. symbol = JStr (sg_symbol s)) (p_block [
             p_read sg_price (\<lambda>ps.
               if ps = [] then p_raise IndexError else p_upd (\<lambda>s. s\<lparr>sg_price := butlast (sg_price s)\<rparr>)),
             p_val (float_of price) (\<lambda>x. p_upd (\<lambda>s. s\<lparr>sg_price := x # sg_price s\<rparr>))]),
           p_when sg_is_wait_price (sg_fsm_run JNull)]))))"

section \<open>Timers\<close>

definition sg_on_order_complete_timeout :: sg_act where
  "sg_on_order_complete_timeout = p_block [
     sg_log ''on_order_complete_timeout'',
     p_read (\<lambda>s. JFmt ''FSM: no confirmation of order {} from Binance'' [JStr (o_newClientOrderId (run_order s))])
       (\<lambda>msg. send_message msg False),
     cts_set ''x'' (JStr ''order''),
     cts_set ''a'' (JStr ''error''),
     cts_set ''m'' (JFmt ''No confirmation of the order from Binance'' []),
     sg_set_state ST_RESUME,
     sg_fsm_run JNull]"

definition on_order_fill_timeout :: sg_act where
  "on_order_fill_timeout = p_block [
     sg_log ''on_order_fill_timeout'',
     p_read (\<lambda>s. JFmt ''FSM: order {} not filled in time by Binance'' [JStr (o_newClientOrderId (run_order s))])
       (\<lambda>msg. send_message msg False),
     sg_set_state ST_RESUME,
     sg_fsm_run JNull]"

section \<open>The events of the bot\<close>

datatype sg_event =
    SgEval
  | SgTradeRun string
  | SgSymbolsList "string list"
  | SgTradeData string
  | SgGetTradeState string
  | SgPriceTimer
  | SgAlert string string
  | SgIndicators
  | SgStart
  | SgChange
  | SgStop
  | SgSetSymbol string
  | SgAccount string
  | SgBalance string
  | SgWssData string
  | SgReport string
  | SgPrice string
  | SgUserValue string
  | SgCompleteTimeout
  | SgFillTimeout

fun sg_handle :: "sg_event \<Rightarrow> sg_act" where
  "sg_handle SgEval = sg_eval"
| "sg_handle (SgTradeRun d) = sg_on_trade_run d"
| "sg_handle (SgSymbolsList ss) = sg_on_symbols_list ss"
| "sg_handle (SgTradeData d) = sg_on_trade_data d"
| "sg_handle (SgGetTradeState k) = sg_on_get_trade_state k"
| "sg_handle SgPriceTimer = on_price_timer"
| "sg_handle (SgAlert n b) = on_alert n b"
| "sg_handle SgIndicators = on_indicators"
| "sg_handle SgStart = on_start"
| "sg_handle SgChange = on_change"
| "sg_handle SgStop = on_stop"
| "sg_handle (SgSetSymbol k) = on_set_symbol k"
| "sg_handle (SgAccount d) = sg_on_account d"
| "sg_handle (SgBalance d) = sg_on_balance d"
| "sg_handle (SgWssData d) = sg_on_wss_data d"
| "sg_handle (SgReport d) = sg_on_order_report d"
| "sg_handle (SgPrice d) = sg_on_price d"
| "sg_handle (SgUserValue v) = on_user_value (JStr v)"
| "sg_handle SgCompleteTimeout = sg_on_order_complete_timeout"
| "sg_handle SgFillTimeout = on_order_fill_timeout"

end
