(* ===== verification/SingleFacts.thy ===== *)
theory SingleFacts
  imports SingleEvents Triples
begin

text \<open>
  The invariant of the state of strategy.py and what its events can do, whatever
  the host: one lemma per statement the handlers are made of, one per handler, and
  the machine by induction on the depth of nested calls of \<open>run\<close>.
\<close>

section \<open>Invariant\<close>

definition sg_states :: "string set" where
  "sg_states =
     {ST_START, ST_CHANGE, ST_READY, ST_WAIT_USER_COMMAND, ST_WAIT_INP_TRIGGER, ST_WAIT_INP_PRICE,
      ST_WAIT_INP_QUANTITY, ST_READY_TO_TRADE, ST_START_TRADE, ST_WAIT_ORDER_CMPL, ST_WAIT_ORDER_FILL,
      ST_WAIT_ORDER_DEL, ST_WAIT_PRICE, ST_IN_PRICE, ST_RESUME}"

definition sg_machine :: "single \<Rightarrow> bool" where
  "sg_machine s \<longleftrightarrow>
     fsm_handlers (sg_fsm s) = fsm_handlers sg_fsm_init \<and> fsm_endStates (sg_fsm s) = [ST_STOP] \<and>
     fsm_state (sg_fsm s) \<in> sg_states"

definition sg_inv :: "single \<Rightarrow> bool" where
  "sg_inv s \<longleftrightarrow>
     sg_machine s \<and> length (sg_orders s) = 2 \<and> length (sg_trigger s) = 2 \<and> length (sg_temp_orders s) = 2 \<and>
     length (sg_temp_trigger s) = 2 \<and> length (sg_price s) \<le> 2 \<and> sg_input_step s < 2 \<and> sg_run_step s < 2 \<and>
     (\<forall>i. sg_wait_order_fill s = SlotOrder i \<longrightarrow> i < 2) \<and>
     (\<exists>d. map_of (sg_trade_state s) ''O'' = Some (JObj d)) \<and>
     dict_has (sg_balances s) (sg_symbol s) \<and> dict_has (sg_balances s) ''USDT'' \<and> 0 \<le> sg_counter s"

text \<open>The invariant, under a host and for a currency.\<close>

definition sg_in :: "string list \<Rightarrow> string \<Rightarrow> single \<Rightarrow> bool" where
  "sg_in hs coin s \<longleftrightarrow> sg_inv s \<and> sg_host s = hs \<and> sg_symbol s = coin"

lemmas sg_in_defs = sg_in_def sg_inv_def sg_machine_def

lemma sg_handlers [simp]:
  "map_of (fsm_handlers sg_fsm_init) ST_START = Some (Some G_start)"
  "map_of (fsm_handlers sg_fsm_init) ST_CHANGE = Some (Some G_change)"
  "map_of (fsm_handlers sg_fsm_init) ST_READY = Some (Some G_ready)"
  "map_of (fsm_handlers sg_fsm_init) ST_WAIT_USER_COMMAND = Some (Some G_wait_user_command)"
  "map_of (fsm_handlers sg_fsm_init) ST_WAIT_INP_TRIGGER = Some (Some G_wait_input_triggr)"
  "map_of (fsm_handlers sg_fsm_init) ST_WAIT_INP_PRICE = Some (Some G_wait_input_price)"
  "map_of (fsm_handlers sg_fsm_init) ST_WAIT_INP_QUANTITY = Some (Some G_wait_input_quantity)"
  "map_of (fsm_handlers sg_fsm_init) ST_READY_TO_TRADE = Some (Some G_wait_ready_to_trade)"
  "map_of (fsm_handlers sg_fsm_init) ST_START_TRADE = Some (Some G_start_trade)"
  "map_of (fsm_handlers sg_fsm_init) ST_WAIT_ORDER_CMPL = Some (Some G_wait_order_compl)"
  "map_of (fsm_handlers sg_fsm_init) ST_WAIT_ORDER_FILL = Some (Some G_wait_order_fill)"
  "map_of (fsm_handlers sg_fsm_init) ST_WAIT_ORDER_DEL = Some (Some G_wait_order_del)"
  "map_of (fsm_handlers sg_fsm_init) ST_WAIT_PRICE = Some (Some G_wait_price)"
  "map_of (fsm_handlers sg_fsm_init) ST_IN_PRICE = Some (Some G_in_price)"
  "map_of (fsm_handlers sg_fsm_init) ST_RESUME = Some (Some G_resume)"
  by (simp_all add: sg_fsm_init_def StateMachine_def)

lemma sg_fsm_init_simps [simp]:
  "fsm_endStates sg_fsm_init = [ST_STOP]" "fsm_state sg_fsm_init = ST_READY"
  by (simp_all add: sg_fsm_init_def StateMachine_def)

lemma sg_states_live [simp]: "ST_STOP \<notin> sg_states"
  by (simp add: sg_states_def)

interpretation sg_host: fsm_host sg_fsm sg_fsm_update "sg_exec go"
  for go
  by unfold_locales simp

lemma sg_machine_goto [simp]:
  "sg_machine s \<Longrightarrow> fsm_state (set_state st (sg_fsm s)) = st"
  "sg_machine s \<Longrightarrow> fsm_handlers (set_state st (sg_fsm s)) = fsm_handlers sg_fsm_init"
  "sg_machine s \<Longrightarrow> fsm_endStates (set_state st (sg_fsm s)) = [ST_STOP]"
  by (auto simp: sg_machine_def)

text \<open>\<open>run\<close> always finds a handler.\<close>

lemma sg_run_handler:
  assumes "sg_machine s" and "map_of (fsm_handlers sg_fsm_init) (fsm_state (sg_fsm s)) = Some (Some h)"
  shows "sg_run (Suc n) arg s = sg_exec (sg_run n) h arg s"
proof -
  have "fsm_state (sg_fsm s) \<noteq> ST_STOP"
    using assms(1) sg_states_live by (auto simp: sg_machine_def simp del: sg_states_live)
  with assms show ?thesis
    by (simp add: sg_machine_def sg_host.run_handler)
qed

lemma sg_state_handler: "sg_machine s \<Longrightarrow> \<exists>h. map_of (fsm_handlers sg_fsm_init) (fsm_state (sg_fsm s)) = Some (Some h)"
  unfolding sg_machine_def sg_states_def by (elim conjE insertE) auto

lemma sg_inv_init: "sg_inv (SingleStrategy hs)"
  by (simp add: sg_inv_def sg_machine_def sg_states_def SingleStrategy_def dict_has_def)

section \<open>Statements\<close>

text \<open>An effect that sends no order to the exchange.\<close>

definition no_exec :: "effect \<Rightarrow> bool" where
  "no_exec e \<longleftrightarrow> (case e of ExecOrder _ \<Rightarrow> False | _ \<Rightarrow> True)"

lemma no_exec_simps [simp]:
  "no_exec (ToLog j)" "no_exec (ToJournal j)" "no_exec (ToWeb j)" "no_exec (ToAlertChannel j)"
  "no_exec (StopTimer t)" "no_exec (SendMessage j b)" "no_exec (RequestValue j)" "no_exec (RequestCommand j js)"
  "no_exec (CreateIntervalTimer t k b)" "no_exec (GetPrice t)" "no_exec (DeleteOrder ord)" "\<not> no_exec (ExecOrder ord)"
  by (simp_all add: no_exec_def)

lemma no_exec_orders: "\<forall>e \<in> set es. no_exec e \<Longrightarrow> orders_of es = []"
  by (induction es rule: orders_of.induct) auto

lemma run_step_of:
  "parse_int (py_strip (\<lambda>c. c \<in> set ''$s'') ''$s1'') = Some 1"
  "parse_int (py_strip (\<lambda>c. c \<in> set ''$s'') ''$s2'') = Some 2"
  "parse_int (py_strip (\<lambda>c. c \<in> set ''$a'') ''$a1'') = Some 1"
  "parse_int (py_strip (\<lambda>c. c \<in> set ''$a'') ''$a2'') = Some 2"
  by code_simp+

text \<open>The statements, for effects that are restricted in the orders sent only.\<close>

locale sg_quiet =
  fixes hs :: "string list" and coin :: string and P :: "effect \<Rightarrow> bool"
  assumes quiet: "no_exec e \<Longrightarrow> P e"
begin

lemma u_host: "no_exec e \<Longrightarrow> under (sg_in hs coin) P (host m e)"
  unfolding host_def by (intro under_intros quiet)

lemma u_set_state: "st \<in> sg_states \<Longrightarrow> under (sg_in hs coin) P (sg_set_state st)"
  unfolding sg_set_state_def by (intro under_intros) (auto simp: sg_in_defs)

lemma u_says:
  "under (sg_in hs coin) P (sg_log f)" "under (sg_in hs coin) P (send_message j b)"
  "under (sg_in hs coin) P (sg_to_journal j)" "under (sg_in hs coin) P (request_value j)"
  "under (sg_in hs coin) P (request_command j js)" "under (sg_in hs coin) P (sg_to_alert_channel j)"
  "under (sg_in hs coin) P (trade_state j)" "under (sg_in hs coin) P send_curr_trade_state"
  "under (sg_in hs coin) P (sg_stop_timer t)"
  unfolding sg_log_def send_message_def sg_to_journal_def request_value_def request_command_def
    sg_to_alert_channel_def trade_state_def send_curr_trade_state_def sg_stop_timer_def
  by (intro under_intros u_host; simp)+

lemma u_all_logs: "under (sg_in hs coin) P (to_all_logs j b)"
  unfolding to_all_logs_def by (intro under_intros u_says)

lemma u_cts_set: "k \<noteq> ''O'' \<Longrightarrow> under (sg_in hs coin) P (cts_set k v)"
  unfolding cts_set_def by (intro under_intros) (auto simp: sg_in_defs)

lemma u_cts_O_set: "under (sg_in hs coin) P (cts_O_set k v)"
  unfolding cts_O_set_def cts_set_def
  by (intro under_intros) (auto simp: sg_in_defs split: json.splits intro!: under_intros)

lemma u_upds:
  "under (sg_in hs coin) P (upd_sg_order i g)" "under (sg_in hs coin) P (upd_temp_order i g)"
  "under (sg_in hs coin) P (set_trigger i x)" "under (sg_in hs coin) P (set_temp_trigger i x)"
  "under (sg_in hs coin) P (sg_upd_run_order h)" "under (sg_in hs coin) P sg_reset_order_report"
  unfolding upd_sg_order_def upd_temp_order_def set_trigger_def set_temp_trigger_def sg_upd_run_order_def
    sg_reset_order_report_def
  by (intro under_intros; auto simp: sg_in_defs)+

lemma u_assigns:
  "under (sg_in hs coin) P (p_upd (\<lambda>s. s\<lparr>sg_is_wait_price := b\<rparr>))"
  "under (sg_in hs coin) P (p_upd (\<lambda>s. s\<lparr>sg_running := b\<rparr>))"
  "under (sg_in hs coin) P (p_upd (\<lambda>s. s\<lparr>sg_change_mode := b\<rparr>))"
  "under (sg_in hs coin) P (p_upd (\<lambda>s. s\<lparr>sg_reinput := b\<rparr>))"
  "under (sg_in hs coin) P (p_upd (\<lambda>s. s\<lparr>sg_input_step := 0\<rparr>))"
  by (intro under_intros; auto simp: sg_in_defs)+

lemma u_clear_waited: "under (sg_in hs coin) P clear_waited"
  unfolding clear_waited_def by (intro under_intros) (auto intro!: under_intros u_upds split: order_ref.split)

lemmas u_stmts = u_says u_all_logs u_cts_O_set u_upds u_assigns u_clear_waited

end

section \<open>Handlers\<close>

text \<open>
  The handlers and the events, given what \<open>fsm_in_price\<close> may send to the exchange: it
  is the only one that sends anything.
\<close>

locale sg_effects = sg_quiet hs coin P
  for hs :: "string list" and coin :: string and P :: "effect \<Rightarrow> bool" +
  assumes in_price: "under (sg_in hs coin) P sg_fsm_in_price"
begin

lemma u_reset_trade_pos: "under (sg_in hs coin) P reset_trade_pos"
  unfolding reset_trade_pos_def by (intro under_intros u_stmts)

lemma u_print: "under (sg_in hs coin) P sg_print_trade_pos" "under (sg_in hs coin) P show_unless_reinput"
  unfolding show_unless_reinput_def sg_print_trade_pos_def by (intro under_intros u_stmts)+

lemma u_reset_all: "under (sg_in hs coin) P reset_all"
  unfolding reset_all_def by (intro under_intros u_stmts) (auto simp: sg_in_defs)

lemma u_fsm_ready: "under (sg_in hs coin) P sg_fsm_ready"
  unfolding sg_fsm_ready_def by (rule u_says)

lemma u_fsm_start: "under (sg_in hs coin) P sg_fsm_start"
  unfolding sg_fsm_start_def
  by (intro under_intros u_stmts u_reset_trade_pos u_cts_set u_set_state) (auto simp: sg_in_defs sg_states_def)

lemma u_fsm_change: "(\<And>a. under (sg_in hs coin) P (go a)) \<Longrightarrow> under (sg_in hs coin) P (sg_fsm_change go)"
  unfolding sg_fsm_change_def
  by (intro under_intros u_stmts u_print u_set_state) (auto simp: sg_in_defs sg_states_def)

lemma u_delete_sg_waited: "under (sg_in hs coin) P delete_sg_waited"
  unfolding delete_sg_waited_def by (intro under_intros u_host u_set_state) (auto simp: sg_states_def)

lemma u_begin_trade: "(\<And>a. under (sg_in hs coin) P (go a)) \<Longrightarrow> under (sg_in hs coin) P (begin_trade m j go)"
  unfolding begin_trade_def by (intro under_intros u_stmts u_set_state) (auto simp: sg_states_def)

lemma u_choose:
  assumes "parse_int (py_strip (\<lambda>c. c \<in> set chars) cmd) = Some i" and "i \<le> 2"
  shows "under (sg_in hs coin) P (choose_run_step chars cmd)"
  unfolding choose_run_step_def using assms
  by (intro under_intros u_stmts) (auto simp: sg_in_defs)

lemma u_set_quantities: "under (sg_in hs coin) P (set_quantities q)"
  unfolding set_quantities_def by (intro under_intros u_stmts)

lemma u_fsm_wait_user_command:
  assumes "\<And>a. under (sg_in hs coin) P (go a)"
  shows "under (sg_in hs coin) P (sg_fsm_wait_user_command go cmd)"
proof -
  have pos: "under (sg_in hs coin) P (command_pos 0)" "under (sg_in hs coin) P (command_pos 1)"
    unfolding command_pos_def by (intro under_intros u_stmts u_set_state; auto simp: sg_in_defs sg_states_def)+
  have asks: "under (sg_in hs coin) P command_quantity" "under (sg_in hs coin) P command_back"
    "under (sg_in hs coin) P command_exec" "under (sg_in hs coin) P command_apply"
    unfolding command_quantity_def command_back_def command_exec_def command_apply_def
    by (intro under_intros u_stmts u_set_state; simp add: sg_states_def)+
  have cancel: "under (sg_in hs coin) P (command_cancel go)"
    unfolding command_cancel_def
    by (intro under_intros u_stmts u_cts_set u_set_state u_delete_sg_waited assms; simp add: sg_states_def)
  have start: "under (sg_in hs coin) P (command_start c go)" if "c = ''$s1'' \<or> c = ''$s2''" for c
    using that unfolding command_start_def
    by (intro under_intros u_begin_trade assms) (auto intro: u_choose [OF run_step_of(1)] u_choose [OF run_step_of(2)])
  have take: "under (sg_in hs coin) P (p_upd take_temp)"
    by (intro under_intros) (auto simp: take_temp_def sg_in_defs)
  have continue: "under (sg_in hs coin) P (command_continue c go)" if "c = ''$a1'' \<or> c = ''$a2''" for c
    using that unfolding command_continue_def
    by (intro under_intros take u_begin_trade assms u_stmts u_delete_sg_waited)
      (auto intro: u_choose [OF run_step_of(3)] u_choose [OF run_step_of(4)])
  have all: "under (sg_in hs coin) P (command_all b go)" for b
    unfolding command_all_def by (intro under_intros u_print u_set_state u_set_quantities assms; simp add: sg_states_def)
  show ?thesis
    unfolding sg_fsm_wait_user_command_def
    by (intro under_intros u_stmts pos asks cancel start continue all; assumption)
qed

lemma u_fsm_wait_input_triggr:
  assumes "\<And>a. under (sg_in hs coin) P (go a)"
  shows "under (sg_in hs coin) P (sg_fsm_wait_input_triggr go arg)"
  unfolding sg_fsm_wait_input_triggr_def
  by (intro under_intros u_stmts u_print u_set_state assms; simp add: sg_states_def)

lemma u_fsm_wait_input_price:
  assumes "\<And>a. under (sg_in hs coin) P (go a)"
  shows "under (sg_in hs coin) P (sg_fsm_wait_input_price go arg)"
  unfolding sg_fsm_wait_input_price_def
  by (intro under_intros u_stmts u_print u_set_state assms; simp add: sg_states_def)

lemma u_fsm_wait_input_quantity:
  assumes "\<And>a. under (sg_in hs coin) P (go a)"
  shows "under (sg_in hs coin) P (sg_fsm_wait_input_quantity go arg)"
  unfolding sg_fsm_wait_input_quantity_def offer_all_def
  by (intro under_intros u_stmts u_print u_set_state u_set_quantities assms; simp add: sg_states_def)

lemma u_fsm_wait_ready_to_trade: "under (sg_in hs coin) P sg_fsm_wait_ready_to_trade"
  unfolding sg_fsm_wait_ready_to_trade_def by (intro under_intros u_stmts u_set_state; simp add: sg_states_def)

lemma u_fsm_start_trade: "under (sg_in hs coin) P sg_fsm_start_trade"
  unfolding sg_fsm_start_trade_def
  by (intro under_intros u_stmts u_cts_set u_host u_set_state; simp add: sg_states_def)

lemma u_fsm_wait_price: "(\<And>a. under (sg_in hs coin) P (go a)) \<Longrightarrow> under (sg_in hs coin) P (sg_fsm_wait_price go)"
  unfolding sg_fsm_wait_price_def by (intro under_intros u_stmts u_set_state; simp add: sg_states_def)

lemma u_fsm_wait_order_compl: "under (sg_in hs coin) P sg_fsm_wait_order_compl"
proof -
  have waits: "under (sg_in hs coin) P (p_upd (\<lambda>s. s\<lparr>sg_wait_order_fill := SlotOrder (sg_run_step s)\<rparr>))"
    by (intro under_intros) (auto simp: sg_in_defs)
  show ?thesis
    unfolding sg_fsm_wait_order_compl_def sg_order_rejected_def sg_order_confirmed_def Let_def
    by (intro under_intros u_stmts u_cts_set u_set_state waits; simp add: sg_states_def)
qed

lemma u_fsm_wait_order_fill: "under (sg_in hs coin) P sg_fsm_wait_order_fill"
proof -
  have step: "under (sg_in hs coin) P sg_next_step"
    unfolding sg_next_step_def by (intro under_intros) (auto simp: sg_in_defs)
  show ?thesis
    unfolding sg_fsm_wait_order_fill_def Let_def
    by (intro under_intros u_stmts u_cts_set u_host u_set_state step; simp add: sg_states_def)
qed

lemma u_fsm_wait_order_del:
  "(\<And>a. under (sg_in hs coin) P (go a)) \<Longrightarrow> under (sg_in hs coin) P (sg_fsm_wait_order_del go)"
  unfolding sg_fsm_wait_order_del_def
  by (intro under_intros u_stmts u_cts_set u_set_state; simp add: sg_states_def)

lemma u_fsm_resume: "(\<And>a. under (sg_in hs coin) P (go a)) \<Longrightarrow> under (sg_in hs coin) P (sg_fsm_resume go)"
  unfolding sg_fsm_resume_def
  by (intro under_intros u_stmts u_cts_set u_set_state u_reset_all; simp add: sg_states_def)

lemma u_exec: "(\<And>a. under (sg_in hs coin) P (go a)) \<Longrightarrow> under (sg_in hs coin) P (sg_exec go h arg)"
  by (cases h)
    (simp_all add: in_price u_fsm_ready u_fsm_start u_fsm_change u_fsm_wait_user_command u_fsm_wait_input_triggr
      u_fsm_wait_input_price u_fsm_wait_input_quantity u_fsm_wait_ready_to_trade u_fsm_start_trade u_fsm_wait_price
      u_fsm_wait_order_compl u_fsm_wait_order_fill u_fsm_wait_order_del u_fsm_resume)

lemma u_run: "under (sg_in hs coin) P (sg_run n arg)"
proof (induction n arbitrary: arg)
  case 0
  show ?case
    by (simp add: under_def)
next
  case (Suc n)
  have "sg_run (Suc n) arg s = sg_exec (sg_run n) h arg s"
    if "sg_in hs coin s" "map_of (fsm_handlers sg_fsm_init) (fsm_state (sg_fsm s)) = Some (Some h)" for s h
    using that sg_run_handler by (simp add: sg_in_defs del: sg_run.simps)
  moreover have "under (sg_in hs coin) P (sg_exec (sg_run n) h arg)" for h
    by (intro u_exec Suc.IH)
  ultimately show ?case
    unfolding under_def using sg_state_handler by (metis sg_in_def sg_inv_def)
qed

lemma u_fsm_run: "under (sg_in hs coin) P (sg_fsm_run arg)"
  unfolding sg_fsm_run_def by (rule u_run)

section \<open>Events\<close>

lemma u_goto: "st \<in> sg_states \<Longrightarrow> under (sg_in hs coin) P (p_block [sg_set_state st, sg_fsm_run arg])"
  by (intro under_intros u_set_state u_fsm_run)

lemma u_on_trade_run: "under (sg_in hs coin) P (sg_on_trade_run d)"
proof -
  have step: "under (sg_in hs coin) P (p_upd (\<lambda>s. s\<lparr>sg_run_step := if b then 0 else 1\<rparr>))" for b
    by (intro under_intros) (auto simp: sg_in_defs)
  show ?thesis
    unfolding sg_on_trade_run_def Let_def
    by (intro under_intros u_stmts step u_begin_trade u_fsm_run u_set_state) (simp add: sg_states_def)
qed

lemma u_on_trade_data: "under (sg_in hs coin) P (sg_on_trade_data d)"
proof -
  have "under (sg_in hs coin) P (sg_take_trade_data j)" for j
    unfolding sg_take_trade_data_def by (intro under_intros u_stmts u_cts_set; simp)
  then show ?thesis
    unfolding sg_on_trade_data_def sg_refuse_data_def
    by (cases "json_loads d"; simp) (intro under_intros u_stmts; simp)+
qed

lemma u_entries: "under (sg_in hs coin) P (sg_entry elem smb kf kl)"
  unfolding sg_entry_def upd_balance_def
  by (intro under_intros) (auto simp: sg_in_defs)

lemma u_on_account: "under (sg_in hs coin) P (sg_on_account d)"
proof -
  have set: "under (sg_in hs coin) P (p_upd (\<lambda>s. s\<lparr>sg_taker_commission := x\<rparr>))"
    "under (sg_in hs coin) P (p_upd (\<lambda>s. s\<lparr>sg_maker_commission := x\<rparr>))" for x
    by (intro under_intros; auto simp: sg_in_defs)+
  show ?thesis
    unfolding sg_on_account_def by (intro set under_intros u_stmts u_host u_entries; simp)
qed

lemma u_on_balance: "under (sg_in hs coin) P (sg_on_balance d)"
  unfolding sg_on_balance_def by (intro under_intros u_stmts u_entries)

text \<open>A price takes the place of the oldest.\<close>

lemma u_on_price: "under (sg_in hs coin) P (sg_on_price d)"
proof -
  have turn: "under (sg_in hs coin) P (p_block [
      p_read sg_price (\<lambda>ps. if ps = [] then p_raise IndexError else p_upd (\<lambda>s. s\<lparr>sg_price := butlast (sg_price s)\<rparr>)),
      p_val (float_of price) (\<lambda>x. p_upd (\<lambda>s. s\<lparr>sg_price := x # sg_price s\<rparr>))])" for price
    unfolding under_def by (auto simp: run_prog sg_in_defs split: sum.splits)
  show ?thesis
    unfolding sg_on_price_def by (intro turn u_fsm_run under_val under_when under_block)
qed

lemma u_on_alert: "under (sg_in hs coin) P (on_alert n b)"
  unfolding on_alert_def by (intro under_intros) (auto simp: sg_in_defs)

lemma u_commands:
  "under (sg_in hs coin) P on_start" "under (sg_in hs coin) P on_change" "under (sg_in hs coin) P on_stop"
  "under (sg_in hs coin) P (on_user_value v)"
  unfolding on_start_def on_change_def on_stop_def on_user_value_def
  by (intro under_intros u_stmts u_set_state u_fsm_run u_delete_sg_waited; simp add: sg_states_def)+

lemma u_timeouts:
  "under (sg_in hs coin) P sg_on_order_complete_timeout" "under (sg_in hs coin) P on_order_fill_timeout"
  "under (sg_in hs coin) P on_price_timer"
  unfolding sg_on_order_complete_timeout_def on_order_fill_timeout_def on_price_timer_def
  by (intro under_intros u_stmts u_cts_set u_set_state u_fsm_run u_host; simp add: sg_states_def)+

lemma u_on_order_report: "under (sg_in hs coin) P (sg_on_order_report d)"
  unfolding sg_on_order_report_def
  by (intro under_intros u_stmts u_host u_fsm_run) (auto simp: sg_in_defs)

lemma u_others:
  "under (sg_in hs coin) P sg_eval" "under (sg_in hs coin) P (sg_on_symbols_list ss)"
  "under (sg_in hs coin) P (sg_on_get_trade_state k)" "under (sg_in hs coin) P on_indicators"
  "under (sg_in hs coin) P (sg_on_wss_data d)"
  unfolding sg_eval_def sg_on_symbols_list_def sg_on_get_trade_state_def on_indicators_def sg_on_wss_data_def
  by (intro under_intros u_stmts u_cts_set; simp)+

lemma u_handle:
  assumes "\<forall>k. ev \<noteq> SgSetSymbol k"
  shows "under (sg_in hs coin) P (sg_handle ev)"
  using assms
  by (cases ev)
    (auto simp: u_on_trade_run u_on_trade_data u_on_account u_on_balance u_on_price u_on_alert u_commands u_timeouts
      u_on_order_report u_others)

end

section \<open>What \<open>fsm_in_price\<close> sends\<close>

text \<open>Whatever it sends, the invariant is kept.\<close>

interpretation sg_any_quiet: sg_quiet hs coin "\<lambda>_. True"
  for hs coin
  by unfold_locales simp

interpretation sg_any: sg_effects hs coin "\<lambda>_. True"
  for hs coin
proof
  have name: "under (sg_in hs coin) (\<lambda>_. True) sg_name_order"
    unfolding sg_name_order_def by (intro under_intros sg_any_quiet.u_stmts)
  have "under (sg_in hs coin) (\<lambda>_. True) (host m e)" for m e
    unfolding host_def by (intro under_intros TrueI)
  then show "under (sg_in hs coin) (\<lambda>_. True) sg_fsm_in_price"
    unfolding sg_fsm_in_price_def
    by (intro under_intros sg_any_quiet.u_stmts sg_any_quiet.u_cts_set sg_any_quiet.u_set_state name)
      (simp_all add: sg_states_def)
qed

lemma keeps_in_price: "keeps (sg_in hs coin) sg_fsm_in_price"
  by (rule under_keeps [OF sg_any.in_price])

text \<open>Without \<open>trade_state\<close> it raises before it sends an order.\<close>

lemma silent_quiet: "m \<noteq> ''exec_order'' \<Longrightarrow> no_exec e \<Longrightarrow> emits_only no_exec (host m e)"
  unfolding host_def by (intro emits_intros)

lemma quiet_stmts:
  "emits_only no_exec (sg_log f)" "emits_only no_exec (send_message j b)" "emits_only no_exec (sg_to_journal j)"
  "emits_only no_exec (trade_state j)" "emits_only no_exec send_curr_trade_state"
  "emits_only no_exec (cts_set k v)" "emits_only no_exec (cts_O_set k v)" "emits_only no_exec (to_all_logs j b)"
  "emits_only no_exec (sg_upd_run_order g)" "emits_only no_exec (sg_set_state st)"
  unfolding sg_log_def send_message_def sg_to_journal_def trade_state_def send_curr_trade_state_def cts_set_def
    cts_O_set_def to_all_logs_def sg_upd_run_order_def sg_set_state_def
  by (auto intro!: emits_intros silent_quiet split: json.split)

lemma quiet_name: "emits_only no_exec sg_name_order"
  unfolding sg_name_order_def by (intro emits_intros quiet_stmts)

lemma all_logs_raises:
  assumes "''trade_state'' \<notin> set (sg_host s)" and "outcome_of (to_all_logs j b s) = Done ()"
  shows False
  using assms
  by (auto simp: to_all_logs_def send_curr_trade_state_def trade_state_def host_def send_message_def sg_to_journal_def
      run_prog split: if_splits)

lemma in_price_mute:
  assumes "''trade_state'' \<notin> set hs"
  shows "emits_from (sg_in hs coin) no_exec sg_fsm_in_price"
proof -
  have mute: "emits_from (sg_in hs coin) no_exec (p_block (to_all_logs j b # c # cs))" for j b c cs
  proof (rule emits_from_step)
    show "emits_from (sg_in hs coin) no_exec (to_all_logs j b)"
      by (intro emits_from_only quiet_stmts)
    show "False" if "sg_in hs coin s" "outcome_of (to_all_logs j b s) = Done ()" for s
      using that assms all_logs_raises [of s j b] by (simp add: sg_in_def)
  qed (rule emits_from_False)
  have step: "emits_from (sg_in hs coin) no_exec (p_block (m # c # cs))"
    if "emits_only no_exec m" "keeps (sg_in hs coin) m" "emits_from (sg_in hs coin) no_exec (p_block (c # cs))" for m c cs
    using that by (intro emits_from_step [of _ _ _ "sg_in hs coin"]) (auto intro: emits_from_only keepsD)
  show ?thesis
    unfolding sg_fsm_in_price_def
    by (intro step quiet_stmts mute emits_from_read emits_from_single under_keeps [OF sg_any_quiet.u_says(1)]
        under_keeps [OF sg_any_quiet.u_cts_set]) simp_all
qed

text \<open>The order the script may send for a currency.\<close>

definition sg_right_order :: "string \<Rightarrow> order \<Rightarrow> bool" where
  "sg_right_order coin ord \<longleftrightarrow>
     o_symbol ord = coin @ ''USDT'' \<and> o_type ord = LIMIT \<and> o_timeInForce ord = GTC \<and> o_stopPrice ord = f0 \<and>
     (\<exists>step n. step < 2 \<and> 0 \<le> n \<and> o_side ord = (if step = 0 then BUY else SELL) \<and>
        o_newClientOrderId ord = sg_order_id step coin n)"

definition sg_right_effect :: "string \<Rightarrow> effect \<Rightarrow> bool" where
  "sg_right_effect coin e \<longleftrightarrow> (case e of ExecOrder ord \<Rightarrow> sg_right_order coin ord | _ \<Rightarrow> True)"

lemma name_order_right:
  assumes "sg_in hs coin s" and "outcome_of (sg_name_order s) = Done ()"
  shows "sg_in hs coin (state_of (sg_name_order s)) \<and>
    (\<exists>i n. i < 2 \<and> 0 \<le> n \<and> run_order (state_of (sg_name_order s)) =
       (run_order s)\<lparr>o_newClientOrderId := sg_order_id i coin n, o_side := (if i = 0 then BUY else SELL)\<rparr>)"
proof -
  obtain d where d: "map_of (sg_trade_state s) ''O'' = Some (JObj d)" and st: "sg_run_step s = 0 \<or> sg_run_step s = 1"
    and len: "length (sg_orders s) = 2" and coin: "sg_symbol s = coin" "0 \<le> sg_counter s"
    using assms(1) by (auto simp: sg_in_defs less_2_cases_iff)
  have "keeps (sg_in hs coin) sg_name_order"
    unfolding sg_name_order_def by (intro under_keeps [of _ "\<lambda>_. True"] under_intros sg_any_quiet.u_stmts)
  note inv = keepsD [OF this assms(1)]
  have r: "run_order (state_of (sg_name_order s)) =
      (run_order s)\<lparr>o_newClientOrderId := sg_order_id (sg_run_step s) coin (sg_counter s),
        o_side := (if sg_run_step s = 0 then BUY else SELL)\<rparr>"
    using d st len coin
    by (auto simp: sg_name_order_def sg_upd_run_order_def cts_O_set_def cts_set_def run_order_def run_prog dict_get_def)
  show ?thesis
    using inv r st coin(2) by (intro conjI exI [of _ "sg_run_step s"] exI [of _ "sg_counter s"]) auto
qed

lemma in_price_right: "emits_from (sg_in hs coin) (sg_right_effect coin) sg_fsm_in_price"
proof -
  have quiet: "emits_only (sg_right_effect coin) m" if "emits_only no_exec m" for m :: sg_act
    using that by (auto simp: emits_only_def no_exec_def sg_right_effect_def split: effect.splits)
  have step: "emits_from (sg_in hs coin) (sg_right_effect coin) (p_block (m # c # cs))"
    if "emits_only no_exec m" "keeps (sg_in hs coin) m" "emits_from (sg_in hs coin) (sg_right_effect coin) (p_block (c # cs))"
    for m c cs
    using that by (intro emits_from_step [of _ _ _ "sg_in hs coin"]) (auto intro: emits_from_only quiet keepsD)
  define J1 where "J1 = (\<lambda>s. sg_in hs coin s \<and> o_symbol (run_order s) = coin @ ''USDT'' \<and> o_stopPrice (run_order s) = f0)"
  define J2 where "J2 = (\<lambda>s. J1 s \<and> (\<exists>i n. i < 2 \<and> 0 \<le> n \<and> o_side (run_order s) = (if i = 0 then BUY else SELL) \<and>
      o_newClientOrderId (run_order s) = sg_order_id i coin n))"
  define J3 where "J3 = (\<lambda>s. sg_right_order coin (run_order s))"
  let ?A = "sg_upd_run_order (\<lambda>s ord. ord\<lparr>o_symbol := sg_symbol s @ ''USDT'', o_stopPrice := f0\<rparr>)"
  let ?T = "sg_upd_run_order (\<lambda>s ord. ord\<lparr>o_type := LIMIT, o_timeInForce := GTC\<rparr>)"
  have upd: "run_order (state_of (sg_upd_run_order g s)) = g s (run_order s)" if "sg_in hs coin s" for g s
    using that by (simp add: sg_upd_run_order_def run_order_def run_prog sg_in_defs)
  have A: "J1 (state_of (?A s))" if "sg_in hs coin s" for s
    using that upd [OF that] underD(1) [OF sg_any_quiet.u_upds(5) that] by (simp add: J1_def sg_in_def)
  have N: "J2 (state_of (sg_name_order s))" if "J1 s" "outcome_of (sg_name_order s) = Done ()" for s
  proof -
    have "sg_in hs coin s"
      using that(1) by (simp add: J1_def)
    from name_order_right [OF this that(2)] obtain i n where "i < 2" "0 \<le> n" "run_order (state_of (sg_name_order s)) =
        (run_order s)\<lparr>o_newClientOrderId := sg_order_id i coin n, o_side := (if i = 0 then BUY else SELL)\<rparr>"
      and "sg_in hs coin (state_of (sg_name_order s))"
      by blast
    with that(1) show ?thesis
      unfolding J2_def J1_def by (intro conjI exI [of _ i] exI [of _ n]) simp_all
  qed
  have T: "J3 (state_of (?T s))" if "J2 s" for s
    using that upd [of s] by (auto simp: J1_def J2_def J3_def sg_right_order_def)
  have send: "emits_from J3 (sg_right_effect coin) (p_read run_order (\<lambda>ord. host ''exec_order'' (ExecOrder ord)))"
    by (auto simp: emits_from_def host_def run_prog J3_def sg_right_effect_def)
  have rest: "emits_from J2 (sg_right_effect coin)
      (p_block (?T # p_read run_order (\<lambda>ord. host ''exec_order'' (ExecOrder ord)) # c # cs))"
    if "emits_only no_exec (p_block (c # cs))" for c cs
    using send that
    by (intro emits_from_step [of _ _ ?T J3] emits_from_step [of _ _ _ "\<lambda>_. True"] T) (auto intro: emits_from_only quiet quiet_stmts)
  have order: "emits_from (sg_in hs coin) (sg_right_effect coin) (p_block (?A # sg_name_order # c # cs))"
    if "emits_from J2 (sg_right_effect coin) (p_block (c # cs))" for c cs
    using that
    by (intro emits_from_step [of _ _ ?A J1] emits_from_step [of _ _ _ J2] A N)
      (auto intro: emits_from_only quiet quiet_stmts quiet_name)
  show ?thesis
    unfolding sg_fsm_in_price_def
    by (intro step order rest quiet_stmts emits_from_read emits_from_single under_keeps [OF sg_any_quiet.u_says(1)]
        under_keeps [OF sg_any_quiet.u_cts_set] under_keeps [OF sg_any_quiet.u_all_logs] emits_intros silent_quiet) simp_all
qed

text \<open>Whatever the host, the script sends orders of its own pair, rightly filled in.\<close>

interpretation sg_sends: sg_effects hs coin "sg_right_effect coin"
  for hs coin
proof
  show "sg_right_effect coin e" if "no_exec e" for e
    using that by (cases e) (simp_all add: sg_right_effect_def)
  show "under (sg_in hs coin) (sg_right_effect coin) sg_fsm_in_price"
    by (rule under_emits_from [OF keeps_in_price in_price_right])
qed

text \<open>The bot of this repository has no \<open>trade_state\<close>.\<close>

interpretation sg_mute: sg_effects bot_methods coin no_exec
  for coin
proof
  show "under (sg_in bot_methods coin) no_exec sg_fsm_in_price"
    by (rule under_emits_from [OF keeps_in_price in_price_mute]) (simp add: bot_methods_def)
qed

end
