(* ===== verification/SingleProps.thy ===== *)
theory SingleProps
  imports SingleFacts Recursion
begin

text \<open>
  The properties of strategy.py: its invariant, the orders it may send, the depth of
  its recursion, and what its commands, inputs and messages do, errors included.
\<close>

section \<open>Every sequence of events\<close>

lemma set_symbol_keeps: "sg_inv s \<Longrightarrow> sg_inv (state_of (on_set_symbol k s)) \<and> sg_host (state_of (on_set_symbol k s)) = sg_host s"
  by (auto simp: on_set_symbol_def sg_log_def host_def run_prog sg_inv_def sg_machine_def)

lemma sg_handle_keeps: "sg_inv s \<Longrightarrow> sg_inv (state_of (sg_handle ev s)) \<and> sg_host (state_of (sg_handle ev s)) = sg_host s"
proof (cases "\<exists>k. ev = SgSetSymbol k")
  case True
  then show "sg_inv s \<Longrightarrow> ?thesis"
    using set_symbol_keeps by auto
next
  case False
  then show "sg_inv s \<Longrightarrow> ?thesis"
    using underD(1) [OF sg_any.u_handle, of ev "sg_host s" "sg_symbol s" s] by (auto simp: sg_in_def)
qed

interpretation sg_events: event_system sg_handle "SingleStrategy hs" "\<lambda>s. sg_inv s \<and> sg_host s = hs"
  for hs
proof
  show "sg_inv (SingleStrategy hs) \<and> sg_host (SingleStrategy hs) = hs"
    using sg_inv_init by (simp add: SingleStrategy_def)
  show "sg_inv (state_of (sg_handle ev s)) \<and> sg_host (state_of (sg_handle ev s)) = hs"
    if "sg_inv s \<and> sg_host s = hs" for s ev
    using that sg_handle_keeps [of s ev] by simp
qed

text \<open>C33. The state stays well-formed: after any events, on any host, the machine is in a state that has a handler,
  the lists have two entries (the prices at most two), the steps and the order waited for are among them,
  the account has the currency and USDT, and the trade state has its nested part.\<close>

theorem sg_state_ok:
  assumes "reach sg_handle (SingleStrategy hs) s"
  shows "sg_inv s \<and> (\<exists>h. map_of (fsm_handlers (sg_fsm s)) (fsm_state (sg_fsm s)) = Some (Some h))"
  using sg_events.inv_reach [OF assms] sg_state_handler [of s] by (simp add: sg_inv_def sg_machine_def)

theorem sg_state_ok_witness:
  "sg_inv (fst (run_events sg_handle [SgStart, SgUserValue ''$1'', SgSetSymbol ''ETH'', SgStop] (SingleStrategy script_calls)))"
  using sg_state_ok [OF reach_run_events [OF reach_init]] by blast

text \<open>C34. The orders of the script: on any host, whatever the event, an order sent is a limit order of the pair of the
  script's currency, good till cancelled, a purchase or a sale, named after its side.\<close>

theorem sg_orders_right:
  assumes "sg_inv s" and "ord \<in> set (orders_of (effects_of (sg_handle ev s)))"
  shows "sg_right_order (sg_symbol s) ord"
proof (cases "\<exists>k. ev = SgSetSymbol k")
  case True
  then have "orders_of (effects_of (sg_handle ev s)) = []"
    by (auto simp: on_set_symbol_def sg_log_def host_def run_prog)
  with assms(2) show ?thesis
    by simp
next
  case False
  then show ?thesis
    using underD(2) [OF sg_sends.u_handle, of ev "sg_host s" "sg_symbol s" s "ExecOrder ord"] assms
    by (simp add: sg_in_def sg_right_effect_def orders_of_set)
qed

text \<open>C35. On the bot of this repository the script never trades: its host has no \<open>trade_state\<close>, so whatever happens, no
  event ever sends an order to the exchange.\<close>

theorem sg_bot_never_trades:
  assumes "reach sg_handle (SingleStrategy bot_methods) s"
  shows "orders_of (effects_of (sg_handle ev s)) = []"
proof (cases "\<exists>k. ev = SgSetSymbol k")
  case True
  then show ?thesis
    by (auto simp: on_set_symbol_def sg_log_def host_def run_prog)
next
  case False
  have "sg_in bot_methods (sg_symbol s) s"
    using sg_events.inv_reach [OF assms] by (simp add: sg_in_def)
  with False show ?thesis
    using underD(2) [OF sg_mute.u_handle] by (auto intro: no_exec_orders)
qed

theorem sg_bot_never_trades_witness:
  "orders_of (effects_of (sg_handle SgStart (SingleStrategy bot_methods))) = []"
  by (rule sg_bot_never_trades [OF reach_init])

section \<open>Depth of the recursion\<close>

text \<open>\<open>in_st\<close>: the invariant, with the machine in one state.\<close>

definition in_st :: "string list \<Rightarrow> string \<Rightarrow> string \<Rightarrow> single \<Rightarrow> bool" where
  "in_st hs coin st s \<longleftrightarrow> sg_in hs coin s \<and> fsm_state (sg_fsm s) = st"

lemma in_stI: "keeps (sg_in hs coin) m \<Longrightarrow> keeps (\<lambda>s. fsm_state (sg_fsm s) = st) m \<Longrightarrow> keeps (in_st hs coin st) m"
  by (simp add: keeps_def in_st_def)

lemma state_stmts:
  "keeps (\<lambda>s. fsm_state (sg_fsm s) = st) (host m e)"
  "keeps (\<lambda>s. fsm_state (sg_fsm s) = st) (cts_set k v)"
  "keeps (\<lambda>s. fsm_state (sg_fsm s) = st) (cts_O_set k v)"
  "keeps (\<lambda>s. fsm_state (sg_fsm s) = st) sg_print_trade_pos"
  "keeps (\<lambda>s. fsm_state (sg_fsm s) = st) (to_all_logs j b)"
  "keeps (\<lambda>s. fsm_state (sg_fsm s) = st) (sg_to_alert_channel j)"
  "keeps (\<lambda>s. fsm_state (sg_fsm s) = st) (p_upd (\<lambda>s. s\<lparr>sg_reinput := c\<rparr>))"
  unfolding host_def cts_set_def cts_O_set_def sg_print_trade_pos_def to_all_logs_def sg_to_alert_channel_def
    send_message_def sg_to_journal_def send_curr_trade_state_def trade_state_def
  by (auto intro!: keeps_intros split: json.split)

lemma in_st_stmts:
  "k \<noteq> ''O'' \<Longrightarrow> keeps (in_st hs coin st) (cts_set k v)"
  "keeps (in_st hs coin st) (cts_O_set k v)"
  "keeps (in_st hs coin st) sg_print_trade_pos"
  "keeps (in_st hs coin st) (to_all_logs j b)"
  "keeps (in_st hs coin st) (sg_to_alert_channel j)"
  "keeps (in_st hs coin st) (p_upd (\<lambda>s. s\<lparr>sg_reinput := c\<rparr>) :: sg_act)"
  by (auto intro!: in_stI state_stmts under_keeps [OF sg_any_quiet.u_cts_set] under_keeps [OF sg_any_quiet.u_cts_O_set]
      under_keeps [OF sg_any.u_print(1)] under_keeps [OF sg_any_quiet.u_all_logs] under_keeps [OF sg_any_quiet.u_says(6)]
      under_keeps [OF sg_any_quiet.u_assigns(4)])

lemma set_state_in: "st \<in> sg_states \<Longrightarrow> sg_in hs coin s \<Longrightarrow> in_st hs coin st (state_of (sg_set_state st s))"
proof -
  assume st: "st \<in> sg_states" and s: "sg_in hs coin s"
  from s have "sg_machine s"
    by (simp add: sg_in_def sg_inv_def)
  then have "fsm_state (sg_fsm (state_of (sg_set_state st s))) = st"
    by (simp add: sg_set_state_def p_upd_def del: set_state_simps)
  with underD(1) [OF sg_any_quiet.u_set_state [OF st] s] show ?thesis
    by (simp add: in_st_def)
qed

lemma agree_goto:
  assumes "st \<in> sg_states" and "agree (in_st hs coin st) (p_block (c # cs)) (p_block (c' # cs'))"
  shows "agree (sg_in hs coin) (p_block (sg_set_state st # c # cs)) (p_block (sg_set_state st # c' # cs'))"
proof -
  have "p_block (sg_set_state st # c # cs) s = p_block (sg_set_state st # c' # cs') s" if "sg_in hs coin s" for s
    using agreeD [OF assms(2) set_state_in [OF assms(1) that]]
    by (simp add: p_bind_def split_beta sg_set_state_def p_upd_def)
  then show ?thesis
    by (simp add: agree_def)
qed

text \<open>The machine with a limit of its own: a call of \<open>run\<close> beyond it just returns.  It never raises
  \<open>RecursionError\<close>, and within the limit it is the machine.\<close>

primrec sg_bounded :: "nat \<Rightarrow> json \<Rightarrow> sg_act" where
  "sg_bounded 0 arg = p_skip"
| "sg_bounded (Suc n) arg = run sg_fsm (sg_exec (sg_bounded n)) arg"

text \<open>One call of \<open>run\<close> in a known state.\<close>

lemma run_in_st:
  assumes "in_st hs coin st s" and "map_of (fsm_handlers sg_fsm_init) st = Some (Some h)"
  shows "sg_run (Suc k) arg s = sg_exec (sg_run k) h arg s"
    and "sg_bounded (Suc k) arg s = sg_exec (sg_bounded k) h arg s"
proof -
  have s: "sg_machine s" "fsm_state (sg_fsm s) = st"
    using assms(1) by (simp_all add: in_st_def sg_in_def sg_inv_def)
  then have "st \<noteq> ST_STOP"
    using sg_states_live by (auto simp: sg_machine_def simp del: sg_states_live)
  with s assms(2) show "sg_run (Suc k) arg s = sg_exec (sg_run k) h arg s"
    and "sg_bounded (Suc k) arg s = sg_exec (sg_bounded k) h arg s"
    using sg_run_handler [OF s(1)] by (simp_all add: sg_machine_def sg_host.run_handler del: sg_run.simps)
qed

lemma agree_in_stI: "(\<And>s. in_st hs coin st s \<Longrightarrow> m s = m' s) \<Longrightarrow> agree (in_st hs coin st) m m'"
  by (simp add: agree_def)

text \<open>Handlers that do not run the machine again.\<close>

lemma depth1:
  assumes "st \<in> {ST_READY, ST_READY_TO_TRADE, ST_START_TRADE, ST_IN_PRICE}"
  shows "agree (in_st hs coin st) (sg_bounded (Suc n) arg) (sg_run (Suc m) arg)"
  using assms by (intro agree_in_stI) (auto simp: run_in_st simp del: sg_run.simps sg_bounded.simps)

lemma depth1_command:
  assumes "arg \<in> {JStr ''$1'', JStr ''$2'', JStr ''$q''}"
  shows "agree (in_st hs coin ST_WAIT_USER_COMMAND) (sg_bounded (Suc n) arg) (sg_run (Suc m) arg)"
  using assms
  by (intro agree_in_stI) (auto simp: run_in_st sg_fsm_wait_user_command_def simp del: sg_run.simps sg_bounded.simps)

text \<open>A handler of exceptions that are not raised is of no account.\<close>

lemma agree_unraised:
  assumes "\<And>s y. I s \<Longrightarrow> outcome_of (m s) = Raised y \<Longrightarrow> \<not> Q y"
  shows "agree I (p_try Q m h) (p_try Q m h')"
proof -
  have "p_try Q m h s = p_try Q m h' s" if "I s" for s
    using assms [OF that] by (cases "m s") (auto simp: p_try_def split: outcome.split)
  then show ?thesis
    by (simp add: agree_def)
qed

lemmas k_in = under_keeps [OF sg_any_quiet.u_says(1)] under_keeps [OF sg_any_quiet.u_says(4)]
  under_keeps [OF sg_any_quiet.u_says(2)] under_keeps [OF sg_any_quiet.u_all_logs]
  under_keeps [OF sg_any_quiet.u_cts_set] under_keeps [OF sg_any.u_print(1)] under_keeps [OF sg_any.u_print(2)]

lemma keeps_in_st_log: "keeps (in_st hs coin st) (sg_log f)"
  by (intro in_stI under_keeps [OF sg_any_quiet.u_says(1)])
    (auto simp: sg_log_def intro!: keeps_intros state_stmts)

lemma trigger_text_no_error:
  "outcome_of (p_block [
      p_val (float_of (JStrOf x)) (\<lambda>x. p_read sg_input_step (\<lambda>i.
        p_if (\<lambda>s. \<not> sg_running s) (set_trigger i x) (set_temp_trigger i x))),
      show_unless_reinput,
      p_upd (\<lambda>s. s\<lparr>sg_reinput := False\<rparr>),
      sg_set_state ST_WAIT_INP_PRICE,
      request_value j] s) = Raised y \<Longrightarrow> \<not> is_value_error y"
  by (auto simp: set_trigger_def set_temp_trigger_def show_unless_reinput_def sg_print_trade_pos_def send_message_def
      host_def sg_set_state_def request_value_def is_value_error_def run_prog split: if_splits)

lemma depth1_trigger:
  "agree (in_st hs coin ST_WAIT_INP_TRIGGER) (sg_bounded (Suc n) (JStrOf x)) (sg_run (Suc m) (JStrOf x))"
proof -
  have "agree (in_st hs coin ST_WAIT_INP_TRIGGER) (sg_fsm_wait_input_triggr go (JStrOf x)) (sg_fsm_wait_input_triggr go' (JStrOf x))"
    for go go'
    unfolding sg_fsm_wait_input_triggr_def
    by (intro agree_intros agree_unraised keeps_in_st_log) (rule trigger_text_no_error)
  from agreeD [OF this] show ?thesis
    by (intro agree_in_stI) (simp add: run_in_st del: sg_run.simps sg_bounded.simps)
qed

lemma kept: "under (sg_in hs coin) (\<lambda>_. True) m \<Longrightarrow> keeps (sg_in hs coin) m"
  by (rule under_keeps)

lemmas sg_keeps = under_intros sg_any_quiet.u_stmts sg_any_quiet.u_cts_set sg_any.u_print sg_any_quiet.u_host

lemma change_agree:
  assumes "\<And>arg. agree (in_st hs coin ST_READY_TO_TRADE) (go arg) (go' arg)"
  shows "agree (sg_in hs coin) (sg_fsm_change go) (sg_fsm_change go')"
  unfolding sg_fsm_change_def
  by (intro agree_intros agree_goto assms kept sg_keeps) (auto simp: sg_in_defs sg_states_def)

lemma wait_price_agree:
  assumes "\<And>arg. agree (in_st hs coin ST_IN_PRICE) (go arg) (go' arg)"
  shows "agree (sg_in hs coin) (sg_fsm_wait_price go) (sg_fsm_wait_price go')"
  unfolding sg_fsm_wait_price_def
  by (intro agree_intros agree_goto assms kept sg_keeps) (auto simp: sg_states_def)

lemma trigger_agree:
  assumes "\<And>i. i < 2 \<Longrightarrow> agree (in_st hs coin ST_WAIT_USER_COMMAND) (go (JStr (''$'' @ py_str_int (int i + 1)))) (go' (JStr (''$'' @ py_str_int (int i + 1))))"
  shows "agree (sg_in hs coin) (sg_fsm_wait_input_triggr go arg) (sg_fsm_wait_input_triggr go' arg)"
proof -
  have again: "agree (in_st hs coin ST_WAIT_USER_COMMAND)
      (p_read (\<lambda>s. JStr (''$'' @ py_str_int (int (sg_input_step s) + 1))) go)
      (p_read (\<lambda>s. JStr (''$'' @ py_str_int (int (sg_input_step s) + 1))) go')"
    using assms by (auto simp: agree_def p_read_def in_st_def sg_in_def sg_inv_def)
  show ?thesis
    unfolding sg_fsm_wait_input_triggr_def
    by (intro agree_intros agree_goto again in_st_stmts kept sg_keeps sg_any_quiet.u_set_state) (auto simp: sg_states_def)
qed

lemma price_agree:
  assumes "\<And>x. agree (in_st hs coin ST_WAIT_INP_TRIGGER) (go (JStrOf x)) (go' (JStrOf x))"
    and "agree (in_st hs coin ST_READY_TO_TRADE) (go JNull) (go' JNull)"
    and "\<And>a. under (sg_in hs coin) (\<lambda>_. True) (go' a)"
  shows "agree (sg_in hs coin) (sg_fsm_wait_input_price go arg) (sg_fsm_wait_input_price go' arg)"
proof -
  have again: "agree (in_st hs coin ST_WAIT_INP_TRIGGER)
      (p_read (\<lambda>s. JStrOf (sg_trigger s ! sg_input_step s)) go)
      (p_read (\<lambda>s. JStrOf (sg_trigger s ! sg_input_step s)) go')"
    using assms(1) by (auto simp: agree_def p_read_def)
  show ?thesis
    unfolding sg_fsm_wait_input_price_def
    by (intro agree_intros agree_goto again assms in_st_stmts kept sg_keeps sg_any_quiet.u_set_state)
      (auto simp: sg_states_def)
qed

lemma quantity_agree:
  assumes "agree (in_st hs coin ST_WAIT_USER_COMMAND) (go (JStr ''$q'')) (go' (JStr ''$q''))"
    and "\<And>a. agree (in_st hs coin ST_READY_TO_TRADE) (go a) (go' a)"
    and "\<And>a. under (sg_in hs coin) (\<lambda>_. True) (go' a)"
  shows "agree (sg_in hs coin) (sg_fsm_wait_input_quantity go arg) (sg_fsm_wait_input_quantity go' arg)"
proof -
  have ask: "under (sg_in hs coin) (\<lambda>_. True)
      (p_if (\<lambda>s. is_zero (o_price (sg_orders s ! 0)))
          (p_bind (p_read sg_symbol (\<lambda>smb. send_message (JFmt f [JStr smb]) False)) (\<lambda>_. p_ret []))
          (p_read (balance_of ''USDT'') (\<lambda>r. p_val r (\<lambda>_. p_ret [j]))))" for f j
    by (intro sg_keeps)
  show ?thesis
    unfolding sg_fsm_wait_input_quantity_def offer_all_def
    by (intro agree_intros agree_bind agree_goto assms in_st_stmts kept sg_keeps sg_any_quiet.u_set_state
        sg_any.u_set_quantities) (auto simp: sg_states_def)
qed

lemma ready_after_resume:
  assumes "sg_in hs coin s" and "outcome_of (p_block (sg_set_state ST_READY # c # cs) s) = Done ()"
    and "keeps (in_st hs coin ST_READY) (p_block (c # cs))"
  shows "in_st hs coin ST_READY (state_of (p_block (sg_set_state ST_READY # c # cs) s))"
  using keepsD [OF assms(3) set_state_in [OF _ assms(1)]]
  by (simp add: p_bind_def split_beta sg_set_state_def p_upd_def sg_states_def)

lemma resume_agree:
  assumes "\<And>arg. agree (in_st hs coin ST_READY) (go arg) (go' arg)"
  shows "agree (sg_in hs coin) (sg_fsm_resume go) (sg_fsm_resume go')"
proof -
  have last: "agree (sg_in hs coin)
      (p_block [p_read f (\<lambda>msg. p_block (sg_set_state ST_READY # c msg # cs msg)), go a])
      (p_block [p_read f (\<lambda>msg. p_block (sg_set_state ST_READY # c msg # cs msg)), go' a])"
    if k: "\<And>msg. keeps (in_st hs coin ST_READY) (p_block (c msg # cs msg))" for f c cs a
  proof (rule agree_post)
    show "in_st hs coin ST_READY (state_of (p_read f (\<lambda>msg. p_block (sg_set_state ST_READY # c msg # cs msg)) s))"
      if "sg_in hs coin s" "outcome_of (p_read f (\<lambda>msg. p_block (sg_set_state ST_READY # c msg # cs msg)) s) = Done ()" for s
      using ready_after_resume [OF that(1) _ k] that(2) by (simp add: p_read_def)
  qed (rule assms)
  show ?thesis
    unfolding sg_fsm_resume_def
    by (intro agree_intros last keeps_intros in_st_stmts kept sg_keeps sg_any.u_reset_all) simp_all
qed

lemma deletion_agree:
  assumes "\<And>arg. agree (in_st hs coin ST_RESUME) (go arg) (go' arg)"
  shows "agree (sg_in hs coin) (sg_fsm_wait_order_del go) (sg_fsm_wait_order_del go')"
  unfolding sg_fsm_wait_order_del_def
  by (intro agree_intros agree_goto assms kept sg_keeps) (auto simp: sg_states_def)

lemma command_agree:
  assumes "\<And>arg st. st \<in> {ST_RESUME, ST_START_TRADE, ST_READY_TO_TRADE} \<Longrightarrow> agree (in_st hs coin st) (go arg) (go' arg)"
  shows "agree (sg_in hs coin) (sg_fsm_wait_user_command go cmd) (sg_fsm_wait_user_command go' cmd)"
proof -
  note goes = assms [of ST_RESUME, simplified] assms [of ST_START_TRADE, simplified] assms [of ST_READY_TO_TRADE, simplified]
  have choose: "under (sg_in hs coin) (\<lambda>_. True) (choose_run_step ''$s'' c)" if "c = ''$s1'' \<or> c = ''$s2''" for c
    using that sg_any.u_choose [OF run_step_of(1)] sg_any.u_choose [OF run_step_of(2)] by auto
  have choose': "under (sg_in hs coin) (\<lambda>_. True) (choose_run_step ''$a'' c)" if "c = ''$a1'' \<or> c = ''$a2''" for c
    using that sg_any.u_choose [OF run_step_of(3)] sg_any.u_choose [OF run_step_of(4)] by auto
  have starts: "agree (sg_in hs coin) (begin_trade m j go) (begin_trade m j go')" for m j
    unfolding begin_trade_def by (intro agree_intros agree_goto goes kept sg_keeps) (auto simp: sg_states_def)
  have take: "under (sg_in hs coin) (\<lambda>_. True) (p_upd take_temp)"
    by (intro under_intros) (auto simp: take_temp_def sg_in_defs)
  have cancel: "agree (sg_in hs coin) (command_cancel go) (command_cancel go')"
    unfolding command_cancel_def by (intro agree_intros agree_goto goes kept sg_keeps) (auto simp: sg_states_def)
  have start: "agree (sg_in hs coin) (command_start c go) (command_start c go')" if "c = ''$s1'' \<or> c = ''$s2''" for c
    unfolding command_start_def by (intro agree_intros starts kept choose that)
  have continue: "agree (sg_in hs coin) (command_continue c go) (command_continue c go')" if "c = ''$a1'' \<or> c = ''$a2''" for c
    unfolding command_continue_def by (intro agree_intros starts kept choose' take that)
  have all: "agree (sg_in hs coin) (command_all b go) (command_all b go')" for b
    unfolding command_all_def
    by (intro agree_intros agree_goto goes kept sg_keeps sg_any.u_set_quantities) (auto simp: sg_states_def)
  show ?thesis
    unfolding sg_fsm_wait_user_command_def
    by (intro agree_intros cancel start continue all kept sg_keeps; assumption)
qed

text \<open>Two calls, and three, are enough.\<close>

lemma agree_run:
  assumes "agree (sg_in hs coin) (sg_exec (sg_bounded n) h arg) (sg_exec (sg_run m) h arg)"
    and "map_of (fsm_handlers sg_fsm_init) st = Some (Some h)"
  shows "agree (in_st hs coin st) (sg_bounded (Suc n) arg) (sg_run (Suc m) arg)"
proof (rule agree_in_stI)
  fix s
  assume s: "in_st hs coin st s"
  then have "sg_in hs coin s"
    by (simp add: in_st_def)
  from agreeD [OF assms(1) this] show "sg_bounded (Suc n) arg s = sg_run (Suc m) arg s"
    using run_in_st [OF s assms(2)] by (simp del: sg_run.simps sg_bounded.simps)
qed

lemma step_text: "i < 2 \<Longrightarrow> JStr (''$'' @ py_str_int (int i + 1)) \<in> {JStr ''$1'', JStr ''$2'', JStr ''$q''}"
proof -
  have "py_str_int 1 = ''1''" "py_str_int 2 = ''2''"
    by code_simp+
  then show "i < 2 \<Longrightarrow> ?thesis"
    by (auto simp: less_2_cases_iff)
qed

lemma depth2:
  assumes "st = ST_RESUME"
  shows "agree (in_st hs coin st) (sg_bounded (Suc (Suc n)) arg) (sg_run (Suc (Suc m)) arg)"
  unfolding assms by (intro agree_run [of _ _ _ G_resume]) (auto intro: resume_agree depth1 simp del: sg_run.simps sg_bounded.simps)

lemma depth3:
  "agree (sg_in hs coin) (sg_exec (sg_bounded (Suc (Suc n))) h arg) (sg_exec (sg_run (Suc (Suc m))) h arg)"
proof (cases h)
  case G_wait_user_command
  have "agree (in_st hs coin st) (sg_bounded (Suc (Suc n)) a) (sg_run (Suc (Suc m)) a)"
    if "st \<in> {ST_RESUME, ST_START_TRADE, ST_READY_TO_TRADE}" for st a
    using that depth1 [of st] depth2 [of st] by (auto simp del: sg_run.simps sg_bounded.simps)
  then show ?thesis
    unfolding G_wait_user_command sg_exec.simps by (rule command_agree)
next
  case G_wait_input_triggr
  show ?thesis
    unfolding G_wait_input_triggr sg_exec.simps by (intro trigger_agree depth1_command step_text)
qed (auto intro: agree_refl change_agree wait_price_agree price_agree quantity_agree deletion_agree
    resume_agree depth1 depth1_command depth1_trigger depth2 sg_any.u_run simp del: sg_run.simps sg_bounded.simps)

section \<open>No call runs out of stack\<close>

named_theorems sg_stmts \<open>the statements the handlers are made of\<close>

declare sg_set_state_def [sg_stmts] host_def [sg_stmts] sg_log_def [sg_stmts] send_message_def [sg_stmts]
  sg_to_journal_def [sg_stmts] request_value_def [sg_stmts] request_command_def [sg_stmts]
  sg_to_alert_channel_def [sg_stmts] trade_state_def [sg_stmts] send_curr_trade_state_def [sg_stmts]
  sg_stop_timer_def [sg_stmts] to_all_logs_def [sg_stmts] cts_set_def [sg_stmts] cts_O_set_def [sg_stmts]
  sg_upd_run_order_def [sg_stmts] upd_sg_order_def [sg_stmts] upd_temp_order_def [sg_stmts] set_trigger_def [sg_stmts]
  set_temp_trigger_def [sg_stmts] sg_reset_order_report_def [sg_stmts] show_unless_reinput_def [sg_stmts]
  sg_print_trade_pos_def [sg_stmts]

lemma command_errors [simp]:
  "command j \<noteq> Inl RecursionError" "balance_of k s \<noteq> Inl RecursionError" "sg_report_item k s \<noteq> Inl RecursionError"
  by (cases j; simp) (simp_all add: balance_of_def sg_report_item_def)

lemma computed_errors [simp]:
  "offer_steps p x y ks s \<noteq> Inl RecursionError" "sg_is_trigger_in_price k x s \<noteq> Inl RecursionError"
  "sg_report_is t s \<noteq> Inl RecursionError"
  by (auto simp: offer_steps_def sg_is_trigger_in_price_def sg_report_is_def Let_def bind_sum_error split: if_splits)

lemma never_host [never_intros]: "x \<noteq> AttributeError \<Longrightarrow> never_raises x (host m e)"
  unfolding host_def by (intro never_intros) simp

lemma never_cases:
  "(\<And>d. never_raises x (c d)) \<Longrightarrow> never_raises x e \<Longrightarrow> never_raises x (case j of JObj d \<Rightarrow> c d | _ \<Rightarrow> e)"
  "never_raises x e \<Longrightarrow> (\<And>i. never_raises x (k i)) \<Longrightarrow> never_raises x (case w of NewOrder \<Rightarrow> e | SlotOrder i \<Rightarrow> k i)"
  by (simp split: json.split, simp split: order_ref.split)

text \<open>The statements, and the handlers made of them.\<close>

lemma never_stmts:
  "never_raises RecursionError (sg_set_state st)" "never_raises RecursionError (sg_log f)"
  "never_raises RecursionError (send_message j b)" "never_raises RecursionError (sg_to_journal j)"
  "never_raises RecursionError (request_value j)" "never_raises RecursionError (request_command j ks)"
  "never_raises RecursionError (sg_to_alert_channel j)" "never_raises RecursionError send_curr_trade_state"
  "never_raises RecursionError (sg_stop_timer t)" "never_raises RecursionError (to_all_logs j b)"
  "never_raises RecursionError (cts_set t j)" "never_raises RecursionError (cts_O_set t j)"
  "never_raises RecursionError (sg_upd_run_order g)" "never_raises RecursionError (upd_sg_order i q)"
  "never_raises RecursionError (upd_temp_order i q)" "never_raises RecursionError (set_trigger i v)"
  "never_raises RecursionError (set_temp_trigger i v)" "never_raises RecursionError sg_reset_order_report"
  "never_raises RecursionError show_unless_reinput" "never_raises RecursionError sg_print_trade_pos"
  "never_raises RecursionError clear_waited" "never_raises RecursionError (set_quantities v)"
  unfolding sg_stmts clear_waited_def set_quantities_def by (intro never_intros never_cases; simp)+

lemmas sg_handler_defs = sg_fsm_start_def reset_trade_pos_def sg_fsm_change_def sg_fsm_ready_def
  sg_fsm_wait_user_command_def command_pos_def command_quantity_def command_back_def command_exec_def command_apply_def
  command_cancel_def delete_sg_waited_def command_start_def command_continue_def choose_run_step_def begin_trade_def
  command_all_def sg_fsm_wait_input_triggr_def sg_fsm_wait_input_price_def sg_fsm_wait_input_quantity_def offer_all_def
  sg_fsm_wait_ready_to_trade_def sg_fsm_start_trade_def sg_fsm_wait_price_def sg_fsm_in_price_def sg_name_order_def
  sg_fsm_wait_order_compl_def sg_order_rejected_def sg_order_confirmed_def sg_fsm_wait_order_fill_def sg_next_step_def
  sg_fsm_wait_order_del_def sg_fsm_resume_def reset_all_def Let_def

lemma sg_exec_no_recursion:
  assumes "\<And>a. never_raises RecursionError (go a)"
  shows "never_raises RecursionError (sg_exec go h arg)"
  by (cases h; simp only: sg_exec.simps sg_handler_defs; intro never_intros never_cases never_stmts assms;
      simp add: bind_sum_error split: option.split)

lemma bounded_no_recursion: "never_raises RecursionError (sg_bounded n arg)"
  by (induction n arbitrary: arg) (auto intro!: never_intros sg_exec_no_recursion)

text \<open>C37. The machine of the script never exhausts the stack: three nested calls of \<open>run\<close> behave as any greater number,
  whatever the state and the argument, and no run of the machine ends with \<open>RecursionError\<close>.\<close>

theorem sg_run_depth:
  assumes "sg_inv s"
  shows "sg_run (n + 3) arg s = sg_run 3 arg s \<and> outcome_of (sg_run (n + 3) arg s) \<noteq> Raised RecursionError"
proof -
  obtain h where h: "map_of (fsm_handlers sg_fsm_init) (fsm_state (sg_fsm s)) = Some (Some h)"
    using sg_state_handler assms by (auto simp: sg_inv_def)
  have s: "in_st (sg_host s) (sg_symbol s) (fsm_state (sg_fsm s)) s"
    using assms by (simp add: in_st_def sg_in_def)
  have "sg_run (k + 3) arg s = sg_bounded 3 arg s" for k
    using agreeD [OF agree_run [OF depth3 h] s, of 0 arg k] by (simp only: numeral_3_eq_3 add_Suc_right add_0_right)
  from this [of n] this [of 0, unfolded add_0] never_raisesD [OF bounded_no_recursion, of 3 arg s] show ?thesis
    by (simp only: not_False_eq_True simp_thms)
qed

theorem sg_run_depth_witness:
  "sg_run (397 + 3) (JStr ''$c'') (SingleStrategy script_calls) = sg_run 3 (JStr ''$c'') (SingleStrategy script_calls) \<and>
   outcome_of (sg_run (397 + 3) (JStr ''$c'') (SingleStrategy script_calls)) \<noteq> Raised RecursionError"
  by (rule sg_run_depth [OF sg_inv_init])

section \<open>The host for debugging\<close>

text \<open>The host the script defines for itself lacks \<open>to_alert_channel\<close>, the first method \<open>fsm_start_trade\<close>
  calls: the machine stays among the states of input, and no order is ever waited for.\<close>

definition sg_idle :: "single \<Rightarrow> bool" where
  "sg_idle s \<longleftrightarrow>
     sg_machine s \<and> sg_host s = stub_methods \<and> sg_wait_order_fill s = NewOrder \<and>
     fsm_state (sg_fsm s) \<notin> {ST_WAIT_PRICE, ST_IN_PRICE, ST_WAIT_ORDER_CMPL, ST_WAIT_ORDER_FILL, ST_WAIT_ORDER_DEL}"

lemmas sg_idle_defs = sg_idle_def sg_machine_def

lemma idle_init: "sg_idle (SingleStrategy stub_methods)"
  by (simp add: sg_idle_def sg_machine_def sg_states_def SingleStrategy_def)

lemma idle_host: "no_trade e \<Longrightarrow> under sg_idle no_trade (host m e)"
  unfolding host_def by (intro under_intros)

lemma idle_set_state:
  "st \<in> sg_states - {ST_WAIT_PRICE, ST_IN_PRICE, ST_WAIT_ORDER_CMPL, ST_WAIT_ORDER_FILL, ST_WAIT_ORDER_DEL} \<Longrightarrow>
   under sg_idle no_trade (sg_set_state st)"
  unfolding sg_set_state_def by (intro under_intros) (auto simp: sg_idle_defs)

lemma idle_no_waited: "under sg_idle P d \<Longrightarrow> under sg_idle P (p_if sg_wait_act c d)"
  by (simp add: under_def p_if_def sg_idle_def sg_wait_act_def sg_waited_def sg_Order_def Order_def)

lemma idle_cases:
  "(\<And>d. under I P (c d)) \<Longrightarrow> under I P e \<Longrightarrow> under I P (case j of JObj d \<Rightarrow> c d | _ \<Rightarrow> e)"
  by (simp split: json.split)

lemma idle_stmts:
  "under sg_idle no_trade (sg_log f)" "under sg_idle no_trade (send_message j b)"
  "under sg_idle no_trade (sg_to_journal j)" "under sg_idle no_trade (request_value j)"
  "under sg_idle no_trade (request_command j ks)" "under sg_idle no_trade (sg_to_alert_channel j)"
  "under sg_idle no_trade (trade_state j)" "under sg_idle no_trade send_curr_trade_state"
  "under sg_idle no_trade (sg_stop_timer t)" "under sg_idle no_trade (to_all_logs j b)"
  "under sg_idle no_trade (cts_set t j)" "under sg_idle no_trade (cts_O_set t j)"
  "under sg_idle no_trade (upd_sg_order i q)" "under sg_idle no_trade (upd_temp_order i q)"
  "under sg_idle no_trade (set_trigger i v)" "under sg_idle no_trade (set_temp_trigger i v)"
  "under sg_idle no_trade sg_reset_order_report" "under sg_idle no_trade show_unless_reinput"
  "under sg_idle no_trade sg_print_trade_pos" "under sg_idle no_trade (set_quantities v)"
  unfolding sg_log_def send_message_def sg_to_journal_def request_value_def request_command_def sg_to_alert_channel_def
    trade_state_def send_curr_trade_state_def sg_stop_timer_def to_all_logs_def cts_set_def cts_O_set_def upd_sg_order_def
    upd_temp_order_def set_trigger_def set_temp_trigger_def sg_reset_order_report_def show_unless_reinput_def
    sg_print_trade_pos_def set_quantities_def
  by (intro under_intros idle_cases idle_host; simp add: sg_idle_defs)+

lemma idle_start_trade: "under sg_idle no_trade sg_fsm_start_trade"
  by (simp add: under_def sg_fsm_start_trade_def sg_to_alert_channel_def host_def run_prog sg_idle_def stub_methods_def)

lemma idle_exec:
  assumes "\<And>a. under sg_idle no_trade (go a)"
    and "h \<notin> {G_wait_price, G_in_price, G_wait_order_compl, G_wait_order_fill, G_wait_order_del}"
  shows "under sg_idle no_trade (sg_exec go h arg)"
  using assms(2)
  by (cases h; simp only: sg_exec.simps insert_iff simp_thms idle_start_trade;
      (unfold sg_fsm_start_def reset_trade_pos_def sg_fsm_change_def sg_fsm_ready_def
        sg_fsm_wait_user_command_def command_pos_def command_quantity_def command_back_def command_exec_def
        command_apply_def command_cancel_def command_start_def command_continue_def choose_run_step_def
        begin_trade_def command_all_def sg_fsm_wait_input_triggr_def sg_fsm_wait_input_price_def
        sg_fsm_wait_input_quantity_def offer_all_def sg_fsm_wait_ready_to_trade_def sg_fsm_resume_def reset_all_def);
      intro idle_no_waited under_intros idle_stmts idle_set_state assms(1);
      auto simp: sg_idle_defs sg_states_def take_temp_def)

lemma idle_handler:
  assumes "sg_idle s" and "map_of (fsm_handlers sg_fsm_init) (fsm_state (sg_fsm s)) = Some (Some h)"
  shows "h \<notin> {G_wait_price, G_in_price, G_wait_order_compl, G_wait_order_fill, G_wait_order_del}"
proof -
  have "fsm_state (sg_fsm s) \<in> sg_states"
    "fsm_state (sg_fsm s) \<notin> {ST_WAIT_PRICE, ST_IN_PRICE, ST_WAIT_ORDER_CMPL, ST_WAIT_ORDER_FILL, ST_WAIT_ORDER_DEL}"
    using assms(1) by (simp_all add: sg_idle_def sg_machine_def)
  with assms(2) show ?thesis
    unfolding sg_states_def by (elim insertE) auto
qed

lemma idle_run: "under sg_idle no_trade (sg_run n arg)"
proof (induction n arbitrary: arg)
  case 0
  show ?case
    by (simp add: under_def)
next
  case (Suc n)
  show ?case
  proof (rule underI)
    fix s
    assume s: "sg_idle s"
    then have m: "sg_machine s"
      by (simp add: sg_idle_def)
    from sg_state_handler [OF m] obtain h
      where h: "map_of (fsm_handlers sg_fsm_init) (fsm_state (sg_fsm s)) = Some (Some h)"
      by blast
    note exec = idle_exec [of "sg_run n", OF Suc.IH idle_handler [OF s h], of arg]
    show "sg_idle (state_of (sg_run (Suc n) arg s))"
      using underD(1) [OF exec s] sg_run_handler [OF m h] by metis
    show "no_trade e" if "e \<in> set (effects_of (sg_run (Suc n) arg s))" for e
      using underD(2) [OF exec s] that sg_run_handler [OF m h] by metis
  qed
qed

lemma idle_handle: "under sg_idle no_trade (sg_handle ev)"
proof -
  have run: "under sg_idle no_trade (sg_fsm_run arg)" for arg
    unfolding sg_fsm_run_def by (rule idle_run)
  have data: "under sg_idle no_trade (sg_on_trade_data d)" for d
    unfolding sg_on_trade_data_def sg_refuse_data_def sg_take_trade_data_def
    by (cases "json_loads d"; simp only: sum.case; intro under_intros idle_stmts)
  show ?thesis
    by (cases ev; simp only: sg_handle.simps data;
        (unfold sg_eval_def sg_on_trade_run_def Let_def begin_trade_def sg_on_symbols_list_def sg_on_get_trade_state_def
          on_price_timer_def on_alert_def on_indicators_def on_start_def on_change_def on_stop_def on_set_symbol_def
          sg_on_account_def sg_on_balance_def sg_entry_def upd_balance_def sg_on_wss_data_def sg_on_order_report_def
          sg_on_price_def on_user_value_def sg_on_order_complete_timeout_def on_order_fill_timeout_def)?;
        intro idle_no_waited under_intros idle_stmts idle_set_state idle_host run;
        auto simp: sg_idle_defs sg_states_def)
qed

text \<open>C36. Under the host the script defines for debugging it never trades either: that host has no
  \<open>to_alert_channel\<close>, which the start of trading calls first, so whatever happens the machine never waits for
  a price, and no event sends an order or asks for a deletion.\<close>

theorem sg_debug_never_trades:
  assumes "reach sg_handle (SingleStrategy stub_methods) s"
  shows "fsm_state (sg_fsm s) \<notin> {ST_WAIT_PRICE, ST_IN_PRICE, ST_WAIT_ORDER_CMPL, ST_WAIT_ORDER_FILL, ST_WAIT_ORDER_DEL} \<and>
    orders_of (effects_of (sg_handle ev s)) = [] \<and> deleted_of (effects_of (sg_handle ev s)) = []"
proof -
  have "sg_idle s"
    using assms by (induction rule: reach.induct) (auto intro: idle_init underD(1) [OF idle_handle])
  then show ?thesis
    using underD(2) [OF idle_handle [of ev]] no_trade_effects [of "effects_of (sg_handle ev s)"] by (simp add: sg_idle_def)
qed

theorem sg_debug_never_trades_witness:
  "orders_of (effects_of (sg_handle SgIndicators
     (fst (run_events sg_handle
        [SgStart, SgTradeRun ''{\"a\":\"start\",\"p\":\"BUY\"}'', SgUserValue ''$c'']
        (SingleStrategy stub_methods))))) = []"
  using sg_debug_never_trades [OF reach_run_events [OF reach_init]] by blast

end
