(* ===== verification/SingleBehaviour.thy ===== *)
theory SingleBehaviour
  imports SingleProps MStrategyProps
begin

text \<open>
  What the commands, inputs and messages of strategy.py do, on any host that has the methods which both
  hosts of the repository have: the bot, which has no \<open>trade_state\<close>, and the host the script defines for
  debugging, which has no \<open>to_alert_channel\<close>.  Where the two differ, the statements say what happens with
  and without \<open>trade_state\<close>.  On neither does the script ever send an order (SingleProps), so what is said of
  its order is of a host that has every method it calls.  The order placed, the inputs and their errors, the
  data of the web client, and a rejected order.
\<close>

text \<open>The methods the script calls and both hosts have.\<close>

definition common_calls :: "string list" where
  "common_calls =
     [''exec_order'', ''delete_order'', ''send_message'', ''to_log'', ''request_value'', ''request_command'',
      ''get_price'', ''to_journal'', ''create_timer'', ''stop_timer'']"

definition common_host :: "single \<Rightarrow> bool" where
  "common_host s \<longleftrightarrow> set common_calls \<subseteq> set (sg_host s)"

definition answers_web :: "single \<Rightarrow> bool" where
  "answers_web s \<longleftrightarrow> ''trade_state'' \<in> set (sg_host s)"

lemma common_host_calls:
  assumes "common_host s"
  shows "''exec_order'' \<in> set (sg_host s)" "''delete_order'' \<in> set (sg_host s)" "''send_message'' \<in> set (sg_host s)"
    "''to_log'' \<in> set (sg_host s)" "''request_value'' \<in> set (sg_host s)" "''request_command'' \<in> set (sg_host s)"
    "''get_price'' \<in> set (sg_host s)" "''to_journal'' \<in> set (sg_host s)"
    "''create_timer'' \<in> set (sg_host s)" "''stop_timer'' \<in> set (sg_host s)"
  using assms by (simp_all add: common_host_def common_calls_def)

lemma repository_hosts:
  "sg_host s = bot_methods \<Longrightarrow> common_host s \<and> \<not> answers_web s"
  "sg_host s = stub_methods \<Longrightarrow> common_host s \<and> answers_web s"
  by (simp_all add: common_host_def common_calls_def answers_web_def bot_methods_def stub_methods_def)

lemma complete_host: "sg_host s = script_calls \<Longrightarrow> common_host s \<and> answers_web s"
  by (simp add: common_host_def common_calls_def answers_web_def script_calls_def)

lemma fsm_run_in:
  assumes "sg_inv s" and "map_of (fsm_handlers sg_fsm_init) (fsm_state (sg_fsm s)) = Some (Some h)"
  shows "sg_fsm_run arg s = sg_exec (sg_run 399) h arg s"
proof -
  have "run_depth = Suc 399"
    by (simp add: run_depth_def)
  then show ?thesis
    using sg_run_handler [of s h 399 arg] assms by (simp add: sg_fsm_run_def sg_inv_def del: sg_run.simps)
qed

text \<open>A running script with two prices and both triggers, in a state of its machine.\<close>

definition running_in :: "string list \<Rightarrow> string \<Rightarrow> single" where
  "running_in hs st = (SingleStrategy hs)
     \<lparr>sg_fsm := set_state st sg_fsm_init, sg_running := True, sg_is_wait_price := True,
      sg_price := [Fin False 99, Fin False 98], sg_trigger := [Fin False 100, Fin False 110]\<rparr>"

lemma running_in:
  "st \<in> sg_states \<Longrightarrow> sg_inv (running_in hs st)" "fsm_state (sg_fsm (running_in hs st)) = st"
  using sg_inv_init [of hs]
  by (auto simp: running_in_def sg_inv_def sg_machine_def SingleStrategy_def)

lemma running_in_simps [simp]:
  "sg_host (running_in hs st) = hs" "sg_symbol (running_in hs st) = ''BTC''" "sg_running (running_in hs st)"
  "sg_is_wait_price (running_in hs st)"
  "sg_price (running_in hs st) = [Fin False 99, Fin False 98]" "sg_trigger (running_in hs st) = [Fin False 100, Fin False 110]"
  "sg_run_step (running_in hs st) = 0" "sg_input_step (running_in hs st) = 0" "sg_orders (running_in hs st) = [sg_Order, sg_Order]"
  "\<not> sg_change_mode (running_in hs st)" "sg_temp_trigger (running_in hs st) = [f0, f0]"
  by (simp_all add: running_in_def SingleStrategy_def)

lemma running_on:
  "common_host (running_in bot_methods st)" "\<not> answers_web (running_in bot_methods st)"
  "common_host (running_in stub_methods st)" "answers_web (running_in stub_methods st)"
  "common_host (running_in script_calls st)" "answers_web (running_in script_calls st)"
  using repository_hosts [of "running_in bot_methods st"] repository_hosts [of "running_in stub_methods st"]
    complete_host [of "running_in script_calls st"] by simp_all

section \<open>The order of a step\<close>

definition sg_placed :: "single \<Rightarrow> order" where
  "sg_placed s =
     (run_order s)\<lparr>o_symbol := sg_symbol s @ ''USDT'', o_stopPrice := f0, o_type := LIMIT, o_timeInForce := GTC,
       o_newClientOrderId := sg_order_id (sg_run_step s) (sg_symbol s) (sg_counter s),
       o_side := (if sg_run_step s = 0 then BUY else SELL)\<rparr>"

lemma in_price_run:
  assumes "sg_inv s" and "common_host s" and "answers_web s" and "fsm_state (sg_fsm s) = ST_IN_PRICE"
  shows "orders_of (effects_of (sg_fsm_in_price s)) = [sg_placed s]"
    and "outcome_of (sg_fsm_in_price s) = Done ()"
    and "fsm_state (sg_fsm (state_of (sg_fsm_in_price s))) = ST_WAIT_ORDER_CMPL"
    and "run_order (state_of (sg_fsm_in_price s)) = sg_placed s"
proof -
  obtain d where d: "map_of (sg_trade_state s) ''O'' = Some (JObj d)" and st: "sg_run_step s = 0 \<or> sg_run_step s = 1"
    and len: "length (sg_orders s) = 2" and m: "fsm_endStates (sg_fsm s) = [ST_STOP]"
    using assms(1) by (auto simp: sg_inv_def sg_machine_def less_2_cases_iff)
  note facts = common_host_calls [OF assms(2)] assms(3) [unfolded answers_web_def] assms(4) d len m dict_get_def dict_get_set
  have "case sg_fsm_in_price s of (t, es, r) \<Rightarrow>
      orders_of es = [sg_placed s] \<and> r = Done () \<and> fsm_state (sg_fsm t) = ST_WAIT_ORDER_CMPL \<and> run_order t = sg_placed s"
    using st
    by (elim disjE)
      (simp_all add: sg_fsm_in_price_def sg_name_order_def sg_stmts run_prog facts run_order_def sg_placed_def)
  then show "orders_of (effects_of (sg_fsm_in_price s)) = [sg_placed s]"
    and "outcome_of (sg_fsm_in_price s) = Done ()"
    and "fsm_state (sg_fsm (state_of (sg_fsm_in_price s))) = ST_WAIT_ORDER_CMPL"
    and "run_order (state_of (sg_fsm_in_price s)) = sg_placed s"
    by (simp_all add: split_beta)
qed


theorem sg_orders_right_witness:
  "sg_right_order ''BTC'' (sg_placed (running_in script_calls ST_IN_PRICE))"
proof -
  let ?s = "running_in script_calls ST_IN_PRICE"
  have s: "sg_inv ?s"
    by (rule running_in) (simp add: sg_states_def)
  have "sg_fsm_run (JStr []) ?s = sg_fsm_in_price ?s"
    using fsm_run_in [OF s, of G_in_price "JStr []"] running_in(2) by simp
  then have "orders_of (effects_of (sg_handle (SgUserValue []) ?s)) = [sg_placed ?s]"
    using in_price_run(1) [OF s running_on(5,6) running_in(2)] common_host_calls [OF running_on(5)]
    by (simp add: on_user_value_def sg_stmts run_prog split_beta)
  then show ?thesis
    using sg_orders_right [OF s, of "sg_placed ?s" "SgUserValue []"] by simp
qed





section \<open>Input\<close>

text \<open>A wrong price typed in: the script asks for it again and is back in the state of price input; the data traded
  with stay, but while trading runs the trigger just typed is replaced by the old one.\<close>

theorem sg_wrong_price:
  assumes "sg_inv s" and "common_host s" and "fsm_state (sg_fsm s) = ST_WAIT_INP_PRICE" and "parse_float v = None"
  shows "let r = on_user_value (JStr v) s; t = state_of r; i = sg_input_step s in
    outcome_of r = Done () \<and> fsm_state (sg_fsm t) = ST_WAIT_INP_PRICE \<and>
    sg_orders t = sg_orders s \<and> sg_temp_orders t = sg_temp_orders s \<and> sg_trigger t = sg_trigger s \<and>
    sg_temp_trigger t = (if sg_running s then (sg_temp_trigger s)[i := sg_trigger s ! i] else sg_temp_trigger s)"
proof -
  note facts = common_host_calls [OF assms(2)] assms(3,4)
  have m: "fsm_endStates (sg_fsm s) = [ST_STOP]" and hs: "fsm_handlers (sg_fsm s) = fsm_handlers sg_fsm_init"
    using assms(1) by (auto simp: sg_inv_def sg_machine_def)
  have len: "sg_input_step s < length (sg_trigger s)"
    using assms(1) by (simp add: sg_inv_def)
  define u where "u = s\<lparr>sg_fsm := set_state ST_WAIT_INP_TRIGGER (sg_fsm s), sg_reinput := True\<rparr>"
  have u: "sg_inv u" "fsm_state (sg_fsm u) = ST_WAIT_INP_TRIGGER" "sg_trigger u = sg_trigger s"
    "sg_input_step u = sg_input_step s"
    using assms(1,3) by (auto simp: u_def sg_inv_def sg_machine_def sg_states_def)
  have go: "sg_run 399 a u = sg_fsm_wait_input_triggr (sg_run 398) a u" for a
    using sg_run_handler [of u G_wait_input_triggr 398 a] u by (simp add: sg_inv_def eval_nat_numeral del: sg_run.simps)
  have run: "sg_fsm_run (JStr v) s = sg_fsm_wait_input_price (sg_run 399) (JStr v) s"
    using fsm_run_in [of s G_wait_input_price "JStr v"] assms by simp
  show ?thesis
    using len
    by (simp add: on_user_value_def sg_stmts run_prog facts run sg_fsm_wait_input_price_def is_value_error_def
        u_def [symmetric] u(3,4) go del: sg_run.simps)
      (simp add: sg_fsm_wait_input_triggr_def sg_stmts run_prog facts u_def m)
qed

theorem sg_wrong_price_witness:
  "fsm_state (sg_fsm (state_of (on_user_value (JStr ''ten'') (running_in bot_methods ST_WAIT_INP_PRICE)))) = ST_WAIT_INP_PRICE \<and>
   sg_temp_trigger (state_of (on_user_value (JStr ''ten'') (running_in bot_methods ST_WAIT_INP_PRICE))) = [Fin False 100, f0]"
proof -
  have "sg_inv (running_in bot_methods ST_WAIT_INP_PRICE)"
    by (rule running_in) (simp add: sg_states_def)
  moreover have "parse_float ''ten'' = None"
    by code_simp
  ultimately show ?thesis
    using sg_wrong_price [OF _ running_on(1) running_in(2), of "''ten''"] by (simp add: Let_def)
qed

text \<open>Starting without a price: the command \<open>$e\<close> (which the menu of \<open>$r\<close> offers in any case) divides the USDT by
  the price of the purchase; when that is zero the call raises, nothing is offered and nothing changes.\<close>

theorem sg_start_without_price:
  assumes "sg_inv s" and "common_host s" and "fsm_state (sg_fsm s) = ST_WAIT_USER_COMMAND"
    and "is_zero (o_price (sg_orders s ! 0))"
  shows "let r = on_user_value (JStr ''$e'') s in
    outcome_of r = Raised ZeroDivisionError \<and> state_of r = s \<and> (\<forall>m ks. RequestCommand m ks \<notin> set (effects_of r))"
proof -
  note facts = common_host_calls [OF assms(2)] assms(3)
  have run: "sg_fsm_run (JStr ''$e'') s = sg_fsm_wait_user_command (sg_run 399) (JStr ''$e'') s"
    using fsm_run_in [of s G_wait_user_command "JStr ''$e''"] assms by simp
  have cmd: "command (JStr ''$e'') = Inr ''$e''"
    by code_simp
  obtain b u where b: "balance_of (sg_symbol s) s = Inr b" "balance_of ''USDT'' s = Inr u"
    using assms(1) by (auto simp: sg_inv_def dict_has_def balance_of_def dict_get_def)
  have "fdiv x (o_price (sg_orders s ! 0)) = Inl ZeroDivisionError" for x
    using assms(4) by (simp add: fdiv_error)
  then show ?thesis
    by (simp add: on_user_value_def sg_stmts run_prog facts run sg_fsm_wait_user_command_def cmd command_exec_def
        offer_steps_def b del: command.simps)
qed

theorem sg_start_without_price_witness:
  "outcome_of (on_user_value (JStr ''$e'') (running_in bot_methods ST_WAIT_USER_COMMAND)) = Raised ZeroDivisionError"
proof -
  have "sg_inv (running_in bot_methods ST_WAIT_USER_COMMAND)"
    by (rule running_in) (simp add: sg_states_def)
  from sg_start_without_price [OF this running_on(1) running_in(2)] show ?thesis
    by (simp add: sg_Order_def Order_def Let_def)
qed

section \<open>Messages\<close>

text \<open>C39. Data set by the web client: triggers, prices and the quantity of the purchase are stored, the quantity of the
  sale stays what it was.  A host with \<open>trade_state\<close> (the debug host) then gets the trade state and the
  answer with the code of success; on the bot of the repository, which has none, the call raises
  \<open>AttributeError\<close> with the data stored, and the web client gets nothing.\<close>

theorem sg_web_data:
  assumes "sg_inv s" and "common_host s" and "json_loads d = Inr j" and "getitem j ''a'' = Inr (JStr ''set'')"
    and "getitem j ''s'' = Inr (JStr (sg_symbol s))"
    and "float_at2 j ''B'' ''t'' = Inr bt" and "float_at2 j ''B'' ''p'' = Inr bp"
    and "float_at2 j ''S'' ''t'' = Inr st" and "float_at2 j ''S'' ''p'' = Inr sp" and "float_at j ''q'' = Inr q"
  shows "let r = sg_on_trade_data d s; t = state_of r in
    sg_trigger t = [bt, st] \<and> map o_price (sg_orders t) = [bp, sp] \<and>
    map o_quantity (sg_orders t) = [q, o_quantity (sg_orders s ! 1)] \<and>
    outcome_of r = (if answers_web s then Done () else Raised AttributeError) \<and>
    web_of (effects_of r) = (if answers_web s then [JObj (sg_trade_state t), sg_data_reply (JStr ''set'') t] else [])"
proof -
  note facts = common_host_calls [OF assms(2)] assms(3-10)
  obtain ord0 ord1 t0 t1 where lists: "sg_orders s = [ord0, ord1]" "sg_trigger s = [t0, t1]"
    using assms(1) by (auto simp: sg_inv_def numeral_2_eq_2 length_Suc_conv)
  show ?thesis
    by (cases "answers_web s"; simp add: sg_on_trade_data_def sg_take_trade_data_def is_key_error_def sg_stmts run_prog
        facts lists Let_def sg_data_reply_def answers_web_def)
qed

definition pair_text :: "string \<Rightarrow> string \<Rightarrow> string" where
  "pair_text t p = ''{'' @ field ''t'' t @ '', '' @ field ''p'' p @ ''}''"

definition web_set_text :: string where
  "web_set_text = ''{'' @ field ''a'' ''set'' @ '', '' @ field ''s'' ''BTC'' @ '', '' @ field ''q'' ''2'' @ '', '' @
     [quote] @ ''B'' @ [quote] @ '': '' @ pair_text ''100'' ''99'' @ '', '' @
     [quote] @ ''S'' @ [quote] @ '': '' @ pair_text ''110'' ''111'' @ ''}''"

lemma web_set_json: "json_loads web_set_text = Inr (JObj
    [(''a'', JStr ''set''), (''s'', JStr ''BTC''), (''q'', JStr ''2''),
     (''B'', JObj [(''t'', JStr ''100''), (''p'', JStr ''99'')]), (''S'', JObj [(''t'', JStr ''110''), (''p'', JStr ''111'')])])"
  by code_simp

theorem sg_web_data_witness:
  "map o_quantity (sg_orders (state_of (sg_on_trade_data web_set_text (running_in bot_methods ST_READY)))) = [Fin False 2, f0] \<and>
   outcome_of (sg_on_trade_data web_set_text (running_in bot_methods ST_READY)) = Raised AttributeError \<and>
   outcome_of (sg_on_trade_data web_set_text (running_in stub_methods ST_READY)) = Done ()"
proof -
  have s: "sg_inv (running_in hs ST_READY)" for hs
    by (rule running_in) (simp add: sg_states_def)
  have f: "float_of (JStr ''100'') = Inr (Fin False 100)" "float_of (JStr ''99'') = Inr (Fin False 99)"
    "float_of (JStr ''110'') = Inr (Fin False 110)" "float_of (JStr ''111'') = Inr (Fin False 111)"
    "float_of (JStr ''2'') = Inr (Fin False 2)"
    by code_simp+
  note stored = sg_web_data [OF s _ web_set_json, of _ "Fin False 100" "Fin False 99" "Fin False 110" "Fin False 111" "Fin False 2"]
  show ?thesis
    using stored [OF running_on(1)] stored [OF running_on(3)] f running_on
    by (simp add: dict_get_def float_at_def float_at2_def sg_Order_def Order_def Let_def del: float_of.simps)
qed

text \<open>Trade data that are not JSON: the handler of the parse error itself raises, NameError, and the web client gets
  no answer.\<close>

theorem sg_bad_trade_data:
  assumes "common_host s" and "json_loads d = Inl x"
  shows "outcome_of (sg_on_trade_data d s) = Raised NameError \<and> state_of (sg_on_trade_data d s) = s \<and>
    web_of (effects_of (sg_on_trade_data d s)) = []"
  using assms common_host_calls [OF assms(1)] by (simp add: sg_on_trade_data_def sg_stmts run_prog)

theorem sg_bad_trade_data_witness:
  "outcome_of (sg_on_trade_data ''nonsense'' (running_in bot_methods ST_READY)) = Raised NameError"
proof -
  have "json_loads ''nonsense'' = Inl JSONDecodeError"
    by code_simp
  with running_on(1) show ?thesis
    using sg_bad_trade_data by blast
qed

section \<open>Orders refused\<close>



end
