(* ===== verification/DebugHost.thy ===== *)
theory DebugHost
  imports Framework
begin

text \<open>
  The host of the debug copy: the class \<open>StrategyInstance\<close> that scrdbg/mstrategy.py
  defines when \<open>debug\<close> is set.  Its methods print the call (the effect), and the
  timers are threads: one attribute holds the function of the last timer created,
  another the last timer started, whatever their names are.

  A function of a timer is the method \<open>on_order_complete_timeout\<close> of a currency and
  is represented by the name of the currency.  The threads started so far are kept in
  the order of their start.
\<close>

record dbg_thread =
  th_func :: "string option"
  th_interval :: int
  th_live :: bool

record dbg_host =
  db_timer_func :: "string option"
  db_timer :: "nat option"
  db_threads :: "dbg_thread list"

type_synonym dbg_host_act = "(dbg_host, effect) stmt"

definition StrategyInstance :: dbg_host where
  "StrategyInstance = \<lparr>db_timer_func = None, db_timer = None, db_threads = []\<rparr>"

definition dbg_create_timer :: "string \<Rightarrow> string \<Rightarrow> dbg_host_act" where
  "dbg_create_timer name func = p_block [
     p_emit (CreateTimer name),
     p_upd (\<lambda>h. h\<lparr>db_timer_func := Some func\<rparr>)]"

definition dbg_start_timer :: "string \<Rightarrow> int \<Rightarrow> dbg_host_act" where
  "dbg_start_timer name interval = p_block [
     p_emit (StartTimer name interval),
     p_upd (\<lambda>h. h\<lparr>db_timer := Some (length (db_threads h)),
       db_threads := db_threads h @ [\<lparr>th_func = db_timer_func h, th_interval = interval, th_live = True\<rparr>]\<rparr>)]"

text \<open>A thread whose time is over calls its function once, unless it was cancelled.\<close>

definition thread_fires :: "nat \<Rightarrow> dbg_host \<Rightarrow> bool" where
  "thread_fires i h \<longleftrightarrow> i < length (db_threads h) \<and> th_live (db_threads h ! i)"

definition thread_ends :: "nat \<Rightarrow> dbg_host \<Rightarrow> dbg_host" where
  "thread_ends i h = h\<lparr>db_threads := (db_threads h)[i := (db_threads h ! i)\<lparr>th_live := False\<rparr>]\<rparr>"

text \<open>\<open>self.timer.cancel()\<close>: \<open>None\<close> has no method \<open>cancel\<close>.\<close>

definition dbg_stop_timer :: "string \<Rightarrow> dbg_host_act" where
  "dbg_stop_timer name = p_block [
     p_emit (StopTimer name),
     p_read db_timer (\<lambda>t. case t of
       None \<Rightarrow> p_raise AttributeError
     | Some i \<Rightarrow> p_upd (thread_ends i))]"

text \<open>An object next to its host: a method of the host, and one of the object that does not call it.\<close>

definition on_host :: "dbg_host_act \<Rightarrow> (dbg_host \<times> 's, effect) stmt" where
  "on_host m = p_lift fst (\<lambda>h p. (h, snd p)) m"

definition self :: "('s, effect, 'a) prog \<Rightarrow> (dbg_host \<times> 's, effect, 'a) prog" where
  "self m = p_lift snd (\<lambda>s p. (fst p, s)) m"

section \<open>Facts\<close>

text \<open>A timer has been started; once one is, one always is.\<close>

definition timer_started :: "dbg_host \<Rightarrow> bool" where
  "timer_started h \<longleftrightarrow> db_timer h \<noteq> None"

lemma self_run: "m s = (s1, es, r) \<Longrightarrow> self m (h, s) = ((h, s1), es, r)"
  by (simp add: self_def p_lift_def)

lemma on_host_run: "m h = (h1, es, r) \<Longrightarrow> on_host m (h, s) = ((h1, s), es, r)"
  by (simp add: on_host_def p_lift_def)

lemma start_timer_run:
  "dbg_start_timer name k h =
    (h\<lparr>db_timer := Some (length (db_threads h)),
       db_threads := db_threads h @ [\<lparr>th_func = db_timer_func h, th_interval = k, th_live = True\<rparr>]\<rparr>,
     [StartTimer name k], Done ())"
  by (simp add: dbg_start_timer_def run_prog)

lemma stop_timer_run:
  "dbg_stop_timer name h =
    (case db_timer h of
       None \<Rightarrow> (h, [StopTimer name], Raised AttributeError)
     | Some i \<Rightarrow> (thread_ends i h, [StopTimer name], Done ()))"
  by (simp add: dbg_stop_timer_def run_prog split: option.split)

lemma create_timer_run:
  "dbg_create_timer name f h = (h\<lparr>db_timer_func := Some f\<rparr>, [CreateTimer name], Done ())"
  by (simp add: dbg_create_timer_def run_prog)

end
