(* ===== verification/DebugSymbol.thy ===== *)
theory DebugSymbol
  imports DebugHost SymbolFsm
begin

text \<open>
  The class \<open>SymbolData\<close> of scrdbg/mstrategy.py, the copy of the script that runs on
  the debug host.  Its text is that of mstrategy.py but for the logs of the filters,
  \<open>on_test\<close>, and the order whose quantity a commission corrects.  A method that
  calls a timer of the host, or \<open>run\<close>, is written out on the object and its host; a method
  or a statement that does neither is the one of \<open>SymbolData\<close>, on \<open>self\<close>.
\<close>

type_synonym dbg_act = "(dbg_host \<times> symbol_data, effect) stmt"

section \<open>Statements\<close>

definition dbg_set_state :: "string \<Rightarrow> dbg_act" where
  "dbg_set_state st = self (sd_set_state st)"

definition dbg_ts_set :: "string \<Rightarrow> json \<Rightarrow> dbg_act" where
  "dbg_ts_set k v = self (ts_set k v)"

definition dbg_send_trade_state :: dbg_act where
  "dbg_send_trade_state = self send_trade_state"

definition dbg_h_to_journal :: "json \<Rightarrow> dbg_act" where
  "dbg_h_to_journal msg = self (h_to_journal msg)"

definition dbg_log_fsm :: "string \<Rightarrow> dbg_act" where
  "dbg_log_fsm func = self (log_fsm func)"

definition dbg_h_stop_timer :: dbg_act where
  "dbg_h_stop_timer = p_read (\<lambda>(h, s). sd_symbol s) (\<lambda>sym. on_host (dbg_stop_timer (compl_timer sym)))"

definition dbg_h_start_timer :: "int \<Rightarrow> dbg_act" where
  "dbg_h_start_timer interval =
     p_read (\<lambda>(h, s). sd_symbol s) (\<lambda>sym. on_host (dbg_start_timer (compl_timer sym) interval))"

section \<open>Handlers\<close>

definition dbg_fsm_ready :: dbg_act where
  "dbg_fsm_ready = p_block [
     dbg_log_fsm ''fsm_ready'',
     dbg_ts_set ''x'' (JStr ''data''),
     dbg_ts_set ''a'' (JStr ''ready''),
     dbg_ts_set ''m'' (JFmt ''Trade data is ready'' [])]"

definition dbg_fsm_wait_price :: "dbg_act \<Rightarrow> dbg_act" where
  "dbg_fsm_wait_price go =
     p_read (\<lambda>(h, s). is_trigger_in_price (sd_trigger s ! sd_step s) s) (\<lambda>hit.
       p_val hit (\<lambda>b.
         if b then p_block [
           self (p_upd (\<lambda>s. s\<lparr>sd_wait_price := False\<rparr>)),
           dbg_set_state ST_IN_PRICE,
           go]
         else p_skip))"

definition dbg_fsm_in_price :: dbg_act where
  "dbg_fsm_in_price = p_block [
     p_read (\<lambda>(h, s). [JStr (get_state (sd_fsm s)), JStr ''fsm_in_price'', JStr (sd_symbol s)])
       (\<lambda>args. p_emit (ToLog (JFmt ''FSM state: {} func: {} symbol {}'' args))),
     p_read (\<lambda>(h, s). JFmt ''Trigger {}-{} fired'' [JStr (sd_symbol s), JStrOf (sd_trigger s ! sd_step s)]) (\<lambda>msg.
       p_block [
         dbg_ts_set ''x'' (JStr ''trigger''),
         dbg_ts_set ''a'' (JStr ''ready''),
         dbg_ts_set ''m'' msg,
         dbg_send_trade_state,
         dbg_h_to_journal msg,
         self (p_when (\<lambda>s. sd_step s = 1 \<or> sd_step s = 0) name_order),
         p_read (\<lambda>(h, s). if sd_step s = 1 \<or> sd_step s = 0 then placed_msg s else msg) (\<lambda>msg.
           p_block [
             self (p_read current_order (\<lambda>ord. p_emit (ExecOrder ord))),
             self (p_upd (\<lambda>s. s\<lparr>sd_wait_order_fill := SlotOrder (sd_step s)\<rparr>)),
             dbg_h_start_timer 5,
             dbg_h_to_journal msg,
             self (p_read (\<lambda>s. print_order_to_string (current_order s)) h_to_journal),
             dbg_set_state ST_WAIT_ORDER_CMPL])])]"

definition dbg_fsm_wait_order_compl :: dbg_act where
  "dbg_fsm_wait_order_compl = p_block [
     dbg_log_fsm ''fsm_wait_order_compl'',
     p_try is_key_error
       (p_read (\<lambda>(h, s). report_is ''NEW'' s) (\<lambda>r. p_val r (\<lambda>b.
          if b then
            (let msg = JFmt ''Order confirmed by Binance, waiting for it to be filled'' [] in p_block [
              self reset_order_report,
              dbg_h_stop_timer,
              dbg_ts_set ''x'' (JStr ''order''),
              dbg_ts_set ''a'' (JStr ''wait''),
              dbg_ts_set ''m'' msg,
              dbg_send_trade_state,
              dbg_h_to_journal msg,
              dbg_set_state ST_WAIT_ORDER_FILL])
          else p_skip)))
       (p_emit (ToLog (JFmt ''Binance report: key error 'c' or 'X' '' [])))]"

subsection \<open>Filling\<close>

text \<open>The quantity of the order of the step just entered, and of no other.\<close>

definition dbg_correct_quantity :: "pyfloat \<Rightarrow> sd_act" where
  "dbg_correct_quantity cmsn = p_block [
     p_upd (\<lambda>s. upd_order (sd_step s) (\<lambda>ord. ord\<lparr>o_quantity := fsub (o_quantity (current_order s)) cmsn\<rparr>) s),
     p_read (\<lambda>s. round_at_step (o_quantity (current_order s)) (sd_stepSize s)) (\<lambda>r. p_val r (\<lambda>q.
       p_upd (\<lambda>s. upd_order (sd_step s) (\<lambda>ord. ord\<lparr>o_quantity := q\<rparr>) s)))]"

definition dbg_log_correction :: sd_act where
  "dbg_log_correction =
     p_read (\<lambda>s. [JStr (o_newClientOrderId (current_order s)), JStrOf (o_quantity (current_order s))])
       (\<lambda>args. p_emit (ToLog (JFmt ''Correction order {}: new qantity {}'' args)))"

definition dbg_apply_commission :: "json \<Rightarrow> sd_act" where
  "dbg_apply_commission cmsn_asset =
     (if cmsn_asset = JStr ''USDT'' then
        p_read (\<lambda>s.
            bind_sum (bind_sum (report_item ''n'' s) float_of) (\<lambda>n.
            bind_sum (bind_sum (report_item ''p'' s) float_of) (\<lambda>p. fdiv n p)))
          (\<lambda>r. p_val r (\<lambda>cmsn_symb. p_block [
             dbg_correct_quantity cmsn_symb,
             send_orders_change (JFmt ''Commission in USDT, order quantity reduced'' []),
             dbg_log_correction]))
      else if cmsn_asset \<noteq> JStr ''BNB'' then
        p_read (\<lambda>s. bind_sum (report_item ''n'' s) float_of)
          (\<lambda>r. p_val r (\<lambda>n. p_block [
             dbg_correct_quantity n,
             send_orders_change (JFmt ''Commission in {}, order quantity reduced'' [cmsn_asset]),
             dbg_log_correction]))
      else p_skip)"

definition dbg_settle_commission :: sd_act where
  "dbg_settle_commission =
     p_read (report_item ''N'') (\<lambda>r. p_val r (\<lambda>cmsn_asset.
       p_block [
         p_read (report_item ''n'') (\<lambda>r. p_val r (\<lambda>n.
           p_emit (ToLog (JFmt ''Commission {}/{}'' [cmsn_asset, n])))),
         dbg_apply_commission cmsn_asset]))"

definition dbg_fsm_wait_order_fill :: dbg_act where
  "dbg_fsm_wait_order_fill = p_block [
     dbg_log_fsm ''fsm_wait_order_fill'',
     p_read (\<lambda>(h, s). report_is ''FILLED'' s) (\<lambda>r. p_val r (\<lambda>b.
       if b then
         (let msg = JFmt ''Order filled by Binance'' [] in p_block [
           dbg_h_stop_timer,
           self (p_upd (\<lambda>s. s\<lparr>sd_wait_order_fill := NewOrder\<rparr>)),
           dbg_ts_set ''a'' (JStr ''ready''),
           dbg_ts_set ''m'' msg,
           dbg_send_trade_state,
           dbg_h_to_journal msg,
           p_read (\<lambda>(h, s). [JStr (sd_symbol s), JInt (sd_counter s), JInt (int (sd_step s))])
             (\<lambda>args. p_emit (ToLog (JFmt ''symbol {} cycle {} step {} '' args))),
           self next_step,
           self dbg_settle_commission,
           self (p_upd (\<lambda>s. s\<lparr>sd_wait_price := True\<rparr>)),
           dbg_set_state ST_WAIT_PRICE])
       else p_skip))]"

subsection \<open>Deletion and the end\<close>

definition dbg_fsm_wait_order_del :: "dbg_act \<Rightarrow> dbg_act" where
  "dbg_fsm_wait_order_del go = p_block [
     dbg_log_fsm ''fsm_wait_order_del'',
     p_read (\<lambda>(h, s). report_item ''X'' s) (\<lambda>r. p_val r (\<lambda>x.
       if x = JStr ''CANCELED'' then
         p_read (\<lambda>(h, s). JFmt ''Order {} cancelled'' [JStr (o_newClientOrderId (waited_order s))]) (\<lambda>msg. p_block [
           dbg_h_stop_timer,
           self (p_upd (\<lambda>s. s\<lparr>sd_wait_order_fill := NewOrder\<rparr>)),
           dbg_h_to_journal msg,
           dbg_ts_set ''x'' (JStr ''order''),
           dbg_ts_set ''a'' (JStr ''stop''),
           dbg_ts_set ''m'' msg,
           dbg_send_trade_state,
           p_if (\<lambda>(h, s). sd_change_mode s)
             (p_block [
               self (p_upd (\<lambda>s. s\<lparr>sd_wait_price := True\<rparr>)),
               dbg_set_state ST_WAIT_PRICE,
               self (p_upd (\<lambda>s. s\<lparr>sd_change_mode := False\<rparr>))])
             (p_block [
               dbg_set_state ST_RESUME,
               go])])
       else p_skip))]"

definition dbg_fsm_resume :: dbg_act where
  "dbg_fsm_resume = p_block [
     dbg_log_fsm ''fsm_resume'',
     dbg_h_stop_timer,
     self reset,
     self (p_upd (\<lambda>s. s\<lparr>sd_running := False\<rparr>)),
     p_read (\<lambda>(h, s). JFmt ''Trading {} stopped'' [JStr (sd_symbol s)]) (\<lambda>msg. p_block [
       dbg_ts_set ''x'' (JStr ''script''),
       dbg_ts_set ''a'' (JStr ''stop''),
       dbg_ts_set ''m'' msg,
       dbg_send_trade_state,
       p_emit (ToAlertChannel msg),
       dbg_h_to_journal msg])]"

section \<open>The machine\<close>

fun dbg_exec :: "dbg_act \<Rightarrow> sd_handler \<Rightarrow> unit \<Rightarrow> dbg_act" where
  "dbg_exec go H_ready _ = dbg_fsm_ready"
| "dbg_exec go H_wait_price _ = dbg_fsm_wait_price go"
| "dbg_exec go H_in_price _ = dbg_fsm_in_price"
| "dbg_exec go H_wait_order_compl _ = dbg_fsm_wait_order_compl"
| "dbg_exec go H_wait_order_fill _ = dbg_fsm_wait_order_fill"
| "dbg_exec go H_wait_order_del _ = dbg_fsm_wait_order_del go"
| "dbg_exec go H_resume _ = dbg_fsm_resume"

primrec dbg_run :: "nat \<Rightarrow> dbg_act" where
  "dbg_run 0 p = (p, [], Raised RecursionError)"
| "dbg_run (Suc n) p = run (\<lambda>(h, s). sd_fsm s) (dbg_exec (dbg_run n)) () p"

definition dbg_fsm_run :: dbg_act where
  "dbg_fsm_run = dbg_run run_depth"

section \<open>Events\<close>

definition dbg_on_test :: sd_act where
  "dbg_on_test = p_read (print_trade_pos (JFmt ''Trade data'' []) False) h_to_journal"

text \<open>The filters are stored and not logged.\<close>

definition dbg_sd_on_exchange_info :: "json \<Rightarrow> sd_act" where
  "dbg_sd_on_exchange_info json_info = p_block [
     p_val (bind_sum (getitem json_info ''quotePrecision'') int_of) (\<lambda>i.
       p_upd (\<lambda>s. s\<lparr>sd_quotePrecision := i\<rparr>)),
     p_val (bind_sum (getitem json_info ''quoteAssetPrecision'') int_of) (\<lambda>i.
       p_upd (\<lambda>s. s\<lparr>sd_quoteAssetPrecision := i\<rparr>)),
     p_val (getitem json_info ''filters'') (\<lambda>filters. p_val (py_iter filters) (\<lambda>fs. p_for fs (\<lambda>f.
       p_val (getitem f ''filterType'') (\<lambda>ft.
         if ft = JStr ''PRICE_FILTER'' then
           p_val (float_at f ''tickSize'') (\<lambda>x. p_upd (\<lambda>s. s\<lparr>sd_tickSize := x\<rparr>))
         else if ft = JStr ''LOT_SIZE'' then
           p_val (float_at f ''stepSize'') (\<lambda>x. p_upd (\<lambda>s. s\<lparr>sd_stepSize := x\<rparr>))
         else if ft = JStr ''PERCENT_PRICE'' then p_block [
           p_val (float_at f ''multiplierUp'') (\<lambda>x. p_upd (\<lambda>s. s\<lparr>sd_multiplierUp := JFloat x\<rparr>)),
           p_val (float_at f ''multiplierDown'') (\<lambda>x. p_upd (\<lambda>s. s\<lparr>sd_multiplierDown := x\<rparr>))]
         else if ft = JStr ''MIN_NOTIONAL'' then
           p_val (float_at f ''minNotional'') (\<lambda>x. p_upd (\<lambda>s. s\<lparr>sd_minNotional := x\<rparr>))
         else p_skip))))]"

definition dbg_sd_on_trade_data :: "json \<Rightarrow> dbg_act" where
  "dbg_sd_on_trade_data json_in_data =
     (case json_in_data of
        JObj d0 \<Rightarrow>
          (let d = dict_set ''e'' (JStr ''tradeData'') d0; j = JObj d in
           p_bind
             (p_try is_key_error
               (p_bind
                 (p_block [
                   p_val (getitem j ''a'') (\<lambda>a.
                     if a = JStr ''set'' then p_block [
                       self (set_temp_data j),
                       p_if (\<lambda>(h, s). \<not> sd_running s)
                         (p_block [dbg_set_state ST_READY, dbg_fsm_run])
                         (p_block [
                           dbg_ts_set ''x'' (JStr ''script''),
                           dbg_ts_set ''a'' (JStr ''wait''),
                           dbg_ts_set ''m'' (JFmt ''Data changed. Trading is running'' [])])]
                     else p_skip),
                   dbg_send_trade_state])
                 (\<lambda>_. p_read (\<lambda>(h, s). trade_data_reply s d) p_ret))
               (p_ret (dict_set ''m'' (JFmt ''JSON key not found'' []) (dict_set ''c'' (JStr ''002'') d))))
             (\<lambda>out. p_emit (ToWeb (JObj out))))
      | _ \<Rightarrow> p_raise TypeError)"

definition dbg_trade_run_start :: "json \<Rightarrow> dbg_act" where
  "dbg_trade_run_start side = p_block [
     self (p_upd take_temp_data),
     self (choose_step side),
     self (p_upd (\<lambda>s. s\<lparr>sd_running := True, sd_wait_price := True\<rparr>)),
     dbg_ts_set ''x'' (JStr ''script''),
     dbg_ts_set ''a'' (JStr ''start''),
     p_read (\<lambda>(h, s). JFmt ''Trading started. Waiting for trigger {}-{}'' [JStr (sd_symbol s), side]) (dbg_ts_set ''m''),
     dbg_send_trade_state,
     p_read (\<lambda>(h, s). JFmt ''Trading {} started'' [JStr (sd_symbol s)]) (\<lambda>msg. p_emit (ToAlertChannel msg)),
     dbg_h_to_journal (JFmt ''Trading started'' []),
     self (p_read (print_trade_pos (JFmt ''Trade data'' []) False) h_to_journal),
     dbg_set_state ST_WAIT_PRICE,
     dbg_fsm_run]"

definition dbg_trade_run_stop :: dbg_act where
  "dbg_trade_run_stop = p_block [
     p_read (\<lambda>(h, s). JFmt ''Trading {} stopped by the user'' [JStr (sd_symbol s)]) (\<lambda>msg. p_emit (ToAlertChannel msg)),
     p_if (\<lambda>(h, s). wait_order_act s)
       (p_block [
         self delete_waited_order,
         dbg_set_state ST_WAIT_ORDER_DEL,
         dbg_ts_set ''x'' (JStr ''order''),
         dbg_ts_set ''a'' (JStr ''wait''),
         p_read (\<lambda>(h, s). await_deletion_msg s) (dbg_ts_set ''m''),
         dbg_send_trade_state])
       (p_block [dbg_set_state ST_RESUME, dbg_fsm_run])]"

text \<open>A stop while idle and a change of data call neither a timer nor \<open>run\<close>.\<close>

definition dbg_sd_on_trade_run :: "json \<Rightarrow> dbg_act" where
  "dbg_sd_on_trade_run rjdata =
     p_val (getitem rjdata ''a'') (\<lambda>a. p_val (getitem rjdata ''p'') (\<lambda>side.
       let go = (a = JStr ''start'') in
       p_if (\<lambda>(h, s). \<not> sd_running s)
         (if go then dbg_trade_run_start side else self trade_run_idle_stop)
         (if go then self (trade_run_change side) else dbg_trade_run_stop)))"

definition dbg_sd_on_price :: "json \<Rightarrow> dbg_act" where
  "dbg_sd_on_price price = p_block [
     self (p_read sd_price (\<lambda>ps.
       if ps = [] then p_raise IndexError else p_upd (\<lambda>s. s\<lparr>sd_price := butlast (sd_price s)\<rparr>))),
     p_val (float_of price) (\<lambda>x. self (p_upd (\<lambda>s. s\<lparr>sd_price := x # sd_price s\<rparr>))),
     p_when (\<lambda>(h, s). sd_wait_price s) dbg_fsm_run]"

definition dbg_sd_on_order_report :: "json \<Rightarrow> dbg_act" where
  "dbg_sd_on_order_report jreport = p_block [
     dbg_log_fsm ''on_order_report'',
     self (p_upd (\<lambda>s. s\<lparr>sd_report := Some jreport\<rparr>)),
     p_when (\<lambda>(h, s). get_state (sd_fsm s) \<noteq> ST_RESUME) dbg_fsm_run]"

definition dbg_sd_on_order_complete_timeout :: dbg_act where
  "dbg_sd_on_order_complete_timeout = p_block [
     dbg_log_fsm ''on_order_complete_timeout'',
     self (p_read (\<lambda>s. JFmt ''FSM: no confirmation of order {}'' [JStr (o_newClientOrderId (current_order s))]) h_to_journal),
     self (p_upd (\<lambda>s. s\<lparr>sd_wait_order_fill := NewOrder\<rparr>)),
     dbg_ts_set ''x'' (JStr ''order''),
     dbg_ts_set ''a'' (JStr ''error''),
     dbg_ts_set ''m'' (JFmt ''No confirmation of the order from Binance'' []),
     dbg_send_trade_state,
     p_read (\<lambda>(h, s). JFmt ''Trading {} stopped by timeout'' [JStr (sd_symbol s)]) (\<lambda>msg. p_emit (ToAlertChannel msg)),
     dbg_set_state ST_RESUME,
     dbg_fsm_run]"

end
