(* ===== verification/DebugStrategy.thy ===== *)
theory DebugStrategy
  imports DebugSymbol MStrategy
begin

text \<open>
  The class \<open>Strategy\<close> of scrdbg/mstrategy.py on the debug host.  \<open>on_start\<close>,
  \<open>on_change\<close> and \<open>on_stop\<close>, which the deployed script has not, read an attribute
  \<open>fsm\<close> that the object has not.
\<close>

type_synonym debug = "dbg_host \<times> strategy"
type_synonym debug_act = "(debug, effect) stmt"

definition DebugStrategy :: debug where
  "DebugStrategy = (StrategyInstance, Strategy)"

text \<open>A method of \<open>self.symbol_data[k]\<close>, which calls the host of the strategy.\<close>

definition dbg_on_symbol :: "string \<Rightarrow> dbg_act \<Rightarrow> debug_act" where
  "dbg_on_symbol k m = (\<lambda>(h, s).
     case map_of (st_symbol_data s) k of
       None \<Rightarrow> ((h, s), [], Raised KeyError)
     | Some sd \<Rightarrow>
         (case m (h, sd) of ((h', sd'), es, r) \<Rightarrow>
            ((h', s\<lparr>st_symbol_data := dict_set k sd' (st_symbol_data s)\<rparr>), es, r)))"

definition dbg_if_known :: "json \<Rightarrow> (string \<Rightarrow> debug_act) \<Rightarrow> debug_act \<Rightarrow> debug_act" where
  "dbg_if_known s act other =
     p_read (\<lambda>(h, st). in_dict s (st_symbol_data st))
       (\<lambda>r. p_val r (\<lambda>b. if b then act (the_str s) else other))"

section \<open>Events\<close>

definition dbg_eval :: debug_act where
  "dbg_eval = p_block [self (log_func ''eval''), dbg_on_symbol ''BTC'' (self dbg_on_test)]"

definition dbg_on_symbols_list :: "string list \<Rightarrow> debug_act" where
  "dbg_on_symbols_list symbols = p_block [
     self (log_func ''on_symbols_list''),
     p_for symbols (\<lambda>s. p_block [
       self (p_upd (\<lambda>st. st\<lparr>st_symbol_data := dict_set s (SymbolData s) (st_symbol_data st)\<rparr>)),
       on_host (dbg_create_timer (compl_timer s) s)])]"

definition dbg_on_trade_data :: "string \<Rightarrow> debug_act" where
  "dbg_on_trade_data data = p_block [
     self (log_func ''on_trade_data''),
     (case json_loads data of
        Inl err \<Rightarrow> self (log_text ''Trade data JSON parse error'')
      | Inr json_in_data \<Rightarrow> p_block [
          p_emit (ToLog json_in_data),
          p_val (getitem json_in_data ''a'') (\<lambda>_. p_skip),
          p_val (getitem json_in_data ''s'') (\<lambda>symbol.
            dbg_if_known symbol (\<lambda>k. dbg_on_symbol k (dbg_sd_on_trade_data json_in_data)) (p_raise AttributeError))])]"

definition dbg_on_get_trade_state :: "string \<Rightarrow> debug_act" where
  "dbg_on_get_trade_state symbol = p_block [
     p_emit (ToLog (JFmt ''func: {} symbol {}'' [JStr ''on_get_trade_state'', JStr symbol])),
     dbg_if_known (JStr symbol)
       (\<lambda>k. dbg_on_symbol k (p_read (\<lambda>(h, sd). JObj (sd_trade_state sd)) (\<lambda>j. p_emit (ToWeb j))))
       p_skip]"

definition dbg_on_start :: debug_act where
  "dbg_on_start = p_raise AttributeError"

definition dbg_on_change :: debug_act where
  "dbg_on_change = p_raise AttributeError"

definition dbg_on_stop :: debug_act where
  "dbg_on_stop = p_raise AttributeError"

definition dbg_on_account :: "string \<Rightarrow> debug_act" where
  "dbg_on_account acc = p_block [
     self (log_func ''on_account''),
     (case json_loads acc of
        Inl err \<Rightarrow> self (log_text ''JSON error in the REST_API account'')
      | Inr jacc \<Rightarrow> p_block [
          self (log_text ''REST_API account format''),
          p_try is_key_error
            (self (update_balances ''Balance : {} free {} / locked {}'' jacc ''balances'' ''asset'' ''takerCommission''
              ''makerCommission'' ''free'' ''locked''))
            (self (log_text ''Key error in the REST_API account''))])]"

definition dbg_on_balance :: "string \<Rightarrow> debug_act" where
  "dbg_on_balance bal = p_block [
     self (log_func ''on_balance''),
     (case json_loads bal of
        Inl err \<Rightarrow> self (log_text ''JSON error in the USER_DATA account'')
      | Inr jbal \<Rightarrow> p_block [
          self (log_text ''USER_DATA account format''),
          p_try is_key_error
            (self (update_balances ''Balance : {} free {} / locked {}'' jbal ''B'' ''a'' ''t'' ''m'' ''f'' ''l''))
            (self (log_text ''Key error in the USER_DATA account''))])]"

definition dbg_on_exchange_info :: "string \<Rightarrow> debug_act" where
  "dbg_on_exchange_info info = p_block [
     self (log_func ''on_exchange_info''),
     (case json_loads info of
        Inl err \<Rightarrow> self (log_text ''JSON error in EXCHANGE INFO'')
      | Inr json_info \<Rightarrow>
          p_val (getitem json_info ''symbols'') (\<lambda>symbols. p_val (py_iter symbols) (\<lambda>ss. p_for ss (\<lambda>symbol.
            p_val (getitem symbol ''quoteAsset'') (\<lambda>qa.
              if qa \<noteq> JStr ''USDT'' then p_skip
              else p_val (getitem symbol ''baseAsset'') (\<lambda>s.
                dbg_if_known s (\<lambda>k. dbg_on_symbol k (self (dbg_sd_on_exchange_info symbol))) p_skip))))))]"

definition dbg_on_wss_data :: "string \<Rightarrow> debug_act" where
  "dbg_on_wss_data data =
     p_val (json_loads data) (\<lambda>_. p_emit (ToLog (JFmt ''WSS DATA: %s'' [JStr data])))"

definition dbg_on_order_report :: "string \<Rightarrow> debug_act" where
  "dbg_on_order_report report = p_block [
     self (log_func ''on_order_report''),
     p_emit (ToLog (JFmt ''ORDER EXEC REPORT: {}'' [JStr report])),
     p_try is_json_error
       (p_val (json_loads report) (\<lambda>jreport.
          p_try is_key_error
            (p_val (bind_sum (getitem jreport ''s'') replace_usdt) (\<lambda>symbol.
               dbg_if_known symbol (\<lambda>k. dbg_on_symbol k (dbg_sd_on_order_report jreport)) p_skip))
            (p_try is_key_error
              (p_val (getitem jreport ''msg'') (\<lambda>m. p_val (getitem jreport ''code'') (\<lambda>c. p_raise AttributeError)))
              (self (log_text ''Unknown REPORT from Binance'')))))
       (self (log_text ''JSON error in EXEC REPORT''))]"

definition dbg_on_price :: "string \<Rightarrow> debug_act" where
  "dbg_on_price data =
     p_try is_json_error
       (p_val (json_loads data) (\<lambda>pdata.
          p_val (getitem pdata ''symbol'') (\<lambda>sym0. p_val (getitem pdata ''price'') (\<lambda>price.
            p_val (replace_usdt sym0) (\<lambda>symbol.
              dbg_if_known symbol (\<lambda>k. dbg_on_symbol k (dbg_sd_on_price price)) p_skip)))))
       (self (log_text ''JSON error in PRICE''))"

definition dbg_on_trade_run :: "string \<Rightarrow> debug_act" where
  "dbg_on_trade_run data = p_block [
     self (log_func ''on_trade_run''),
     p_try is_json_error
       (p_val (json_loads data) (\<lambda>rjdata. p_val (getitem rjdata ''s'') (\<lambda>symbol.
          dbg_if_known symbol (\<lambda>k. dbg_on_symbol k (dbg_sd_on_trade_run rjdata)) p_skip)))
       (self (log_text ''JSON error in RUN TRADE''))]"

definition dbg_get_trade_steps :: "string \<Rightarrow> (debug, effect, string list) prog" where
  "dbg_get_trade_steps symbol = self (st_get_trade_steps symbol)"

definition dbg_get_exchange_info :: debug_act where
  "dbg_get_exchange_info = self st_get_exchange_info"

text \<open>The time of the \<open>i\<close>-th thread is over: it calls the function the host held when the timer was started.\<close>

definition dbg_elapsed :: "nat \<Rightarrow> debug_act" where
  "dbg_elapsed i =
     p_when (\<lambda>(h, st). thread_fires i h) (p_block [
       on_host (p_upd (thread_ends i)),
       p_read (\<lambda>(h, st). th_func (db_threads h ! i)) (\<lambda>f.
         case f of None \<Rightarrow> p_raise TypeError | Some k \<Rightarrow> dbg_on_symbol k dbg_sd_on_order_complete_timeout)])"

section \<open>The events of the debug host\<close>

datatype dbg_event =
    DbgEval
  | DbgSymbolsList "string list"
  | DbgTradeData string
  | DbgGetTradeState string
  | DbgStart
  | DbgChange
  | DbgStop
  | DbgAccount string
  | DbgBalance string
  | DbgExchangeInfo string
  | DbgWssData string
  | DbgReport string
  | DbgPrice string
  | DbgTradeRun string
  | DbgGetExchangeInfo
  | DbgElapsed nat

fun dbg_handle :: "dbg_event \<Rightarrow> debug_act" where
  "dbg_handle DbgEval = dbg_eval"
| "dbg_handle (DbgSymbolsList ss) = dbg_on_symbols_list ss"
| "dbg_handle (DbgTradeData d) = dbg_on_trade_data d"
| "dbg_handle (DbgGetTradeState k) = dbg_on_get_trade_state k"
| "dbg_handle DbgStart = dbg_on_start"
| "dbg_handle DbgChange = dbg_on_change"
| "dbg_handle DbgStop = dbg_on_stop"
| "dbg_handle (DbgAccount d) = dbg_on_account d"
| "dbg_handle (DbgBalance d) = dbg_on_balance d"
| "dbg_handle (DbgExchangeInfo d) = dbg_on_exchange_info d"
| "dbg_handle (DbgWssData d) = dbg_on_wss_data d"
| "dbg_handle (DbgReport d) = dbg_on_order_report d"
| "dbg_handle (DbgPrice d) = dbg_on_price d"
| "dbg_handle (DbgTradeRun d) = dbg_on_trade_run d"
| "dbg_handle DbgGetExchangeInfo = dbg_get_exchange_info"
| "dbg_handle (DbgElapsed i) = dbg_elapsed i"

text \<open>The message of the debug copy for an event of the deployed script; the timers differ.\<close>

fun debug_message :: "st_event \<Rightarrow> dbg_event option" where
  "debug_message (SymbolsList ss) = Some (DbgSymbolsList ss)"
| "debug_message (TradeDataMsg d) = Some (DbgTradeData d)"
| "debug_message (GetTradeState k) = Some (DbgGetTradeState k)"
| "debug_message (AccountMsg d) = Some (DbgAccount d)"
| "debug_message (BalanceMsg d) = Some (DbgBalance d)"
| "debug_message (ExchangeInfoMsg d) = Some (DbgExchangeInfo d)"
| "debug_message (WssData d) = Some (DbgWssData d)"
| "debug_message (ReportMsg d) = Some (DbgReport d)"
| "debug_message (PriceMsg d) = Some (DbgPrice d)"
| "debug_message (TradeRunMsg d) = Some (DbgTradeRun d)"
| "debug_message GetExchangeInfo = Some DbgGetExchangeInfo"
| "debug_message _ = None"

end
