(* ===== verification/Simulation.thy ===== *)
theory Simulation
  imports Fsm
begin

text \<open>
  Two programs that do the same up to a relation of their states and a view of
  their effects: \<open>sim R view bad m m'\<close> says that from related states \<open>m\<close> and \<open>m'\<close>
  end in related states, with effects that look alike and the same outcome, unless
  \<open>m\<close> raises an exception that \<open>bad\<close> excuses.  One rule per combinator; the locale
  \<open>simulation\<close> holds them and lifts the relation to runs.
\<close>

named_theorems sim_intros \<open>simulation of composed programs\<close>

definition excused :: "(exn \<Rightarrow> 's \<Rightarrow> bool) \<Rightarrow> 's \<times> 'e list \<times> 'a outcome \<Rightarrow> bool" where
  "excused bad r \<longleftrightarrow> (\<exists>x. outcome_of r = Raised x \<and> bad x (state_of r))"

definition matches ::
    "('s \<Rightarrow> 't \<Rightarrow> bool) \<Rightarrow> ('e list \<Rightarrow> 'v list) \<Rightarrow> 's \<times> 'e list \<times> 'a outcome \<Rightarrow> 't \<times> 'e list \<times> 'a outcome \<Rightarrow> bool" where
  "matches R view r r' \<longleftrightarrow>
     R (state_of r) (state_of r') \<and> view (effects_of r) = view (effects_of r') \<and> outcome_of r = outcome_of r'"

definition sim ::
    "('s \<Rightarrow> 't \<Rightarrow> bool) \<Rightarrow> ('e list \<Rightarrow> 'v list) \<Rightarrow> (exn \<Rightarrow> 's \<Rightarrow> bool) \<Rightarrow>
     ('s, 'e, 'a) prog \<Rightarrow> ('t, 'e, 'a) prog \<Rightarrow> bool" where
  "sim R view bad m m' \<longleftrightarrow> (\<forall>s t. R s t \<longrightarrow> excused bad (m s) \<or> matches R view (m s) (m' t))"

lemma simI: "(\<And>s t. R s t \<Longrightarrow> excused bad (m s) \<or> matches R view (m s) (m' t)) \<Longrightarrow> sim R view bad m m'"
  by (simp add: sim_def)

lemma simD: "sim R view bad m m' \<Longrightarrow> R s t \<Longrightarrow> excused bad (m s) \<or> matches R view (m s) (m' t)"
  by (simp add: sim_def)

lemma excused_simps [simp]:
  "\<not> excused bad (s, es, Done a)" "excused bad (s, es, Raised x) \<longleftrightarrow> bad x s"
  by (simp_all add: excused_def)

lemma matches_simps [simp]:
  "matches R view (s, es, r) (t, fs, r') \<longleftrightarrow> R s t \<and> view es = view fs \<and> r = r'"
  by (simp add: matches_def)

lemma simE:
  assumes "sim R view bad m m'" and "R s t"
  obtains (excused) s1 es x where "m s = (s1, es, Raised x)" and "bad x s1"
  | (match) s1 es t1 fs r where "m s = (s1, es, r)" and "m' t = (t1, fs, r)" and "R s1 t1" and "view es = view fs"
proof -
  obtain s1 es r t1 fs r' where m: "m s = (s1, es, r)" "m' t = (t1, fs, r')"
    by (cases "m s"; cases "m' t") auto
  from simD [OF assms] show ?thesis
    using that m by (cases r) auto
qed

locale simulation =
  fixes R :: "'s \<Rightarrow> 't \<Rightarrow> bool" and view :: "'e list \<Rightarrow> 'v list" and bad :: "exn \<Rightarrow> 's \<Rightarrow> bool"
  assumes view_append: "view (es @ fs) = view es @ view fs"
begin

lemma view_Nil: "view [] = []"
  using view_append [of "[]" "[]"] by simp

lemma sim_silent [sim_intros]:
  "sim R view bad p_skip p_skip" "sim R view bad (p_ret a) (p_ret a)" "sim R view bad (p_raise x) (p_raise x)"
  by (auto simp: sim_def prog_defs)

lemma sim_upd [sim_intros]: "(\<And>s t. R s t \<Longrightarrow> R (f s) (g t)) \<Longrightarrow> sim R view bad (p_upd f) (p_upd g)"
  by (simp add: sim_def prog_defs)

lemma sim_emit [sim_intros]: "view [e] = view [f] \<Longrightarrow> sim R view bad (p_emit e) (p_emit f)"
  by (simp add: sim_def prog_defs)

lemma sim_bind [sim_intros]:
  assumes m: "sim R view bad m m'" and k: "\<And>a. sim R view bad (k a) (k' a)"
  shows "sim R view bad (p_bind m k) (p_bind m' k')"
proof (rule simI)
  fix s t
  assume "R s t"
  from m this show "excused bad (p_bind m k s) \<or> matches R view (p_bind m k s) (p_bind m' k' t)"
  proof (cases rule: simE)
    case (match s1 es t1 fs r)
    show ?thesis
    proof (cases r)
      case (Done a)
      from k [of a] match(3) show ?thesis
        by (cases rule: simE) (auto simp: match(1,2,4) Done view_append)
    next
      case (Raised x)
      with match show ?thesis
        by simp
    qed
  qed simp
qed

lemma sim_block [sim_intros]:
  "sim R view bad (p_block []) (p_block [])"
  "sim R view bad c c' \<Longrightarrow> sim R view bad (p_block cs) (p_block cs') \<Longrightarrow> sim R view bad (p_block (c # cs)) (p_block (c' # cs'))"
  by (auto simp: p_block.simps intro: sim_silent sim_bind)

lemma sim_If [sim_intros]:
  "(b \<Longrightarrow> sim R view bad c c') \<Longrightarrow> (\<not> b \<Longrightarrow> sim R view bad d d') \<Longrightarrow>
   sim R view bad (if b then c else d) (if b then c' else d')"
  by simp

lemma sim_sum [sim_intros]:
  "(\<And>x. sim R view bad (c x) (c' x)) \<Longrightarrow> (\<And>a. sim R view bad (d a) (d' a)) \<Longrightarrow>
   sim R view bad (case v of Inl x \<Rightarrow> c x | Inr a \<Rightarrow> d a) (case v of Inl x \<Rightarrow> c' x | Inr a \<Rightarrow> d' a)"
  by (cases v) simp_all

lemma sim_for [sim_intros]:
  "(\<And>x. x \<in> set xs \<Longrightarrow> sim R view bad (body x) (body' x)) \<Longrightarrow> sim R view bad (p_for xs body) (p_for xs body')"
  by (induction xs) (auto intro: sim_silent sim_bind)

lemma sim_read: "(\<And>s t. R s t \<Longrightarrow> sim R view bad (k (f s)) (k' (g t))) \<Longrightarrow> sim R view bad (p_read f k) (p_read g k')"
  by (simp add: sim_def p_read_def)

lemma sim_read_same [sim_intros]:
  "(\<And>s t. R s t \<Longrightarrow> f s = g t) \<Longrightarrow> (\<And>a. sim R view bad (k a) (k' a)) \<Longrightarrow> sim R view bad (p_read f k) (p_read g k')"
  by (simp add: sim_def p_read_def)

lemma sim_val [sim_intros]:
  "(\<And>a. v = Inr a \<Longrightarrow> sim R view bad (k a) (k' a)) \<Longrightarrow> sim R view bad (p_val v k) (p_val v k')"
  by (auto simp: p_val_def intro: sim_silent split: sum.split)

lemma sim_val_rel:
  "rel_sum (=) P v v' \<Longrightarrow> (\<And>a b. P a b \<Longrightarrow> sim R view bad (k a) (k' b)) \<Longrightarrow> sim R view bad (p_val v k) (p_val v' k')"
  by (cases v; cases v') (auto simp: p_val_def intro: sim_silent)

lemma sim_if [sim_intros]:
  "(\<And>s t. R s t \<Longrightarrow> b s = b' t) \<Longrightarrow> sim R view bad c c' \<Longrightarrow> sim R view bad d d' \<Longrightarrow>
   sim R view bad (p_if b c d) (p_if b' c' d')"
  by (simp add: sim_def p_if_def)

lemma sim_when [sim_intros]:
  "(\<And>s t. R s t \<Longrightarrow> b s = b' t) \<Longrightarrow> sim R view bad c c' \<Longrightarrow> sim R view bad (p_when b c) (p_when b' c')"
  by (simp add: p_when_def sim_if sim_silent)

lemma sim_try [sim_intros]:
  assumes "\<And>x s. bad x s \<Longrightarrow> \<not> Q x" and m: "sim R view bad m m'" and h: "sim R view bad h h'"
  shows "sim R view bad (p_try Q m h) (p_try Q m' h')"
proof (rule simI)
  fix s t
  assume "R s t"
  from m this show "excused bad (p_try Q m h s) \<or> matches R view (p_try Q m h s) (p_try Q m' h' t)"
  proof (cases rule: simE)
    case (excused s1 es x)
    with assms(1) show ?thesis
      by (auto simp: p_try_def)
  next
    case (match s1 es t1 fs r)
    show ?thesis
    proof (cases r)
      case (Done a)
      with match show ?thesis
        by (simp add: p_try_def)
    next
      case (Raised x)
      from h match(3) show ?thesis
        by (cases rule: simE) (auto simp: p_try_def match(1,2,4) Raised view_append match(3))
    qed
  qed
qed

text \<open>A statement of one program only, which shows nothing.\<close>

lemma sim_extra_right:
  "sim R view bad m (p_block cs) \<Longrightarrow> (\<And>t. \<exists>fs. c t = (t, fs, Done ()) \<and> view fs = []) \<Longrightarrow>
   sim R view bad m (p_block (c # cs))"
proof (rule simI)
  fix s t
  assume m: "sim R view bad m (p_block cs)" and R: "R s t"
    and c: "\<And>t. \<exists>fs. c t = (t, fs, Done ()) \<and> view fs = []"
  from c [of t] obtain es where es: "c t = (t, es, Done ())" "view es = []"
    by blast
  from m R show "excused bad (m s) \<or> matches R view (m s) (p_block (c # cs) t)"
    by (cases rule: simE) (simp_all add: p_block.simps es view_append)
qed

lemma sim_run [sim_intros]:
  assumes "\<And>s t. R s t \<Longrightarrow> getm s = getm' t" and "\<And>h. sim R view bad (exec h arg) (exec' h arg)"
  shows "sim R view bad (run getm exec arg) (run getm' exec' arg)"
proof -
  have eq: "run getm exec arg = p_read getm (\<lambda>m.
      if fsm_state m \<in> set (fsm_endStates m) then p_skip
      else p_val (dict_get (fsm_handlers m) (fsm_state m))
        (\<lambda>h. case h of None \<Rightarrow> p_raise TypeError | Some h' \<Rightarrow> exec h' arg))" for getm exec
    by (simp add: run_def p_read_def Let_def fun_eq_iff)
  show ?thesis
    unfolding eq by (intro sim_intros assms(1)) (auto intro: sim_intros assms(2) split: option.split)
qed

text \<open>Along a run of events, where an invariant rules out the excuse.\<close>

lemma sim_run_events:
  assumes "\<And>ev. ev \<in> set evs \<Longrightarrow> sim R view bad (handle ev) (handle' (f ev))"
    and "\<And>ev s. I s \<Longrightarrow> \<not> excused bad (handle ev s) \<and> I (state_of (handle ev s))"
    and "I s" and "R s t"
  shows "R (fst (run_events handle evs s)) (fst (run_events handle' (map f evs) t)) \<and>
    view (snd (run_events handle evs s)) = view (snd (run_events handle' (map f evs) t))"
  using assms(1,3,4)
proof (induction evs arbitrary: s t)
  case Nil
  then show ?case
    by simp
next
  case (Cons ev evs)
  from Cons.prems(1) [of ev] have "sim R view bad (handle ev) (handle' (f ev))"
    by simp
  from this Cons.prems(3) show ?case
  proof (cases rule: simE)
    case (excused s1 es x)
    with assms(2) [OF Cons.prems(2), of ev] show ?thesis
      by simp
  next
    case (match s1 es t1 fs r)
    moreover have "I s1"
      using assms(2) [OF Cons.prems(2), of ev] match(1) by simp
    ultimately show ?thesis
      using Cons.IH [of s1 t1] Cons.prems(1) by (simp add: split_beta view_append)
  qed
qed

end

end
