(* ===== verification/LogSimulation.thy ===== *)
theory LogSimulation
  imports Simulation Framework
begin

text \<open>
  Simulations whose view leaves the logs out: a program may log what the other does not.
\<close>

definition is_log :: "effect \<Rightarrow> bool" where
  "is_log e \<longleftrightarrow> (case e of ToLog _ \<Rightarrow> True | _ \<Rightarrow> False)"

lemma is_log_simps [simp]:
  "is_log (ToLog j)" "\<not> is_log (ToJournal j)" "\<not> is_log (ToWeb j)" "\<not> is_log (ToAlertChannel j)"
  "\<not> is_log (ExecOrder ord)" "\<not> is_log (DeleteOrder ord)" "\<not> is_log (CreateTimer t)" "\<not> is_log (StartTimer t k)"
  "\<not> is_log (StopTimer t)"
  by (simp_all add: is_log_def)

text \<open>A filter that is stored, and one that is stored and logged.\<close>

lemma float_then_item:
  "p_block [p_val (float_at f k) g, p_val (getitem f k) l] = p_val (getitem f k) (\<lambda>v. p_val (float_of v) (\<lambda>x. p_block [g x, l v]))"
  "p_val (float_at f k) g' = p_val (getitem f k) (\<lambda>v. p_val (float_of v) g')"
  for g :: "pyfloat \<Rightarrow> ('s, 'e) stmt" and g' :: "pyfloat \<Rightarrow> ('s, 'e, 'a) prog"
  by (cases "getitem f k"; simp add: float_at_def p_val_def p_raise_def p_bind_def fun_eq_iff split: sum.split)+

locale logged_simulation = simulation R view bad
  for R :: "'s \<Rightarrow> 't \<Rightarrow> bool" and view :: "effect list \<Rightarrow> 'v list" and bad :: "exn \<Rightarrow> 's \<Rightarrow> bool" +
  assumes view_log: "is_log e \<Longrightarrow> view [e] = []"
begin

lemma log_right: "sim R view bad m m' \<Longrightarrow> is_log e \<Longrightarrow> sim R view bad m (p_block [m', p_emit e])"
proof -
  assume m: "sim R view bad m m'" and e: "is_log e"
  have "sim R view bad (p_bind m (\<lambda>_. p_skip)) (p_bind m' (\<lambda>_. p_emit e))"
    using e by (intro sim_bind m) (simp add: sim_def prog_defs view_log view_Nil)
  then show "sim R view bad m (p_block [m', p_emit e])"
    by simp
qed

lemma log_left: "sim R view bad m m' \<Longrightarrow> (\<And>x. is_log (l x)) \<Longrightarrow> sim R view bad m (p_block [p_read f (\<lambda>x. p_emit (l x)), m'])"
  by (rule sim_extra_right) (simp_all add: run_prog view_log)

lemma float_logged: "(\<And>x. sim R view bad (g x) (g' x)) \<Longrightarrow> (\<And>v. is_log (l v)) \<Longrightarrow>
    sim R view bad (p_val (float_at f k) g) (p_block [p_val (float_at f k) g', p_val (getitem f k) (\<lambda>v. p_emit (l v))])"
  by (subst float_then_item(1), subst float_then_item(2)) (intro sim_val log_right)

lemma two_floats_logged:
  assumes "\<And>x. sim R view bad (g x) (g' x)" and "\<And>x. sim R view bad (h x) (h' x)" and "\<And>u v. is_log (l u v)"
  shows "sim R view bad (p_block [p_val (float_at f k) g, p_val (float_at f k') h])
    (p_block [p_val (float_at f k) g', p_val (float_at f k') h', p_val (getitem f k) (\<lambda>u. p_val (getitem f k') (\<lambda>v. p_emit (l u v)))])"
proof (cases "getitem f k")
  case (Inl x)
  then show ?thesis
    by (simp add: float_at_def p_val_def sim_def run_prog)
next
  case (Inr a)
  have "sim R view bad (p_val (float_at f k') h) (p_block [p_val (float_at f k') h', p_val (getitem f k') (\<lambda>v. p_emit (l a v))])"
    by (rule float_logged [OF assms(2)]) (rule assms(3))+
  then have "sim R view bad (p_block [p_val (float_at f k) g, p_val (float_at f k') h])
    (p_block [p_val (float_at f k) g', p_block [p_val (float_at f k') h', p_val (getitem f k') (\<lambda>v. p_emit (l a v))]])"
    by (intro sim_intros assms(1))
  with Inr show ?thesis
    by (simp add: p_val_def)
qed

end

end
