(* ===== verification/DebugFacts.thy ===== *)
theory DebugFacts
  imports DebugStrategy LogSimulation SymbolInv
begin

text \<open>
  The debug copy does what the deployed script does, up to the quantities of the
  orders: one lemma per statement, method and event of the two scripts, in the
  locale \<open>simulation\<close> at three places: one currency, one currency next to its host,
  and the strategy next to its host.  The debug copy is excused where it stops a timer
  before any was started, which raises.
\<close>

section \<open>Up to quantities\<close>

definition noq_order :: "order \<Rightarrow> order" where
  "noq_order ord = ord\<lparr>o_quantity := f0\<rparr>"

definition noq :: "symbol_data \<Rightarrow> symbol_data" where
  "noq s = s\<lparr>sd_orders := map noq_order (sd_orders s)\<rparr>"

definition two_orders :: "symbol_data \<Rightarrow> bool" where
  "two_orders s \<longleftrightarrow> length (sd_orders s) = 2 \<and> sd_step s < 2 \<and>
     (case sd_wait_order_fill s of NewOrder \<Rightarrow> True | SlotOrder i \<Rightarrow> i < 2)"

definition same_q :: "symbol_data \<Rightarrow> symbol_data \<Rightarrow> bool" where
  "same_q s t \<longleftrightarrow> noq s = noq t \<and> two_orders s \<and> two_orders t"

text \<open>What is sent, without logs, quantities and texts.\<close>

fun strip :: "effect \<Rightarrow> effect" where
  "strip (ExecOrder ord) = ExecOrder (noq_order ord)"
| "strip (DeleteOrder ord) = DeleteOrder (noq_order ord)"
| "strip (ToWeb j) = ToWeb JNull"
| "strip (ToJournal j) = ToJournal JNull"
| "strip e = e"

definition trade_view :: "effect list \<Rightarrow> effect list" where
  "trade_view es = map strip (filter (\<lambda>e. \<not> is_log e) es)"

lemma trade_view_simps [simp]:
  "trade_view [] = []" "trade_view (e # es) = (if is_log e then trade_view es else strip e # trade_view es)"
  "trade_view (es @ fs) = trade_view es @ trade_view fs"
  by (simp_all add: trade_view_def)

text \<open>The orders in the view: those sent, without their quantities.\<close>

lemma orders_of_view: "orders_of (trade_view es) = map noq_order (orders_of es)"
  by (induction es rule: orders_of.induct) auto

lemma deleted_of_view: "deleted_of (trade_view es) = map noq_order (deleted_of es)"
  by (induction es rule: deleted_of.induct) auto

lemma view_orders:
  "trade_view es = trade_view fs \<Longrightarrow>
   map noq_order (orders_of es) = map noq_order (orders_of fs) \<and> map noq_order (deleted_of es) = map noq_order (deleted_of fs)"
  by (metis orders_of_view deleted_of_view)

subsection \<open>Related states\<close>

lemma noq_fields:
  assumes "noq s = noq t"
  shows "sd_step s = sd_step t" "sd_wait_order_fill s = sd_wait_order_fill t" "sd_fsm s = sd_fsm t"
    "sd_wait_price s = sd_wait_price t" "sd_running s = sd_running t" "sd_change_mode s = sd_change_mode t"
    "sd_counter s = sd_counter t" "sd_symbol s = sd_symbol t" "sd_price s = sd_price t" "sd_trigger s = sd_trigger t"
    "sd_trade_state s = sd_trade_state t" "sd_temp_price s = sd_temp_price t" "sd_temp_trigger s = sd_temp_trigger t"
    "sd_temp_quantity s = sd_temp_quantity t" "sd_balance s = sd_balance t" "sd_balance_usdt s = sd_balance_usdt t"
    "sd_t_commission s = sd_t_commission t" "sd_m_commission s = sd_m_commission t"
    "sd_quotePrecision s = sd_quotePrecision t" "sd_quoteAssetPrecision s = sd_quoteAssetPrecision t"
    "sd_tickSize s = sd_tickSize t" "sd_stepSize s = sd_stepSize t" "sd_minNotional s = sd_minNotional t"
    "sd_multiplierUp s = sd_multiplierUp t" "sd_multiplierDown s = sd_multiplierDown t" "sd_report s = sd_report t"
    "map noq_order (sd_orders s) = map noq_order (sd_orders t)"
  using assms by (cases s; cases t; simp add: noq_def)+

lemma same_q_fields:
  assumes "same_q s t"
  shows "sd_step s = sd_step t" "sd_wait_order_fill s = sd_wait_order_fill t" "sd_fsm s = sd_fsm t"
    "sd_wait_price s = sd_wait_price t" "sd_running s = sd_running t" "sd_change_mode s = sd_change_mode t"
    "sd_counter s = sd_counter t" "sd_symbol s = sd_symbol t" "sd_price s = sd_price t" "sd_trigger s = sd_trigger t"
    "sd_trade_state s = sd_trade_state t" "sd_temp_price s = sd_temp_price t" "sd_temp_trigger s = sd_temp_trigger t"
    "sd_temp_quantity s = sd_temp_quantity t" "sd_balance s = sd_balance t" "sd_balance_usdt s = sd_balance_usdt t"
    "sd_quotePrecision s = sd_quotePrecision t" "sd_quoteAssetPrecision s = sd_quoteAssetPrecision t"
    "sd_tickSize s = sd_tickSize t" "sd_stepSize s = sd_stepSize t" "sd_minNotional s = sd_minNotional t"
    "sd_multiplierUp s = sd_multiplierUp t" "sd_multiplierDown s = sd_multiplierDown t" "sd_report s = sd_report t"
  using assms noq_fields [of s t] by (simp_all add: same_q_def)

lemma same_q_order:
  assumes "same_q s t" and "i < 2"
  shows "noq_order (sd_orders s ! i) = noq_order (sd_orders t ! i)"
  using assms noq_fields(27) [of s t] unfolding same_q_def two_orders_def by (metis nth_map)

lemma noq_order_updates [simp]:
  "noq_order (ord\<lparr>o_quantity := q\<rparr>) = noq_order ord"
  "noq_order (ord\<lparr>o_newClientOrderId := n\<rparr>) = (noq_order ord)\<lparr>o_newClientOrderId := n\<rparr>"
  "noq_order (ord\<lparr>o_price := p\<rparr>) = (noq_order ord)\<lparr>o_price := p\<rparr>"
  by (simp_all add: noq_order_def)

lemma noq_order_fields:
  assumes "noq_order a = noq_order b"
  shows "o_symbol a = o_symbol b" "o_newClientOrderId a = o_newClientOrderId b" "o_price a = o_price b"
    "o_side a = o_side b" "o_type a = o_type b" "o_timeInForce a = o_timeInForce b"
  using assms by (cases a; cases b; simp add: noq_order_def)+

lemma same_q_current:
  assumes "same_q s t"
  shows "noq_order (current_order s) = noq_order (current_order t)"
  using same_q_order [OF assms, of "sd_step t"] same_q_fields(1) [OF assms] assms
  by (simp add: current_order_def same_q_def two_orders_def)

lemma same_q_waited:
  assumes "same_q s t"
  shows "noq_order (waited_order s) = noq_order (waited_order t)"
  using same_q_order [OF assms] same_q_fields(2) [OF assms] assms
  by (auto simp: waited_order_def deref_order_def same_q_def two_orders_def split: order_ref.splits)

lemmas same_q_name = noq_order_fields [OF same_q_current] noq_order_fields [OF same_q_waited]

text \<open>Assignments keep the relation.\<close>

lemma noq_updates [simp]:
  "noq (s\<lparr>sd_step := k\<rparr>) = (noq s)\<lparr>sd_step := k\<rparr>" "noq (s\<lparr>sd_wait_order_fill := w\<rparr>) = (noq s)\<lparr>sd_wait_order_fill := w\<rparr>"
  "noq (s\<lparr>sd_fsm := m\<rparr>) = (noq s)\<lparr>sd_fsm := m\<rparr>" "noq (s\<lparr>sd_wait_price := b\<rparr>) = (noq s)\<lparr>sd_wait_price := b\<rparr>"
  "noq (s\<lparr>sd_running := b\<rparr>) = (noq s)\<lparr>sd_running := b\<rparr>" "noq (s\<lparr>sd_change_mode := b\<rparr>) = (noq s)\<lparr>sd_change_mode := b\<rparr>"
  "noq (s\<lparr>sd_counter := c\<rparr>) = (noq s)\<lparr>sd_counter := c\<rparr>" "noq (s\<lparr>sd_price := ps\<rparr>) = (noq s)\<lparr>sd_price := ps\<rparr>"
  "noq (s\<lparr>sd_trigger := ps\<rparr>) = (noq s)\<lparr>sd_trigger := ps\<rparr>" "noq (s\<lparr>sd_trade_state := d\<rparr>) = (noq s)\<lparr>sd_trade_state := d\<rparr>"
  "noq (s\<lparr>sd_temp_price := ps\<rparr>) = (noq s)\<lparr>sd_temp_price := ps\<rparr>" "noq (s\<lparr>sd_temp_trigger := ps\<rparr>) = (noq s)\<lparr>sd_temp_trigger := ps\<rparr>"
  "noq (s\<lparr>sd_temp_quantity := x\<rparr>) = (noq s)\<lparr>sd_temp_quantity := x\<rparr>" "noq (s\<lparr>sd_balance := bal\<rparr>) = (noq s)\<lparr>sd_balance := bal\<rparr>"
  "noq (s\<lparr>sd_balance_usdt := bal\<rparr>) = (noq s)\<lparr>sd_balance_usdt := bal\<rparr>" "noq (s\<lparr>sd_t_commission := x\<rparr>) = (noq s)\<lparr>sd_t_commission := x\<rparr>"
  "noq (s\<lparr>sd_m_commission := x\<rparr>) = (noq s)\<lparr>sd_m_commission := x\<rparr>" "noq (s\<lparr>sd_quotePrecision := i\<rparr>) = (noq s)\<lparr>sd_quotePrecision := i\<rparr>"
  "noq (s\<lparr>sd_quoteAssetPrecision := i\<rparr>) = (noq s)\<lparr>sd_quoteAssetPrecision := i\<rparr>" "noq (s\<lparr>sd_tickSize := x\<rparr>) = (noq s)\<lparr>sd_tickSize := x\<rparr>"
  "noq (s\<lparr>sd_stepSize := x\<rparr>) = (noq s)\<lparr>sd_stepSize := x\<rparr>" "noq (s\<lparr>sd_minNotional := x\<rparr>) = (noq s)\<lparr>sd_minNotional := x\<rparr>"
  "noq (s\<lparr>sd_multiplierUp := j\<rparr>) = (noq s)\<lparr>sd_multiplierUp := j\<rparr>" "noq (s\<lparr>sd_multiplierDown := x\<rparr>) = (noq s)\<lparr>sd_multiplierDown := x\<rparr>"
  "noq (s\<lparr>sd_report := r\<rparr>) = (noq s)\<lparr>sd_report := r\<rparr>"
  by (simp_all add: noq_def)

lemma two_orders_updates [simp]:
  "two_orders (s\<lparr>sd_step := k\<rparr>) \<longleftrightarrow> length (sd_orders s) = 2 \<and> k < 2 \<and> (case sd_wait_order_fill s of NewOrder \<Rightarrow> True | SlotOrder i \<Rightarrow> i < 2)"
  "two_orders (s\<lparr>sd_wait_order_fill := NewOrder\<rparr>) \<longleftrightarrow> length (sd_orders s) = 2 \<and> sd_step s < 2"
  "two_orders (s\<lparr>sd_wait_order_fill := SlotOrder i\<rparr>) \<longleftrightarrow> length (sd_orders s) = 2 \<and> sd_step s < 2 \<and> i < 2"
  "two_orders (s\<lparr>sd_fsm := m\<rparr>) = two_orders s" "two_orders (s\<lparr>sd_wait_price := b\<rparr>) = two_orders s"
  "two_orders (s\<lparr>sd_running := b\<rparr>) = two_orders s" "two_orders (s\<lparr>sd_change_mode := b\<rparr>) = two_orders s"
  "two_orders (s\<lparr>sd_counter := c\<rparr>) = two_orders s" "two_orders (s\<lparr>sd_price := ps\<rparr>) = two_orders s"
  "two_orders (s\<lparr>sd_trigger := ps\<rparr>) = two_orders s" "two_orders (s\<lparr>sd_trade_state := d\<rparr>) = two_orders s"
  "two_orders (s\<lparr>sd_temp_price := ps\<rparr>) = two_orders s" "two_orders (s\<lparr>sd_temp_trigger := ps\<rparr>) = two_orders s"
  "two_orders (s\<lparr>sd_temp_quantity := x\<rparr>) = two_orders s" "two_orders (s\<lparr>sd_balance := bal\<rparr>) = two_orders s"
  "two_orders (s\<lparr>sd_balance_usdt := bal\<rparr>) = two_orders s" "two_orders (s\<lparr>sd_t_commission := x\<rparr>) = two_orders s"
  "two_orders (s\<lparr>sd_m_commission := x\<rparr>) = two_orders s" "two_orders (s\<lparr>sd_quotePrecision := i'\<rparr>) = two_orders s"
  "two_orders (s\<lparr>sd_quoteAssetPrecision := i'\<rparr>) = two_orders s" "two_orders (s\<lparr>sd_tickSize := x\<rparr>) = two_orders s"
  "two_orders (s\<lparr>sd_stepSize := x\<rparr>) = two_orders s" "two_orders (s\<lparr>sd_minNotional := x\<rparr>) = two_orders s"
  "two_orders (s\<lparr>sd_multiplierUp := j\<rparr>) = two_orders s" "two_orders (s\<lparr>sd_multiplierDown := x\<rparr>) = two_orders s"
  "two_orders (s\<lparr>sd_report := r\<rparr>) = two_orders s"
  by (simp_all add: two_orders_def)

lemma two_ordersD: "two_orders s \<Longrightarrow> length (sd_orders s) = 2" "two_orders s \<Longrightarrow> sd_step s < 2"
  by (simp_all add: two_orders_def)

text \<open>An assignment to an order.\<close>

lemma same_q_upd_order:
  assumes "same_q s t" and "i < 2" and "noq_order (f (sd_orders s ! i)) = noq_order (g (sd_orders t ! i))"
  shows "same_q (upd_order i f s) (upd_order i g t)"
  using assms noq_fields(27) [of s t]
  by (cases s; cases t) (auto simp: same_q_def noq_def upd_order_def two_orders_def map_update)

text \<open>The quantity of an order is free.\<close>

lemma upd_quantity_noq:
  "noq (upd_order i (\<lambda>ord. ord\<lparr>o_quantity := q\<rparr>) s) = noq s"
  "two_orders (upd_order i f s) = two_orders s"
  by (cases "i < length (sd_orders s)";
      simp add: noq_def upd_order_def two_orders_def map_update list_update_same_conv list_update_beyond noq_order_def)+

lemma same_q_quantity:
  "same_q s t \<Longrightarrow> same_q (upd_order i (\<lambda>ord. ord\<lparr>o_quantity := q\<rparr>) s) t"
  "same_q s t \<Longrightarrow> same_q s (upd_order i (\<lambda>ord. ord\<lparr>o_quantity := q\<rparr>) t)"
  by (simp_all add: same_q_def upd_quantity_noq)

section \<open>One currency\<close>

definition never :: "exn \<Rightarrow> 's \<Rightarrow> bool" where
  "never x s \<longleftrightarrow> False"

lemma never_simp [simp]: "\<not> never x s"
  by (simp add: never_def)

interpretation sq: logged_simulation same_q trade_view never
  by unfold_locales simp_all

abbreviation sim_q :: "(symbol_data, effect, 'a) prog \<Rightarrow> (symbol_data, effect, 'a) prog \<Rightarrow> bool" where
  "sim_q \<equiv> sim same_q trade_view never"

lemma q_upd:
  assumes "\<And>s t. \<lbrakk>noq s = noq t; two_orders s; two_orders t; sd_step s = sd_step t; sd_fsm s = sd_fsm t;
      sd_counter s = sd_counter t; sd_price s = sd_price t; sd_trade_state s = sd_trade_state t;
      sd_temp_price s = sd_temp_price t; sd_temp_trigger s = sd_temp_trigger t\<rbrakk>
    \<Longrightarrow> noq (f s) = noq (g t) \<and> two_orders (f s) \<and> two_orders (g t)"
  shows "sim_q (p_upd f) (p_upd g)"
proof (rule sq.sim_upd)
  fix s t
  assume "same_q s t"
  then show "same_q (f s) (g t)"
    using assms [of s t] same_q_fields [of s t] by (simp add: same_q_def)
qed

named_theorems q_intros \<open>statements of a currency do not depend on quantities\<close>

lemma q_assign [q_intros]:
  "sim_q (sd_set_state st) (sd_set_state st)" "sim_q (ts_set k v) (ts_set k v)" "sim_q reset_order_report reset_order_report"
  "sim_q (choose_step side) (choose_step side)"
  unfolding sd_set_state_def ts_set_def reset_order_report_def choose_step_def
  by (rule q_upd; simp add: two_orders_def)+

lemma q_assign_fields [q_intros]:
  "sim_q (p_upd (\<lambda>s. s\<lparr>sd_wait_price := b\<rparr>)) (p_upd (\<lambda>s. s\<lparr>sd_wait_price := b\<rparr>))"
  "sim_q (p_upd (\<lambda>s. s\<lparr>sd_running := b\<rparr>)) (p_upd (\<lambda>s. s\<lparr>sd_running := b\<rparr>))"
  "sim_q (p_upd (\<lambda>s. s\<lparr>sd_running := b, sd_wait_price := b'\<rparr>)) (p_upd (\<lambda>s. s\<lparr>sd_running := b, sd_wait_price := b'\<rparr>))"
  "sim_q (p_upd (\<lambda>s. s\<lparr>sd_change_mode := b\<rparr>)) (p_upd (\<lambda>s. s\<lparr>sd_change_mode := b\<rparr>))"
  "sim_q (p_upd (\<lambda>s. s\<lparr>sd_report := r\<rparr>)) (p_upd (\<lambda>s. s\<lparr>sd_report := r\<rparr>))"
  "sim_q (p_upd (\<lambda>s. s\<lparr>sd_wait_order_fill := NewOrder\<rparr>)) (p_upd (\<lambda>s. s\<lparr>sd_wait_order_fill := NewOrder\<rparr>))"
  "sim_q (p_upd (\<lambda>s. s\<lparr>sd_wait_order_fill := SlotOrder (sd_step s)\<rparr>)) (p_upd (\<lambda>s. s\<lparr>sd_wait_order_fill := SlotOrder (sd_step s)\<rparr>))"
  "sim_q (p_upd (\<lambda>s. s\<lparr>sd_price := x # sd_price s\<rparr>)) (p_upd (\<lambda>s. s\<lparr>sd_price := x # sd_price s\<rparr>))"
  "sim_q (p_upd (\<lambda>s. s\<lparr>sd_price := butlast (sd_price s)\<rparr>)) (p_upd (\<lambda>s. s\<lparr>sd_price := butlast (sd_price s)\<rparr>))"
  "sim_q (p_upd (\<lambda>s. s\<lparr>sd_tickSize := x\<rparr>)) (p_upd (\<lambda>s. s\<lparr>sd_tickSize := x\<rparr>))"
  "sim_q (p_upd (\<lambda>s. s\<lparr>sd_stepSize := x\<rparr>)) (p_upd (\<lambda>s. s\<lparr>sd_stepSize := x\<rparr>))"
  "sim_q (p_upd (\<lambda>s. s\<lparr>sd_minNotional := x\<rparr>)) (p_upd (\<lambda>s. s\<lparr>sd_minNotional := x\<rparr>))"
  "sim_q (p_upd (\<lambda>s. s\<lparr>sd_multiplierUp := j\<rparr>)) (p_upd (\<lambda>s. s\<lparr>sd_multiplierUp := j\<rparr>))"
  "sim_q (p_upd (\<lambda>s. s\<lparr>sd_multiplierDown := x\<rparr>)) (p_upd (\<lambda>s. s\<lparr>sd_multiplierDown := x\<rparr>))"
  "sim_q (p_upd (\<lambda>s. s\<lparr>sd_quotePrecision := i\<rparr>)) (p_upd (\<lambda>s. s\<lparr>sd_quotePrecision := i\<rparr>))"
  "sim_q (p_upd (\<lambda>s. s\<lparr>sd_quoteAssetPrecision := i\<rparr>)) (p_upd (\<lambda>s. s\<lparr>sd_quoteAssetPrecision := i\<rparr>))"
  "sim_q (p_upd (\<lambda>s. s\<lparr>sd_temp_quantity := x\<rparr>)) (p_upd (\<lambda>s. s\<lparr>sd_temp_quantity := x\<rparr>))"
  "sim_q (p_upd (\<lambda>s. s\<lparr>sd_temp_trigger := (sd_temp_trigger s)[n := x]\<rparr>)) (p_upd (\<lambda>s. s\<lparr>sd_temp_trigger := (sd_temp_trigger s)[n := x]\<rparr>))"
  "sim_q (p_upd (\<lambda>s. s\<lparr>sd_temp_price := (sd_temp_price s)[n := x]\<rparr>)) (p_upd (\<lambda>s. s\<lparr>sd_temp_price := (sd_temp_price s)[n := x]\<rparr>))"
  by (rule q_upd; simp add: two_ordersD)+

lemma q_next_step [q_intros]: "sim_q next_step next_step"
  unfolding next_step_def by (rule q_upd) (auto simp: two_orders_def)

lemma q_name_order [q_intros]: "sim_q name_order name_order"
  unfolding name_order_def
proof (rule sq.sim_upd)
  fix s t
  assume st: "same_q s t"
  then show "same_q (upd_order (sd_step s) (\<lambda>ord. ord\<lparr>o_newClientOrderId := order_id (sd_step s) (sd_symbol s) (sd_counter s)\<rparr>) s)
      (upd_order (sd_step t) (\<lambda>ord. ord\<lparr>o_newClientOrderId := order_id (sd_step t) (sd_symbol t) (sd_counter t)\<rparr>) t)"
    unfolding same_q_fields(1,7,8) [OF st]
    using st same_q_order [OF st, of "sd_step t"] two_ordersD(2) [of t]
    by (intro same_q_upd_order) (auto simp: same_q_def)
qed

lemma q_take_temp_data [q_intros]: "sim_q (p_upd take_temp_data) (p_upd take_temp_data)"
proof (rule sq.sim_upd)
  fix s t
  assume st: "same_q s t"
  define u v where "u = s\<lparr>sd_trigger := (sd_trigger s)[0 := sd_temp_trigger s ! 0, 1 := sd_temp_trigger s ! 1]\<rparr>"
    and "v = t\<lparr>sd_trigger := (sd_trigger t)[0 := sd_temp_trigger t ! 0, 1 := sd_temp_trigger t ! 1]\<rparr>"
  have "same_q u v"
    using st same_q_fields(10,13) [OF st] by (simp add: u_def v_def same_q_def)
  then have "same_q (upd_order 0 (\<lambda>ord. ord\<lparr>o_price := sd_temp_price t ! 0, o_quantity := sd_temp_quantity t\<rparr>) u)
      (upd_order 0 (\<lambda>ord. ord\<lparr>o_price := sd_temp_price t ! 0, o_quantity := sd_temp_quantity t\<rparr>) v)" (is "same_q ?u ?v")
    using same_q_order [of u v 0] by - (rule same_q_upd_order, auto)
  then have "same_q (upd_order 1 (\<lambda>ord. ord\<lparr>o_price := sd_temp_price t ! 1, o_quantity := sd_temp_quantity t\<rparr>) ?u)
      (upd_order 1 (\<lambda>ord. ord\<lparr>o_price := sd_temp_price t ! 1, o_quantity := sd_temp_quantity t\<rparr>) ?v)"
    using same_q_order [of ?u ?v 1] by - (rule same_q_upd_order, auto)
  then show "same_q (take_temp_data s) (take_temp_data t)"
    unfolding take_temp_data_def u_def v_def same_q_fields(12,14) [OF st] .
qed

lemma q_says [q_intros]:
  "sim_q (log_fsm f) (log_fsm f)" "sim_q (log_fsm_short f) (log_fsm_short f)" "sim_q send_trade_state send_trade_state"
  "sim_q (h_to_journal j) (h_to_journal j')" "sim_q (send_orders_change j) (send_orders_change j)"
  "sim_q dbg_log_correction log_correction"
  unfolding log_fsm_def log_fsm_short_def send_trade_state_def h_to_journal_def send_orders_change_def
    dbg_log_correction_def log_correction_def
  by (intro sim_intros sq.sim_read; simp)+

lemma q_orders [q_intros]:
  "sim_q (p_read current_order (\<lambda>ord. p_emit (ExecOrder ord))) (p_read current_order (\<lambda>ord. p_emit (ExecOrder ord)))"
  "sim_q delete_waited_order delete_waited_order"
  unfolding delete_waited_order_def
  by (intro sq.sim_read sq.sim_emit; simp add: same_q_current same_q_waited)+

lemma q_reports [q_intros]:
  "sim_q (p_read f (\<lambda>j. h_to_journal (g j))) (p_read f (\<lambda>j. h_to_journal (g j)))"
  by (intro sq.sim_read q_intros)

lemma q_reset [q_intros]: "sim_q reset reset"
  unfolding reset_def by (intro sim_intros q_intros q_upd) (simp add: two_orders_def)

text \<open>What the programs read does not depend on quantities.\<close>

lemma q_same:
  assumes "same_q s t"
  shows "report_item k s = report_item k t" "report_is st s = report_is st t" "is_trigger_in_price x s = is_trigger_in_price x t"
    "wait_order_act s = wait_order_act t" "trade_data_reply s d = trade_data_reply t d" "await_deletion_msg s = await_deletion_msg t"
    "placed_msg s = placed_msg t" "get_state (sd_fsm s) = get_state (sd_fsm t)"
    "o_newClientOrderId (current_order s) = o_newClientOrderId (current_order t)"
    "o_newClientOrderId (waited_order s) = o_newClientOrderId (waited_order t)"
  unfolding report_item_def report_is_def is_trigger_in_price_def wait_order_act_def trade_data_reply_def
    await_deletion_msg_def placed_msg_def same_q_fields [OF assms] same_q_name [OF assms]
  by (rule refl)+

lemma q_set_temp_data [q_intros]: "sim_q (set_temp_data j) (set_temp_data j)"
  unfolding set_temp_data_def by (intro sim_intros q_intros)

lemma q_trade_run_idle_stop [q_intros]: "sim_q trade_run_idle_stop trade_run_idle_stop"
  unfolding trade_run_idle_stop_def by (intro sim_intros q_intros)

lemma q_trade_run_change [q_intros]: "sim_q (trade_run_change side) (trade_run_change side)"
  unfolding trade_run_change_def
  by (intro sim_intros q_intros sq.sim_read [where f = "print_trade_pos j b" for j b]) (simp_all add: same_q_fields q_same)

subsection \<open>Commissions\<close>

text \<open>Whether rounding raises depends on the step only.\<close>

lemma round_at_step_rel: "rel_sum (=) (\<lambda>_ _. True) (round_at_step q st) (round_at_step q' st)"
  unfolding round_at_step_def Let_def by (cases "py_nth (py_split (CHR ''.'') (fmt_f st)) 1") simp_all

lemma q_correct_quantity [q_intros]: "sim_q (dbg_correct_quantity c) (correct_quantity c)"
proof (rule simI)
  fix s t
  assume st: "same_q s t"
  define s1 t1 where "s1 = upd_order (sd_step s) (\<lambda>ord. ord\<lparr>o_quantity := fsub (o_quantity (current_order s)) c\<rparr>) s"
    and "t1 = upd_order 0 (\<lambda>ord. ord\<lparr>o_quantity := fsub (o_quantity (current_order t)) c\<rparr>) t"
  have one: "same_q s1 t1"
    unfolding s1_def t1_def by (intro same_q_quantity st)
  have step: "sd_stepSize s1 = sd_stepSize t1"
    using same_q_fields [OF one] by simp
  show "excused never (dbg_correct_quantity c s) \<or> matches same_q trade_view (dbg_correct_quantity c s) (correct_quantity c t)"
    using round_at_step_rel [of "o_quantity (current_order s1)" "sd_stepSize s1" "o_quantity (sd_orders t1 ! 0)"] one
    unfolding dbg_correct_quantity_def correct_quantity_def
    by (auto simp: run_prog s1_def [symmetric] t1_def [symmetric] step split: sum.split elim!: rel_sum.cases intro!: same_q_quantity)
qed

lemma q_settle_commission [q_intros]: "sim_q dbg_settle_commission settle_commission"
  unfolding dbg_settle_commission_def settle_commission_def dbg_apply_commission_def apply_commission_def
  by (intro sim_intros q_intros) (simp_all add: q_same)

lemma q_exchange_info [q_intros]: "sim_q (dbg_sd_on_exchange_info j) (sd_on_exchange_info j)"
  unfolding dbg_sd_on_exchange_info_def sd_on_exchange_info_def
  by (intro sq.sim_block sq.sim_val sq.sim_for sq.sim_If q_intros sq.log_left sq.float_logged sq.two_floats_logged sq.sim_silent; simp)

lemma q_trade_steps [q_intros]: "sim_q sd_get_trade_steps sd_get_trade_steps"
  unfolding sd_get_trade_steps_def by (intro sim_intros q_intros) (simp add: same_q_fields)

section \<open>One currency next to its host\<close>

definition same_qh :: "dbg_host \<times> symbol_data \<Rightarrow> symbol_data \<Rightarrow> bool" where
  "same_qh p t \<longleftrightarrow> same_q (snd p) t"

definition no_timer :: "exn \<Rightarrow> dbg_host \<times> 's \<Rightarrow> bool" where
  "no_timer x p \<longleftrightarrow> x = AttributeError \<and> \<not> timer_started (fst p)"

interpretation sh: simulation same_qh trade_view no_timer
  by unfold_locales simp

abbreviation sim_h :: "(dbg_host \<times> symbol_data, effect, 'a) prog \<Rightarrow> (symbol_data, effect, 'a) prog \<Rightarrow> bool" where
  "sim_h \<equiv> sim same_qh trade_view no_timer"

named_theorems h_intros \<open>statements and methods of a currency of the debug copy\<close>

lemma h_self [h_intros]:
  assumes "sim_q m m'"
  shows "sim_h (self m) m'"
proof (rule simI)
  fix p t
  assume "same_qh p t"
  then have "same_q (snd p) t"
    by (simp add: same_qh_def)
  from assms this show "excused no_timer (self m p) \<or> matches same_qh trade_view (self m p) (m' t)"
    by (cases rule: simE) (simp_all add: self_def p_lift_def same_qh_def)
qed

lemma h_statements [h_intros]:
  "sim_h (dbg_set_state st) (sd_set_state st)" "sim_h (dbg_ts_set k v) (ts_set k v)" "sim_h dbg_send_trade_state send_trade_state"
  "sim_h (dbg_h_to_journal j) (h_to_journal j)" "sim_h (dbg_log_fsm f) (log_fsm f)"
  unfolding dbg_set_state_def dbg_ts_set_def dbg_send_trade_state_def dbg_h_to_journal_def dbg_log_fsm_def
  by (intro h_self q_intros)+

lemma h_stop_timer [h_intros]: "sim_h dbg_h_stop_timer stop_compl_timer"
proof (rule simI)
  fix p t
  assume "same_qh p t"
  then obtain h s where p: "p = (h, s)" "same_q s t"
    by (cases p) (auto simp: same_qh_def)
  then show "excused no_timer (dbg_h_stop_timer p) \<or> matches same_qh trade_view (dbg_h_stop_timer p) (stop_compl_timer t)"
    using same_q_fields(8) [OF p(2)]
    by (cases "db_timer h") (simp_all add: dbg_h_stop_timer_def stop_compl_timer_def p_read_def p_emit_def on_host_def p_lift_def
        stop_timer_run no_timer_def timer_started_def same_qh_def)
qed

lemma h_start_timer [h_intros]: "sim_h (dbg_h_start_timer k) (p_read sd_symbol (\<lambda>sym. p_emit (StartTimer (compl_timer sym) k)))"
  by (rule simI) (auto simp: dbg_h_start_timer_def p_read_def p_emit_def on_host_def p_lift_def start_timer_run same_qh_def
      same_q_fields split_beta)

lemma h_same:
  assumes "same_qh p t"
  shows "(case p of (h, s) \<Rightarrow> report_item k s) = report_item k t" "(case p of (h, s) \<Rightarrow> report_is st s) = report_is st t"
    "(case p of (h, s) \<Rightarrow> is_trigger_in_price (sd_trigger s ! sd_step s) s) = is_trigger_in_price (sd_trigger t ! sd_step t) t"
    "(case p of (h, s) \<Rightarrow> wait_order_act s) = wait_order_act t" "(case p of (h, s) \<Rightarrow> trade_data_reply s d) = trade_data_reply t d"
    "(case p of (h, s) \<Rightarrow> await_deletion_msg s) = await_deletion_msg t" "(case p of (h, s) \<Rightarrow> sd_fsm s) = sd_fsm t"
    "(case p of (h, s) \<Rightarrow> sd_change_mode s) = sd_change_mode t" "(case p of (h, s) \<Rightarrow> sd_wait_price s) = sd_wait_price t"
    "(case p of (h, s) \<Rightarrow> \<not> sd_running s) = (\<not> sd_running t)"
  using assms q_same [of "snd p" t] same_q_fields [of "snd p" t] by (auto simp: same_qh_def split_beta)

subsection \<open>Handlers\<close>

lemma h_fsm_ready [h_intros]: "sim_h dbg_fsm_ready fsm_ready"
  unfolding dbg_fsm_ready_def fsm_ready_def by (intro sim_intros h_intros)

lemma h_fsm_wait_price: "sim_h go go' \<Longrightarrow> sim_h (dbg_fsm_wait_price go) (fsm_wait_price go')"
  unfolding dbg_fsm_wait_price_def fsm_wait_price_def by (intro sim_intros h_intros q_intros h_same)

lemma h_fsm_in_price: "sim_h dbg_fsm_in_price fsm_in_price"
  unfolding dbg_fsm_in_price_def fsm_in_price_def
  by (intro sim_intros h_intros q_intros) (auto simp: same_qh_def same_q_fields q_same)

lemma h_fsm_wait_order_compl: "sim_h dbg_fsm_wait_order_compl fsm_wait_order_compl"
  unfolding dbg_fsm_wait_order_compl_def fsm_wait_order_compl_def Let_def
  by (intro sim_intros h_intros q_intros h_same) (simp_all add: no_timer_def is_key_error_def)

lemma h_fsm_wait_order_fill: "sim_h dbg_fsm_wait_order_fill fsm_wait_order_fill"
  unfolding dbg_fsm_wait_order_fill_def fsm_wait_order_fill_def Let_def
  by (intro sim_intros h_intros q_intros h_same) (auto simp: same_qh_def same_q_fields)

lemma h_fsm_wait_order_del: "sim_h go go' \<Longrightarrow> sim_h (dbg_fsm_wait_order_del go) (fsm_wait_order_del go')"
  unfolding dbg_fsm_wait_order_del_def fsm_wait_order_del_def
  by (intro sim_intros h_intros q_intros h_same) (auto simp: same_qh_def q_same)

lemma h_fsm_resume: "sim_h dbg_fsm_resume fsm_resume"
  unfolding dbg_fsm_resume_def fsm_resume_def
  by (intro sim_intros h_intros q_intros) (auto simp: same_qh_def same_q_fields)

lemma h_exec: "sim_h go go' \<Longrightarrow> sim_h (dbg_exec go x u) (sd_exec go' x u)"
  by (cases x) (simp_all add: h_fsm_ready h_fsm_wait_price h_fsm_in_price h_fsm_wait_order_compl h_fsm_wait_order_fill
      h_fsm_wait_order_del h_fsm_resume)

lemma h_run: "sim_h (dbg_run n) (sd_run n)"
proof (induction n)
  case 0
  then show ?case
    by (simp add: sim_def fun_eq_iff)
next
  case (Suc n)
  have "sd_run (Suc n) = run sd_fsm (sd_exec (sd_run n)) ()"
    "dbg_run (Suc n) = run (\<lambda>(h, s). sd_fsm s) (dbg_exec (dbg_run n)) ()"
    by (simp_all add: fun_eq_iff)
  then show ?case
    by (simp only:) (intro sh.sim_run h_same h_exec Suc.IH)
qed

lemma h_fsm_run [h_intros]: "sim_h dbg_fsm_run sd_fsm_run"
  unfolding dbg_fsm_run_def sd_fsm_run_def by (rule h_run)

subsection \<open>Events\<close>

lemma h_on_trade_data [h_intros]: "sim_h (dbg_sd_on_trade_data j) (sd_on_trade_data j)"
  unfolding dbg_sd_on_trade_data_def sd_on_trade_data_def Let_def
  by (cases j; simp only: json.case; intro sim_intros h_intros q_intros h_same; simp add: no_timer_def is_key_error_def)

lemma h_trade_run_start [h_intros]: "sim_h (dbg_trade_run_start side) (trade_run_start side)"
  unfolding dbg_trade_run_start_def trade_run_start_def
  by (intro sim_intros h_intros q_intros) (auto simp: same_qh_def same_q_fields)

lemma h_trade_run_stop [h_intros]: "sim_h dbg_trade_run_stop trade_run_stop"
  unfolding dbg_trade_run_stop_def trade_run_stop_def
  by (intro sim_intros h_intros q_intros h_same) (auto simp: same_qh_def same_q_fields)

lemma h_on_trade_run [h_intros]: "sim_h (dbg_sd_on_trade_run j) (sd_on_trade_run j)"
  unfolding dbg_sd_on_trade_run_def sd_on_trade_run_def Let_def
  by (intro sim_intros h_intros q_intros h_same)

lemma h_on_price [h_intros]: "sim_h (dbg_sd_on_price j) (sd_on_price j)"
  unfolding dbg_sd_on_price_def sd_on_price_def
  by (intro sim_intros h_intros q_intros h_same) (simp add: same_q_fields)

lemma h_on_order_report [h_intros]: "sim_h (dbg_sd_on_order_report j) (sd_on_order_report j)"
  unfolding dbg_sd_on_order_report_def sd_on_order_report_def
  by (intro sim_intros h_intros q_intros) (auto simp: same_qh_def same_q_fields)

lemma h_on_timeout [h_intros]: "sim_h dbg_sd_on_order_complete_timeout sd_on_order_complete_timeout"
  unfolding dbg_sd_on_order_complete_timeout_def sd_on_order_complete_timeout_def
  by (intro sim_intros h_intros q_intros) (auto simp: same_qh_def same_q_fields)

section \<open>The strategy\<close>

definition same_st :: "strategy \<Rightarrow> strategy \<Rightarrow> bool" where
  "same_st s t \<longleftrightarrow> st_account s = st_account t \<and> st_report s = st_report t \<and>
     list_all2 (rel_prod (=) same_q) (st_symbol_data s) (st_symbol_data t)"

lemma same_dict_keys: "list_all2 (rel_prod (=) R) d d' \<Longrightarrow> map fst d = map fst d'"
  by (induction rule: list_all2_induct) auto

lemma same_dict_get:
  assumes "list_all2 (rel_prod (=) R) d d'"
  shows "rel_option R (map_of d k) (map_of d' k)"
  using assms by (induction rule: list_all2_induct) auto

lemma same_dict_set:
  "list_all2 (rel_prod (=) R) d d' \<Longrightarrow> R x y \<Longrightarrow> list_all2 (rel_prod (=) R) (dict_set k x d) (dict_set k y d')"
  by (induction rule: list_all2_induct) (auto simp: dict_set_def)

lemma same_stI: "same_st s t \<Longrightarrow> same_q x y \<Longrightarrow>
    same_st (s\<lparr>st_symbol_data := dict_set k x (st_symbol_data s)\<rparr>) (t\<lparr>st_symbol_data := dict_set k y (st_symbol_data t)\<rparr>)"
  by (simp add: same_st_def same_dict_set)

lemma same_st_keys: "same_st s t \<Longrightarrow> map fst (st_symbol_data s) = map fst (st_symbol_data t)"
  unfolding same_st_def by (blast dest: same_dict_keys)

lemma dict_has_keys: "dict_has d k \<longleftrightarrow> k \<in> set (map fst d)"
  by (simp add: dict_has_def map_of_eq_None_iff)

lemma same_st_known: "same_st s t \<Longrightarrow> in_dict j (st_symbol_data s) = in_dict j (st_symbol_data t)"
  by (cases j) (simp_all add: dict_has_keys same_st_keys del: set_map)

interpretation ss: simulation same_st trade_view never
  by unfold_locales simp

abbreviation sim_s :: "(strategy, effect, 'a) prog \<Rightarrow> (strategy, effect, 'a) prog \<Rightarrow> bool" where
  "sim_s \<equiv> sim same_st trade_view never"

lemma s_on_symbol:
  assumes "sim_q m m'"
  shows "sim_s (on_symbol k m) (on_symbol k m')"
proof (rule simI)
  fix s t
  assume st: "same_st s t"
  then have "rel_option same_q (map_of (st_symbol_data s) k) (map_of (st_symbol_data t) k)"
    by (simp add: same_st_def same_dict_get)
  then show "excused never (on_symbol k m s) \<or> matches same_st trade_view (on_symbol k m s) (on_symbol k m' t)"
  proof (cases rule: option.rel_cases)
    case None
    with st show ?thesis
      by (simp add: on_symbol_def)
  next
    case (Some x y)
    from assms Some(3) show ?thesis
      by (cases rule: simE) (simp_all add: on_symbol_def Some(1,2) same_stI [OF st])
  qed
qed

lemma s_if_known:
  "(\<And>k. sim_s (act k) (act' k)) \<Longrightarrow> sim_s other other' \<Longrightarrow> sim_s (if_known j act other) (if_known j act' other')"
  unfolding if_known_def by (intro sim_intros same_st_known)

lemma s_logs: "sim_s (log_func f) (log_func f)" "sim_s (log_text m) (log_text m)"
  unfolding log_func_def log_text_def by (intro sim_intros; simp)+

lemma s_assign_balance:
  "sim_s (sd_assign k (\<lambda>sd. sd\<lparr>sd_balance := (sd_balance sd)\<lparr>b_free := x\<rparr>\<rparr>)) (sd_assign k (\<lambda>sd. sd\<lparr>sd_balance := (sd_balance sd)\<lparr>b_free := x\<rparr>\<rparr>))"
  "sim_s (sd_assign k (\<lambda>sd. sd\<lparr>sd_balance := (sd_balance sd)\<lparr>b_locked := x\<rparr>\<rparr>)) (sd_assign k (\<lambda>sd. sd\<lparr>sd_balance := (sd_balance sd)\<lparr>b_locked := x\<rparr>\<rparr>))"
  "sim_s (sd_assign k (\<lambda>sd. sd\<lparr>sd_balance_usdt := (sd_balance_usdt sd)\<lparr>b_free := x\<rparr>\<rparr>)) (sd_assign k (\<lambda>sd. sd\<lparr>sd_balance_usdt := (sd_balance_usdt sd)\<lparr>b_free := x\<rparr>\<rparr>))"
  "sim_s (sd_assign k (\<lambda>sd. sd\<lparr>sd_balance_usdt := (sd_balance_usdt sd)\<lparr>b_locked := x\<rparr>\<rparr>)) (sd_assign k (\<lambda>sd. sd\<lparr>sd_balance_usdt := (sd_balance_usdt sd)\<lparr>b_locked := x\<rparr>\<rparr>))"
  "sim_s (sd_assign k (\<lambda>sd. sd\<lparr>sd_t_commission := x\<rparr>)) (sd_assign k (\<lambda>sd. sd\<lparr>sd_t_commission := x\<rparr>))"
  "sim_s (sd_assign k (\<lambda>sd. sd\<lparr>sd_m_commission := x\<rparr>)) (sd_assign k (\<lambda>sd. sd\<lparr>sd_m_commission := x\<rparr>))"
  unfolding sd_assign_def
  by (intro s_on_symbol sq.sim_upd; simp add: same_q_def; metis noq_fields(15,16))+

lemma s_update_balances:
  "sim_s (update_balances fmt j kb ka kt km kf kl) (update_balances fmt' j kb ka kt km kf kl)"
proof -
  have log: "sim_s (on_symbol k (p_read f (\<lambda>args. p_emit (ToLog (JFmt fmt args)))))
      (on_symbol k (p_read g (\<lambda>args. p_emit (ToLog (JFmt fmt' args)))))" for k f g fmt fmt'
    by (intro s_on_symbol sq.sim_read sq.sim_emit) simp
  show ?thesis
    unfolding update_balances_def own_balance_def usdt_balance_def set_commission_def
    by (intro sim_intros s_if_known s_assign_balance log same_st_keys; simp)
qed

section \<open>The strategy next to its host\<close>

definition same_dbg :: "debug \<Rightarrow> strategy \<Rightarrow> bool" where
  "same_dbg d t \<longleftrightarrow> same_st (snd d) t"

interpretation sd: simulation same_dbg trade_view no_timer
  by unfold_locales simp

abbreviation sim_d :: "(debug, effect, 'a) prog \<Rightarrow> (strategy, effect, 'a) prog \<Rightarrow> bool" where
  "sim_d \<equiv> sim same_dbg trade_view no_timer"

lemma d_self:
  assumes "sim_s m m'"
  shows "sim_d (self m) m'"
proof (rule simI)
  fix p t
  assume "same_dbg p t"
  then have "same_st (snd p) t"
    by (simp add: same_dbg_def)
  from assms this show "excused no_timer (self m p) \<or> matches same_dbg trade_view (self m p) (m' t)"
    by (cases rule: simE) (simp_all add: self_def p_lift_def same_dbg_def)
qed

lemma d_on_symbol:
  assumes "sim_h m m'"
  shows "sim_d (dbg_on_symbol k m) (on_symbol k m')"
proof (rule simI)
  fix p t
  assume "same_dbg p t"
  then obtain h s where p: "p = (h, s)" "same_st s t"
    by (cases p) (auto simp: same_dbg_def)
  then have "rel_option same_q (map_of (st_symbol_data s) k) (map_of (st_symbol_data t) k)"
    by (simp add: same_st_def same_dict_get)
  then show "excused no_timer (dbg_on_symbol k m p) \<or> matches same_dbg trade_view (dbg_on_symbol k m p) (on_symbol k m' t)"
  proof (cases rule: option.rel_cases)
    case None
    with p show ?thesis
      by (simp add: on_symbol_def dbg_on_symbol_def same_dbg_def)
  next
    case (Some x y)
    then have "same_qh (h, x) y"
      by (simp add: same_qh_def)
    from assms this show ?thesis
      by (cases rule: simE) (auto simp: on_symbol_def dbg_on_symbol_def p(1) Some(1,2) same_dbg_def same_stI [OF p(2)] same_qh_def
          no_timer_def split_beta)
  qed
qed

lemma d_if_known:
  "(\<And>k. sim_d (act k) (act' k)) \<Longrightarrow> sim_d other other' \<Longrightarrow> sim_d (dbg_if_known j act other) (if_known j act' other')"
  unfolding dbg_if_known_def if_known_def
  by (intro sim_intros) (auto simp: same_dbg_def same_st_known split_beta)

lemma d_try: "\<not> Q AttributeError \<Longrightarrow> sim_d m m' \<Longrightarrow> sim_d h h' \<Longrightarrow> sim_d (p_try Q m h) (p_try Q m' h')"
  by (rule sd.sim_try) (auto simp: no_timer_def)

lemma same_q_new: "same_q (SymbolData k) (SymbolData k)"
  by (simp add: same_q_def two_orders_def SymbolData_def)

lemma d_create_timer: "sim_d (on_host (dbg_create_timer n k)) (p_emit (CreateTimer n))"
  by (rule simI) (simp add: on_host_def p_lift_def create_timer_run p_emit_def same_dbg_def)

lemma d_on_symbols_list: "sim_d (dbg_on_symbols_list ks) (st_on_symbols_list ks)"
  unfolding dbg_on_symbols_list_def st_on_symbols_list_def
  by (intro sim_intros d_self s_logs d_create_timer same_stI same_q_new)

lemmas d_intros = d_self d_on_symbol d_if_known d_try s_logs s_update_balances

lemma names_no_attribute [simp]: "\<not> is_key_error AttributeError" "\<not> is_json_error AttributeError"
  by (simp_all add: is_key_error_def is_json_error_def)

lemma d_emit_log: "sim_d (p_emit (ToLog j)) (p_emit (ToLog j'))"
  by (intro sim_intros) simp

lemma d_get_trade_steps: "sim_d (dbg_get_trade_steps k) (st_get_trade_steps k)"
  unfolding dbg_get_trade_steps_def st_get_trade_steps_def
  by (intro sim_intros d_self s_logs s_on_symbol q_intros) (simp add: dict_has_keys same_st_keys del: set_map)

lemma d_trade_state: "sim_d (dbg_on_get_trade_state k) (st_on_get_trade_state k)"
  unfolding dbg_on_get_trade_state_def st_on_get_trade_state_def
  by (intro sd.sim_block d_emit_log d_if_known d_on_symbol sd.sim_silent sh.sim_read sh.sim_emit) simp

lemma d_exchange_filters: "sim_s st_get_exchange_info st_get_exchange_info"
  unfolding st_get_exchange_info_def
  by (intro ss.sim_block s_logs ss.sim_read ss.sim_emit) simp

lemma d_messages:
  "sim_d (dbg_on_trade_data t) (st_on_trade_data t)"
  "sim_d (dbg_on_account t) (st_on_account t)"
  "sim_d (dbg_on_balance t) (st_on_balance t)"
  "sim_d (dbg_on_exchange_info t) (st_on_exchange_info t)"
  "sim_d (dbg_on_wss_data t) (st_on_wss_data t)"
  "sim_d (dbg_on_order_report t) (st_on_order_report t)"
  "sim_d (dbg_on_price t) (st_on_price t)"
  "sim_d (dbg_on_trade_run t) (st_on_trade_run t)"
  unfolding dbg_on_trade_data_def st_on_trade_data_def dbg_on_account_def st_on_account_def dbg_on_balance_def st_on_balance_def
    dbg_on_exchange_info_def st_on_exchange_info_def dbg_on_wss_data_def st_on_wss_data_def
    dbg_on_order_report_def st_on_order_report_def dbg_on_price_def st_on_price_def dbg_on_trade_run_def st_on_trade_run_def
  by (intro sd.sim_block sd.sim_val sd.sim_sum sd.sim_for sd.sim_If sd.sim_silent d_intros d_emit_log h_intros q_intros names_no_attribute)+

lemma d_message:
  assumes "debug_message ev = Some ev'"
  shows "sim_d (dbg_handle ev') (st_handle ev)"
  using assms by (cases ev) (auto simp: d_messages d_on_symbols_list d_trade_state dbg_get_exchange_info_def intro: d_self d_exchange_filters)

end
