(* ===== verification/Packaged.thy ===== *)
theory Packaged
  imports DebugFacts
begin

text \<open>
  The copy of the script in the package, distrib/bibot-deb/usr/local/bin/mstrategy.py.
  Its text is that of mstrategy.py but for two methods: the filters of the exchange are
  not logged, and \<open>on_account\<close> logs another text.  The methods that are the same, or
  differ in what they call only, are those of \<open>MStrategy\<close>.  The copy leaves the same states as
  the script and sends the same, logs apart.
\<close>

definition pkg_sd_on_exchange_info :: "json \<Rightarrow> sd_act" where
  "pkg_sd_on_exchange_info json_info = p_block [
     p_val (bind_sum (getitem json_info ''quotePrecision'') int_of) (\<lambda>i.
       p_upd (\<lambda>s. s\<lparr>sd_quotePrecision := i\<rparr>)),
     p_val (bind_sum (getitem json_info ''quoteAssetPrecision'') int_of) (\<lambda>i.
       p_upd (\<lambda>s. s\<lparr>sd_quoteAssetPrecision := i\<rparr>)),
     p_val (getitem json_info ''filters'') (\<lambda>filters. p_val (py_iter filters) (\<lambda>fs. p_for fs (\<lambda>f.
       p_val (getitem f ''filterType'') (\<lambda>ft.
         if ft = JStr ''PRICE_FILTER'' then
           p_val (float_at f ''tickSize'') (\<lambda>x. p_upd (\<lambda>s. s\<lparr>sd_tickSize := x\<rparr>))
         else if ft = JStr ''LOT_SIZE'' then
           p_val (float_at f ''stepSize'') (\<lambda>x. p_upd (\<lambda>s. s\<lparr>sd_stepSize := x\<rparr>))
         else if ft = JStr ''PERCENT_PRICE'' then p_block [
           p_val (float_at f ''multiplierUp'') (\<lambda>x. p_upd (\<lambda>s. s\<lparr>sd_multiplierUp := JFloat x\<rparr>)),
           p_val (float_at f ''multiplierDown'') (\<lambda>x. p_upd (\<lambda>s. s\<lparr>sd_multiplierDown := x\<rparr>))]
         else if ft = JStr ''MIN_NOTIONAL'' then
           p_val (float_at f ''minNotional'') (\<lambda>x. p_upd (\<lambda>s. s\<lparr>sd_minNotional := x\<rparr>))
         else p_skip))))]"

definition pkg_on_account :: "string \<Rightarrow> st_act" where
  "pkg_on_account acc = p_block [
     log_func ''on_account'',
     (case json_loads acc of
        Inl err \<Rightarrow> log_text ''JSON error in the REST_API account''
      | Inr jacc \<Rightarrow> p_block [
          log_text ''REST_API account format'',
          p_try is_key_error
            (update_balances ''Balance : {} free {} / locked {}'' jacc ''balances'' ''asset'' ''takerCommission''
              ''makerCommission'' ''free'' ''locked'')
            (log_text ''Key error in the REST_API account'')])]"

definition pkg_on_exchange_info :: "string \<Rightarrow> st_act" where
  "pkg_on_exchange_info info = p_block [
     log_func ''on_exchange_info'',
     (case json_loads info of
        Inl err \<Rightarrow> log_text ''JSON error in EXCHANGE INFO''
      | Inr json_info \<Rightarrow>
          p_val (getitem json_info ''symbols'') (\<lambda>symbols. p_val (py_iter symbols) (\<lambda>ss. p_for ss (\<lambda>symbol.
            p_val (getitem symbol ''quoteAsset'') (\<lambda>qa.
              if qa \<noteq> JStr ''USDT'' then p_skip
              else p_val (getitem symbol ''baseAsset'') (\<lambda>s.
                if_known s (\<lambda>k. on_symbol k (pkg_sd_on_exchange_info symbol)) p_skip))))))]"

fun pkg_handle :: "st_event \<Rightarrow> st_act" where
  "pkg_handle (AccountMsg d) = pkg_on_account d"
| "pkg_handle (ExchangeInfoMsg d) = pkg_on_exchange_info d"
| "pkg_handle ev = st_handle ev"

section \<open>The same without logs\<close>

definition unlogged :: "effect list \<Rightarrow> effect list" where
  "unlogged es = filter (\<lambda>e. \<not> is_log e) es"

lemma unlogged_simps [simp]:
  "unlogged [] = []" "unlogged (e # es) = (if is_log e then unlogged es else e # unlogged es)"
  "unlogged (es @ fs) = unlogged es @ unlogged fs"
  by (simp_all add: unlogged_def)

interpretation quiet: logged_simulation "(=)" unlogged never
  by unfold_locales simp_all

abbreviation alike :: "('s, effect, 'a) prog \<Rightarrow> ('s, effect, 'a) prog \<Rightarrow> bool" where
  "alike \<equiv> sim (=) unlogged never"

lemma alike_refl: "alike m m"
  by (simp add: sim_def matches_def)

lemma alike_on_symbol:
  assumes "alike m m'"
  shows "alike (on_symbol k m) (on_symbol k m')"
proof (rule simI)
  fix s t :: strategy
  assume "s = t"
  with assms show "excused never (on_symbol k m s) \<or> matches (=) unlogged (on_symbol k m s) (on_symbol k m' t)"
    by (auto simp: sim_def excused_def matches_def on_symbol_def split_beta split: option.split)
qed

lemma alike_known: "(\<And>k. alike (act k) (act' k)) \<Longrightarrow> alike other other' \<Longrightarrow> alike (if_known j act other) (if_known j act' other')"
  unfolding if_known_def by (intro quiet.sim_read_same quiet.sim_val quiet.sim_If) simp_all

lemma alike_filters: "alike (pkg_sd_on_exchange_info j) (sd_on_exchange_info j)"
  unfolding pkg_sd_on_exchange_info_def sd_on_exchange_info_def
  by (intro quiet.sim_block quiet.sim_val quiet.sim_for quiet.sim_If quiet.log_left quiet.float_logged quiet.two_floats_logged
      quiet.sim_silent alike_refl; simp)

lemma alike_exchange_info: "alike (pkg_on_exchange_info t) (st_on_exchange_info t)"
  unfolding pkg_on_exchange_info_def st_on_exchange_info_def
  by (intro quiet.sim_block quiet.sim_val quiet.sim_sum quiet.sim_for quiet.sim_If alike_known alike_on_symbol alike_filters alike_refl)

lemma alike_balances: "alike (update_balances fmt j kb ka kt km kf kl) (update_balances fmt' j kb ka kt km kf kl)"
proof -
  have "alike (on_symbol k (p_read f (\<lambda>args. p_emit (ToLog (JFmt fmt args)))))
      (on_symbol k (p_read f (\<lambda>args. p_emit (ToLog (JFmt fmt' args)))))" for k f
    by (intro alike_on_symbol quiet.sim_read_same quiet.sim_emit) simp_all
  then show ?thesis
    unfolding update_balances_def own_balance_def
    by (intro quiet.sim_block quiet.sim_val quiet.sim_for alike_known alike_refl)
qed

lemma alike_account: "alike (pkg_on_account t) (st_on_account t)"
  unfolding pkg_on_account_def st_on_account_def
  by (intro quiet.sim_block quiet.sim_sum quiet.sim_try alike_balances alike_refl) simp

lemma alike_event: "alike (pkg_handle ev) (st_handle ev)"
  by (cases ev) (simp_all add: alike_refl alike_account alike_exchange_info)

text \<open>C27. The packaged script is the script: whatever events both get, from the same state they leave the same state and
  send, place, delete, start and stop the same, in the same order; only what they log differs.\<close>

theorem pkg_same_script:
  "fst (run_events pkg_handle evs s) = fst (run_events st_handle evs s) \<and>
   unlogged (snd (run_events pkg_handle evs s)) = unlogged (snd (run_events st_handle evs s))"
  using quiet.sim_run_events [of evs pkg_handle st_handle id "\<lambda>s. True" s s] alike_event
  by (simp add: excused_def)

end
