(* ===== verification/DebugProps.thy ===== *)
theory DebugProps
  imports DebugFacts SymbolBehaviour
begin

text \<open>
  The properties of the debug copy: it trades as the deployed script does, up to the
  quantities of the orders, once its host has started a timer; and what its events keep of the
  host.
\<close>

section \<open>The host\<close>

text \<open>What the three ways in which a currency uses its host keep, every event but a new list of
  symbols keeps.\<close>

abbreviation keeps_host :: "(dbg_host \<Rightarrow> bool) \<Rightarrow> (dbg_host \<times> 's, effect, 'a) prog \<Rightarrow> bool" where
  "keeps_host I \<equiv> keeps (\<lambda>p. I (fst p))"

lemma keeps_json: "(\<And>d. keeps I (c d)) \<Longrightarrow> keeps I (case j of JObj d \<Rightarrow> c d | _ \<Rightarrow> p_raise x)"
  by (cases j) (simp_all add: keeps_raise)

lemma keeps_host_self: "keeps_host I (self m)"
  by (simp add: keeps_def self_def p_lift_def split_beta)

lemma keeps_host_on_host: "keeps I m \<Longrightarrow> keeps_host I (on_host m)"
  by (simp add: keeps_def on_host_def p_lift_def split_beta)

lemma keeps_host_on_symbol: "keeps_host I m \<Longrightarrow> keeps_host I (dbg_on_symbol k m)"
  by (auto simp: keeps_def dbg_on_symbol_def split_beta split: option.split)

lemma keeps_host_known:
  "(\<And>k. keeps_host I (act k)) \<Longrightarrow> keeps_host I other \<Longrightarrow> keeps_host I (dbg_if_known j act other)"
  unfolding dbg_if_known_def by (intro keeps_intros)

fun lists_symbols :: "dbg_event \<Rightarrow> bool" where
  "lists_symbols (DbgSymbolsList ss) = True"
| "lists_symbols _ = False"

locale host_invariant =
  fixes I :: "dbg_host \<Rightarrow> bool"
  assumes start: "I h \<Longrightarrow> I (state_of (dbg_start_timer name k h))"
    and stop: "I h \<Longrightarrow> I (state_of (dbg_stop_timer name h))"
    and ends: "I h \<Longrightarrow> I (thread_ends i h)"
begin

lemma uses_host:
  "keeps_host I (on_host (dbg_stop_timer name))" "keeps_host I (on_host (dbg_start_timer name k))"
  "keeps_host I (on_host (p_upd (thread_ends i)))"
  by (intro keeps_host_on_host keepsI keeps_upd start stop ends; assumption)+

lemmas statements = keeps_host_self uses_host keeps_host_on_symbol keeps_host_known keeps_json

lemma exec_keeps:
  assumes "keeps_host I go"
  shows "keeps_host I (dbg_exec go x u)"
  by (cases x; simp only: dbg_exec.simps dbg_fsm_ready_def dbg_fsm_wait_price_def dbg_fsm_in_price_def
      dbg_fsm_wait_order_compl_def dbg_fsm_wait_order_fill_def dbg_fsm_wait_order_del_def dbg_fsm_resume_def Let_def
      dbg_set_state_def dbg_ts_set_def dbg_send_trade_state_def dbg_h_to_journal_def dbg_log_fsm_def dbg_h_stop_timer_def
      dbg_h_start_timer_def; intro keeps_intros statements assms)

lemma run_keeps: "keeps_host I (dbg_run n)"
proof (induction n)
  case 0
  then show ?case
    by (simp add: keeps_def)
next
  case (Suc n)
  have "dbg_run (Suc n) = run (\<lambda>(h, s). sd_fsm s) (dbg_exec (dbg_run n)) ()"
    by (simp add: fun_eq_iff)
  then show ?case
    by (simp only:) (intro keeps_run exec_keeps Suc.IH)
qed

lemma fsm_run_keeps: "keeps_host I dbg_fsm_run"
  unfolding dbg_fsm_run_def by (rule run_keeps)

lemma symbol_keeps:
  "keeps_host I (dbg_sd_on_trade_data j)" "keeps_host I (dbg_sd_on_trade_run j)" "keeps_host I (dbg_sd_on_price j)"
  "keeps_host I (dbg_sd_on_order_report j)" "keeps_host I dbg_sd_on_order_complete_timeout"
  unfolding dbg_sd_on_trade_data_def dbg_sd_on_trade_run_def dbg_trade_run_start_def dbg_trade_run_stop_def dbg_sd_on_price_def
    dbg_sd_on_order_report_def dbg_sd_on_order_complete_timeout_def dbg_set_state_def dbg_ts_set_def
    dbg_send_trade_state_def dbg_h_to_journal_def dbg_log_fsm_def Let_def
  by (intro keeps_intros statements fsm_run_keeps)+

lemma event_keeps: "\<not> lists_symbols ev \<Longrightarrow> keeps_host I (dbg_handle ev)"
  by (cases ev; simp only: lists_symbols.simps simp_thms; simp only: dbg_handle.simps dbg_eval_def dbg_on_trade_data_def
      dbg_on_get_trade_state_def dbg_on_start_def dbg_on_change_def dbg_on_stop_def dbg_on_account_def dbg_on_balance_def
      dbg_on_exchange_info_def dbg_on_wss_data_def dbg_on_order_report_def dbg_on_price_def dbg_on_trade_run_def
      dbg_get_exchange_info_def dbg_elapsed_def; intro keeps_intros statements symbol_keeps)

lemma symbols_keeps: "(\<And>h k. I h \<Longrightarrow> I (h\<lparr>db_timer_func := Some k\<rparr>)) \<Longrightarrow> keeps_host I (dbg_on_symbols_list ks)"
  unfolding dbg_on_symbols_list_def dbg_create_timer_def
  by (intro keeps_intros keeps_host_self keeps_host_on_host) simp_all

lemma run_events_keeps:
  "\<forall>ev \<in> set evs. \<not> lists_symbols ev \<Longrightarrow> I (fst d) \<Longrightarrow> I (fst (fst (run_events dbg_handle evs d)))"
proof (induction evs arbitrary: d)
  case Nil
  then show ?case
    by simp
next
  case (Cons ev evs)
  then have "I (fst (state_of (dbg_handle ev d)))"
    using keepsD [OF event_keeps, of ev d] by simp
  with Cons.IH [of "state_of (dbg_handle ev d)"] Cons.prems(1) show ?case
    by (simp add: split_beta)
qed

end

text \<open>A host that has started a timer always has one.\<close>

interpretation started_timer: host_invariant timer_started
  by unfold_locales (auto simp: timer_started_def start_timer_run stop_timer_run thread_ends_def split: option.split)

lemma keeps_timer_event: "keeps_host timer_started (dbg_handle ev)"
proof (cases "lists_symbols ev")
  case True
  then obtain ss where "ev = DbgSymbolsList ss"
    by (cases ev) auto
  then show ?thesis
    by (simp, intro started_timer.symbols_keeps) (simp add: timer_started_def)
qed (rule started_timer.event_keeps)

lemma timer_no_excuse:
  assumes "timer_started (fst p)"
  shows "\<not> excused no_timer (dbg_handle ev p) \<and> timer_started (fst (state_of (dbg_handle ev p)))"
  using keepsD [OF keeps_timer_event assms] by (simp add: excused_def no_timer_def)

text \<open>The function the host holds, and that of every thread.\<close>

definition timers_call :: "string \<Rightarrow> dbg_host \<Rightarrow> bool" where
  "timers_call k h \<longleftrightarrow> db_timer_func h = Some k \<and> (\<forall>th \<in> set (db_threads h). th_func th = Some k)"

lemma timers_call_ends: "timers_call k h \<Longrightarrow> timers_call k (thread_ends i h)"
  by (cases "i < length (db_threads h)")
    (auto simp: timers_call_def thread_ends_def list_update_beyond set_update_memI dest!: set_update_subset_insert [THEN subsetD])

interpretation last_timer: host_invariant "timers_call k" for k
  by unfold_locales (auto simp: start_timer_run stop_timer_run timers_call_ends split: option.split, auto simp: timers_call_def)

lemma symbols_list_host:
  "fst (state_of (dbg_on_symbols_list (ks @ [k]) (h, st))) = h\<lparr>db_timer_func := Some k\<rparr>"
proof -
  define body :: "string \<Rightarrow> debug_act" where "body = (\<lambda>s. p_block [
    self (p_upd (\<lambda>st. st\<lparr>st_symbol_data := dict_set s (SymbolData s) (st_symbol_data st)\<rparr>)),
    on_host (dbg_create_timer (compl_timer s) s)])"
  have one: "body s (h, st) = ((h\<lparr>db_timer_func := Some s\<rparr>, st\<lparr>st_symbol_data := dict_set s (SymbolData s) (st_symbol_data st)\<rparr>),
      [CreateTimer (compl_timer s)], Done ())" for s h st
    by (simp add: body_def run_prog self_def on_host_def p_lift_def create_timer_run)
  have "fst (state_of (p_for ks' body (h, st))) = (if ks' = [] then h else h\<lparr>db_timer_func := Some (last ks')\<rparr>)" for ks'
    by (induction ks' arbitrary: h st) (simp_all add: one p_bind_def p_skip_def split_beta)
  from this [of "ks @ [k]"] show ?thesis
    unfolding dbg_on_symbols_list_def body_def [symmetric]
    by (simp add: log_func_def self_def p_lift_def run_prog split_beta)
qed

section \<open>Trading alike\<close>

lemma run_events_map: "run_events handle (map f evs) s = run_events (\<lambda>ev. handle (f ev)) evs s"
  by (induction evs arbitrary: s) auto

text \<open>C28. The debug copy trades as the deployed script does: from states that differ in the quantities of orders at most, on
  a host that has started a timer, any messages lead to states that differ in the quantities of orders at
  most, and place and delete the same orders in the same order, quantities apart.\<close>

theorem dbg_same_trading:
  assumes "same_dbg d s" and "timer_started (fst d)" and "\<forall>ev \<in> set evs. debug_message ev \<noteq> None"
  shows "let r = run_events dbg_handle (map (the \<circ> debug_message) evs) d; r' = run_events st_handle evs s in
    same_dbg (fst r) (fst r') \<and> map noq_order (orders_of (snd r)) = map noq_order (orders_of (snd r')) \<and>
    map noq_order (deleted_of (snd r)) = map noq_order (deleted_of (snd r'))"
proof -
  have sim: "sim_d (dbg_handle (the (debug_message ev))) (st_handle ev)" if "ev \<in> set evs" for ev
    using assms(3) that by (intro d_message) auto
  have "same_dbg (fst (run_events (\<lambda>ev. dbg_handle (the (debug_message ev))) evs d)) (fst (run_events st_handle (map id evs) s)) \<and>
    trade_view (snd (run_events (\<lambda>ev. dbg_handle (the (debug_message ev))) evs d)) = trade_view (snd (run_events st_handle (map id evs) s))"
    by (rule sd.sim_run_events [where I = "\<lambda>d. timer_started (fst d)"]) (simp_all add: sim timer_no_excuse assms(1,2))
  then show ?thesis
    unfolding Let_def run_events_map by (auto dest: view_orders)
qed

definition debug_with_timer :: debug where
  "debug_with_timer =
     (StrategyInstance\<lparr>db_timer := Some 0, db_threads := [\<lparr>th_func = Some ''BTC'', th_interval = 5, th_live = False\<rparr>]\<rparr>, Strategy)"

definition demo_messages :: "st_event list" where
  "demo_messages = [SymbolsList [''BTC''],
     TradeRunMsg ''{\"s\": \"BTC\", \"p\": \"BUY\", \"a\": \"start\"}'', PriceMsg ''{\"symbol\": \"BTCUSDT\", \"price\": \"11000\"}'']"

theorem dbg_same_trading_witness:
  "same_dbg (fst (run_events dbg_handle (map (the \<circ> debug_message) demo_messages) debug_with_timer))
     (fst (run_events st_handle demo_messages Strategy))"
proof -
  have "same_dbg debug_with_timer Strategy"
    by (simp add: same_dbg_def debug_with_timer_def same_st_def Strategy_def)
  moreover have "timer_started (fst debug_with_timer)"
    by (simp add: debug_with_timer_def timer_started_def)
  ultimately show ?thesis
    using dbg_same_trading [of debug_with_timer Strategy demo_messages]
    by (simp add: Let_def demo_messages_def del: run_events.simps)
qed

end
