(* ===== verification/Console.thy ===== *)
theory Console
  imports DebugStrategy
begin

text \<open>
  The debug console, scrdbg/strategy_dbg.py: it reads commands from the keyboard and
  calls the methods of the debug copy, with the messages of two scenarios in its
  text.  The lines typed are a list; at its end \<open>input\<close> raises.  In the messages a
  run of white space is a single blank.  What is printed is not modelled.
\<close>

section \<open>The messages\<close>

definition con_account :: string where
  "con_account = ''{\"makerCommission\": 10, \"takerCommission\": 10, \"balances\": [ { \"asset\": \"BTC\", \"free\": \"0.01200\", \"locked\": \"0.00000000\" }, { \"asset\": \"LTC\", \"free\": \"0.68006\", \"locked\": \"0.00000000\" }, { \"asset\": \"USDT\", \"free\": \"1001.8500\", \"locked\": \"0.0000\" } ] }''"

definition con_trade_data :: string where
  "con_trade_data = ''{ \"c\": \"tradeData\", \"a\": \"set\", \"s\": \"BTC\", \"q\": \"0.002\", \"r\": \"1s\", \"B\": { \"t\": \"11200.00000000\", \"p\": \"11300.00000000\" }, \"S\": { \"t\": \"10600.00000000\", \"p\": \"10630.00000000\" }}''"

definition con_trade_run :: string where
  "con_trade_run = '' {\"c\": \"runTrade\", \"s\": \"BTC\", \"p\": \"BUY\", \"a\": \"start\" } ''"

definition con_price_1 :: string where
  "con_price_1 = '' {\"symbol\": \"BTCUSDT\", \"price\":\"11000\"} ''"

definition con_price_2 :: string where
  "con_price_2 = '' {\"symbol\": \"BNBUSDT\", \"price\":\"2300\"} ''"

definition con_price_3 :: string where
  "con_price_3 = '' {\"symbol\": \"BTCUSDT\", \"price\":\"11100\"} ''"

definition con_price_4 :: string where
  "con_price_4 = '' {\"symbol\": \"BTCUSDT\", \"price\":\"11250\"} ''"

definition con_new_report :: string where
  "con_new_report = '' {\"c\": \"order_USDT_to_BTC_0\", \"X\": \"NEW\", \"s\": \"BTCUSDT\"} ''"

definition con_filled_report :: string where
  "con_filled_report = '' {\"c\": \"order_USDT_to_BTC_0\", \"X\": \"FILLED\", \"s\": \"BTCUSDT\", \"N\": \"USDT\", \"p\": \"10630\", \"n\": \"0.00012\" } ''"

definition con_balance :: string where
  "con_balance = ''{ \"e\": \"outboundAccountInfo\", \"E\": \"1600182013507\", \"m\": \"10\", \"t\": \"10\", \"b\": \"0\", \"s\": \"0\", \"T\": \"true\", \"W\": \"true\", \"D\": \"true\", \"u\": \"1600182013506\", \"B\": [ { \"a\": \"BNB\", \"f\": \"0.99900000\", \"l\": \"0.00000000\" }, { \"a\": \"USDT\", \"f\": \"19.00000000\", \"l\": \"14.00000000\" }, { \"a\": \"SXP\", \"f\": \"0.01285521\", \"l\": \"0.00000000\" } ], \"P\": [ \"SPOT\" ] }''"

definition con_account_2 :: string where
  "con_account_2 = ''{\"makerCommission\": 10, \"takerCommission\": 10, \"balances\": [{\"asset\": \"BTC\", \"free\": \"0.01200\", \"locked\": \"0.00000000\"}, {\"asset\": \"LTC\", \"free\": \"0.68006\", \"locked\": \"0.00000000\"}, {\"asset\": \"USDT\", \"free\": \"1001.8500\", \"l\": \"0.0000\" }]}''"

section \<open>The commands\<close>

definition con_symb :: debug_act where
  "con_symb = p_block [
     dbg_on_symbols_list [''BNB'', ''BTC'', ''SXP''],
     dbg_on_account con_account,
     dbg_on_trade_data con_trade_data,
     p_bind (dbg_get_trade_steps ''BTC'') (\<lambda>plist. p_skip),
     dbg_on_trade_run con_trade_run,
     dbg_on_price con_price_1,
     dbg_on_price con_price_2,
     dbg_on_price con_price_3,
     dbg_on_price con_price_4,
     dbg_on_order_report con_new_report,
     dbg_on_order_report con_filled_report]"

text \<open>\<open>on_user_value\<close> is a method of strategy.py, not of the debug copy: what follows the
  first call of it in \<open>go\<close> is not reached.  The method is looked up before \<open>input\<close> is
  called.\<close>

definition con_on_user_value :: debug_act where
  "con_on_user_value = p_raise AttributeError"

definition con_go :: debug_act where
  "con_go = p_block [
     dbg_on_balance con_balance,
     dbg_on_account con_account_2,
     con_on_user_value]"

fun console :: "string list \<Rightarrow> debug_act" where
  "console [] = p_raise EOFError"
| "console (line # lines) =
     (case py_split (CHR '' '') line of
        [] \<Rightarrow> console lines
      | cmd # args \<Rightarrow>
          if cmd = ''exit'' then p_skip
          else if cmd = ''start'' then p_block [dbg_on_start, console lines]
          else if cmd = ''val'' then p_block [con_on_user_value, console lines]
          else if cmd = ''exec'' then
            (case lines of [] \<Rightarrow> p_raise EOFError | j # rest \<Rightarrow> p_block [dbg_on_order_report j, console rest])
          else if cmd = ''stop'' then p_block [dbg_on_stop, console lines]
          else if cmd = ''symb'' then p_block [con_symb, console lines]
          else if cmd = ''go'' then p_block [con_go, console lines]
          else if cmd = ''loop'' then console lines
          else console lines)"

end
