(* ===== verification/ConsoleText.thy ===== *)
theory ConsoleText
  imports Console
begin

text \<open>
  The messages of the console's scenario as JSON, and their numbers, evaluated.
\<close>

section \<open>The messages\<close>

lemma con_parsed:
  "json_loads con_account = Inr (JObj [(''makerCommission'', JInt 10), (''takerCommission'', JInt 10),
     (''balances'', JList [
       JObj [(''asset'', JStr ''BTC''), (''free'', JStr ''0.01200''), (''locked'', JStr ''0.00000000'')],
       JObj [(''asset'', JStr ''LTC''), (''free'', JStr ''0.68006''), (''locked'', JStr ''0.00000000'')],
       JObj [(''asset'', JStr ''USDT''), (''free'', JStr ''1001.8500''), (''locked'', JStr ''0.0000'')]])])"
  "json_loads con_trade_data = Inr (JObj [(''c'', JStr ''tradeData''), (''a'', JStr ''set''), (''s'', JStr ''BTC''),
     (''q'', JStr ''0.002''), (''r'', JStr ''1s''),
     (''B'', JObj [(''t'', JStr ''11200.00000000''), (''p'', JStr ''11300.00000000'')]),
     (''S'', JObj [(''t'', JStr ''10600.00000000''), (''p'', JStr ''10630.00000000'')])])"
  "json_loads con_trade_run = Inr (JObj [(''c'', JStr ''runTrade''), (''s'', JStr ''BTC''), (''p'', JStr ''BUY''), (''a'', JStr ''start'')])"
  "json_loads con_price_1 = Inr (JObj [(''symbol'', JStr ''BTCUSDT''), (''price'', JStr ''11000'')])"
  "json_loads con_price_2 = Inr (JObj [(''symbol'', JStr ''BNBUSDT''), (''price'', JStr ''2300'')])"
  "json_loads con_price_3 = Inr (JObj [(''symbol'', JStr ''BTCUSDT''), (''price'', JStr ''11100'')])"
  "json_loads con_price_4 = Inr (JObj [(''symbol'', JStr ''BTCUSDT''), (''price'', JStr ''11250'')])"
  "json_loads con_new_report = Inr (JObj [(''c'', JStr ''order_USDT_to_BTC_0''), (''X'', JStr ''NEW''), (''s'', JStr ''BTCUSDT'')])"
  "json_loads con_filled_report = Inr (JObj [(''c'', JStr ''order_USDT_to_BTC_0''), (''X'', JStr ''FILLED''), (''s'', JStr ''BTCUSDT''),
     (''N'', JStr ''USDT''), (''p'', JStr ''10630''), (''n'', JStr ''0.00012'')])"
  by code_simp+

lemma con_floats:
  "float_of (JStr ''11000'') = Inr (Fin False 11000)" "float_of (JStr ''11100'') = Inr (Fin False 11100)"
  "float_of (JStr ''11250'') = Inr (Fin False 11250)" "float_of (JStr ''2300'') = Inr (Fin False 2300)"
  "float_of (JStr ''11200.00000000'') = Inr (Fin False 11200)" "float_of (JStr ''11300.00000000'') = Inr (Fin False 11300)"
  "float_of (JStr ''10600.00000000'') = Inr (Fin False 10600)" "float_of (JStr ''10630.00000000'') = Inr (Fin False 10630)"
  "float_of (JStr ''10630'') = Inr (Fin False 10630)"
  "float_of (JStr ''0.002'') = Inr (flit (1 / 500))"
  by code_simp+

text \<open>The amounts and commissions of the account are numbers, as are those of the report.\<close>

lemma con_amounts:
  "\<not> isl (float_of (JStr ''0.01200''))" "\<not> isl (float_of (JStr ''0.00000000''))" "\<not> isl (float_of (JStr ''1001.8500''))"
  "\<not> isl (float_of (JStr ''0.0000''))" "\<not> isl (bind_sum (float_of (JInt 10)) (\<lambda>x. fdiv x (flit 100)))"
  by code_simp+

text \<open>The commission of the report, over its price, does not change the quantity in six digits.\<close>

lemma con_commission:
  "case bind_sum (float_of (JStr ''0.00012'')) (\<lambda>n. fdiv n (Fin False 10630)) of
     Inl x \<Rightarrow> False | Inr c \<Rightarrow> fround_dec (fsub (flit (1 / 500)) c) 6 = flit (1 / 500)"
  by code_simp

lemma con_currencies: "py_remove ''USDT'' ''BTCUSDT'' = ''BTC''" "py_remove ''USDT'' ''BNBUSDT'' = ''BNB''"
  by code_simp+

end
