(* ===== verification/DebugBehaviour.thy ===== *)
theory DebugBehaviour
  imports DebugFacts SymbolBehaviour Triples
begin

text \<open>
  Where the debug copy of one currency behaves otherwise than the deployed script: the
  order that a commission corrects, and a stop before the host has started a timer.
\<close>

section \<open>The events of one currency\<close>

fun dbg_sd_handle :: "sd_event \<Rightarrow> dbg_act" where
  "dbg_sd_handle (TradeData j) = dbg_sd_on_trade_data j"
| "dbg_sd_handle (TradeRun j) = dbg_sd_on_trade_run j"
| "dbg_sd_handle (Price j) = dbg_sd_on_price j"
| "dbg_sd_handle (Report j) = dbg_sd_on_order_report j"
| "dbg_sd_handle Timeout = dbg_sd_on_order_complete_timeout"
| "dbg_sd_handle (ExchangeInfo j) = self (dbg_sd_on_exchange_info j)"

section \<open>The machine on its host\<close>

interpretation dbg_owner: fsm_host "\<lambda>(h, s). sd_fsm s" "\<lambda>f (h, s). (h, sd_fsm_update f s)" "dbg_exec go"
  for go
  by unfold_locales (simp add: split_beta)

lemma dbg_fsm_run_handler:
  assumes "machine_ok s" and "map_of (fsm_handlers sd_fsm_init) (fsm_state (sd_fsm s)) = Some (Some x)"
  shows "dbg_fsm_run (h, s) = dbg_exec (dbg_run (Suc 398)) x () (h, s)"
  using assms dbg_owner.run_handler [of "(h, s)" x "dbg_run (Suc 398)" "()"]
  unfolding dbg_fsm_run_def run_depth_Suc dbg_run.simps(2) [of "Suc 398"] by (simp add: machine_ok_def)

lemma dbg_stop_timer_started:
  "db_timer h = Some i \<Longrightarrow> dbg_h_stop_timer (h, s) = ((thread_ends i h, s), [StopTimer (compl_timer (sd_symbol s))], Done ())"
  by (simp add: dbg_h_stop_timer_def p_read_def on_host_def p_lift_def stop_timer_run)

lemma dbg_stop_timer_none:
  "db_timer h = None \<Longrightarrow> dbg_h_stop_timer (h, s) = ((h, s), [StopTimer (compl_timer (sd_symbol s))], Raised AttributeError)"
  by (simp add: dbg_h_stop_timer_def p_read_def on_host_def p_lift_def stop_timer_run)

lemmas dbg_stmts = dbg_set_state_def dbg_ts_set_def dbg_send_trade_state_def dbg_h_to_journal_def dbg_log_fsm_def

section \<open>Settlement\<close>

text \<open>One order with another quantity.\<close>

abbreviation requantify :: "nat \<Rightarrow> pyfloat \<Rightarrow> symbol_data \<Rightarrow> symbol_data" where
  "requantify k q \<equiv> upd_order k (\<lambda>ord. ord\<lparr>o_quantity := q\<rparr>)"

lemma dbg_correct_quantity_run:
  assumes "sd_step s < length (sd_orders s)" and "sd_stepSize s = Fin z m" and "0 \<le> m"
  shows "dbg_correct_quantity c s =
    (requantify (sd_step s) (fround_dec (fsub (o_quantity (current_order s)) c) 6) s, [], Done ())"
  using assms round_at_step_finite [OF assms(3), of _ z]
  by (simp add: dbg_correct_quantity_def run_prog upd_order_def current_order_def)

lemma dbg_settle_quantity:
  assumes "sd_report s = Some j" and "getitem j ''N'' = Inr a" and "a \<noteq> JStr ''BNB''" and "getitem j ''n'' = Inr v"
    and "sd_step s < length (sd_orders s)" and "sd_stepSize s = Fin z m" and "0 \<le> m"
    and com: "(if a = JStr ''USDT'' then bind_sum (float_at j ''n'') (\<lambda>n. bind_sum (float_at j ''p'') (fdiv n))
          else float_at j ''n'') = Inr c"
  shows "state_of (dbg_settle_commission s) =
      requantify (sd_step s) (fround_dec (fsub (o_quantity (current_order s)) c) 6) s"
    and "outcome_of (dbg_settle_commission s) = Done ()"
proof -
  note q = dbg_correct_quantity_run [OF assms(5-7), of c]
  have emits: "state_of (dbg_log_correction t) = t" "outcome_of (dbg_log_correction t) = Done ()"
    "state_of (send_orders_change k t) = t" "outcome_of (send_orders_change k t) = Done ()" for t k
    by (simp_all add: dbg_log_correction_def sd_stmts run_prog)
  show "state_of (dbg_settle_commission s) =
      requantify (sd_step s) (fround_dec (fsub (o_quantity (current_order s)) c) 6) s"
    and "outcome_of (dbg_settle_commission s) = Done ()"
    using com q emits assms(1-4)
    by (auto simp: dbg_settle_commission_def dbg_apply_commission_def report_item_def float_at_def p_read_def p_val_def p_raise_def
        p_emit_def p_bind_def split_beta bind_sum_def split: sum.splits outcome.splits if_splits)
qed

lemma dbg_fsm_wait_order_fill_hit:
  assumes "report_is ''FILLED'' s = Inr True" and "db_timer h = Some i"
  defines "v \<equiv> dbg_settle_commission (filled s)"
  shows "state_of (dbg_fsm_wait_order_fill (h, s)) =
      (thread_ends i h, case outcome_of v of Done _ \<Rightarrow> rearmed (state_of v) | Raised x \<Rightarrow> state_of v)"
    and "outcome_of (dbg_fsm_wait_order_fill (h, s)) = outcome_of v"
proof -
  obtain u es r where settle: "dbg_settle_commission (filled s) = (u, es, r)"
    by (cases "dbg_settle_commission (filled s)")
  define t where "t = s\<lparr>sd_wait_order_fill := NewOrder,
    sd_trade_state := dict_set ''m'' (JFmt ''Order filled by Binance'' []) (dict_set ''a'' (JStr ''ready'') (sd_trade_state s))\<rparr>"
  have t: "stepped t = filled s"
    by (simp add: t_def filled_def)
  define pre where "pre = [dbg_h_stop_timer, self (p_upd (\<lambda>s. s\<lparr>sd_wait_order_fill := NewOrder\<rparr>)), dbg_ts_set ''a'' (JStr ''ready''),
    dbg_ts_set ''m'' (JFmt ''Order filled by Binance'' []), dbg_send_trade_state, dbg_h_to_journal (JFmt ''Order filled by Binance'' []),
    p_read (\<lambda>(h, s). [JStr (sd_symbol s), JInt (sd_counter s), JInt (int (sd_step s))])
      (\<lambda>args. p_emit (ToLog (JFmt ''symbol {} cycle {} step {} '' args)))]"
  obtain E where E: "p_block pre (h, s) = ((thread_ends i h, t), E, Done ())"
    by (simp add: pre_def t_def dbg_stmts sd_stmts run_prog self_def p_lift_def dbg_stop_timer_started [OF assms(2)])
  obtain L where L: "dbg_log_fsm ''fsm_wait_order_fill'' (h, s) = ((h, s), [ToLog L], Done ())"
    by (simp add: dbg_log_fsm_def log_fsm_def run_prog self_def p_lift_def)
  have block: "dbg_fsm_wait_order_fill = p_bind (dbg_log_fsm ''fsm_wait_order_fill'') (\<lambda>_. p_read (\<lambda>(h, s). report_is ''FILLED'' s)
      (\<lambda>r. p_val r (\<lambda>b. if b then p_block (pre @ [self (p_upd stepped), self dbg_settle_commission,
        self (p_upd (\<lambda>s. s\<lparr>sd_wait_price := True\<rparr>)), dbg_set_state ST_WAIT_PRICE]) else p_skip)))"
    by (simp add: dbg_fsm_wait_order_fill_def next_step_stepped pre_def Let_def cong: if_cong)
  have run: "dbg_fsm_wait_order_fill (h, s) = (case r of Done _ \<Rightarrow> ((thread_ends i h, rearmed u), ToLog L # E @ es, Done ())
      | Raised x \<Rightarrow> ((thread_ends i h, u), ToLog L # E @ es, Raised x))"
    using assms(1) settle t
    by (simp add: block L p_read_def p_val_def p_block_append E p_upd_def p_bind_def self_def p_lift_def dbg_set_state_def
        sd_set_state_def rearmed_def split: outcome.split)
  show "state_of (dbg_fsm_wait_order_fill (h, s)) =
      (thread_ends i h, case outcome_of v of Done _ \<Rightarrow> rearmed (state_of v) | Raised x \<Rightarrow> state_of v)"
    and "outcome_of (dbg_fsm_wait_order_fill (h, s)) = outcome_of v"
    by (simp_all add: run v_def settle split: outcome.split)
qed

lemma dbg_report_run:
  assumes "fsm_state (sd_fsm s) \<noteq> ST_RESUME"
  shows "state_of (dbg_sd_on_order_report j (h, s)) = state_of (dbg_fsm_run (h, report_in j s))"
    and "outcome_of (dbg_sd_on_order_report j (h, s)) = outcome_of (dbg_fsm_run (h, report_in j s))"
  using assms
  by (simp_all add: dbg_sd_on_order_report_def dbg_log_fsm_def log_fsm_def self_def p_lift_def run_prog get_state_def
      report_in_def split_beta)

lemma dbg_report_fill:
  assumes "sd_inv coin s" and "phase_of s = Open k" and "reports j ''FILLED'' s" and "db_timer h = Some i"
  defines "v \<equiv> dbg_settle_commission (filled (report_in j s))"
  shows "state_of (dbg_sd_on_order_report j (h, s)) =
      (thread_ends i h, case outcome_of v of Done _ \<Rightarrow> rearmed (state_of v) | Raised x \<Rightarrow> state_of v)"
    and "outcome_of (dbg_sd_on_order_report j (h, s)) = outcome_of v"
proof -
  note inv = inv_report_in(1) [OF assms(1), of j]
  have st: "fsm_state (sd_fsm s) = ST_WAIT_ORDER_FILL"
    using sd_invD(3) [OF assms(1)] assms(2) by (auto elim: phase_cases)
  then have "fsm_state (sd_fsm (report_in j s)) = ST_WAIT_ORDER_FILL"
    by (simp add: report_in_def)
  then have run: "dbg_fsm_run (h, report_in j s) = dbg_fsm_wait_order_fill (h, report_in j s)"
    using dbg_fsm_run_handler [OF sd_invD(1) [OF inv], of H_wait_order_fill] by simp
  have hit: "report_is ''FILLED'' (report_in j s) = Inr True"
    using assms(3) by (simp add: report_is_in reports_def)
  note fill = dbg_fsm_wait_order_fill_hit [OF hit assms(4)]
  show "state_of (dbg_sd_on_order_report j (h, s)) =
      (thread_ends i h, case outcome_of v of Done _ \<Rightarrow> rearmed (state_of v) | Raised x \<Rightarrow> state_of v)"
    and "outcome_of (dbg_sd_on_order_report j (h, s)) = outcome_of v"
    unfolding v_def using st fill by (simp_all add: dbg_report_run run)
qed

text \<open>C29. In the debug copy a commission charged in the traded currency or in USDT reduces the order of the step
  entered and no other: its quantity is its own less the commission, rounded to six digits; the other
  order keeps its quantity, the cycle goes on, and the thread of the last timer started is cancelled.\<close>

theorem dbg_fill_commission:
  assumes "sd_inv coin s" and "phase_of s = Open k" and "reports j ''FILLED'' s" and "db_timer h = Some i"
    and "getitem j ''N'' = Inr a" and "a \<noteq> JStr ''BNB''" and "getitem j ''n'' = Inr v"
    and "(if a = JStr ''USDT'' then bind_sum (float_at j ''n'') (\<lambda>n. bind_sum (float_at j ''p'') (fdiv n))
          else float_at j ''n'') = Inr c"
    and "sd_stepSize s = Fin z m" and "0 \<le> m"
  shows "let r = dbg_sd_on_order_report j (h, s); t = snd (state_of r); old = sd_orders s ! (1 - k) in
    outcome_of r = Done () \<and> fst (state_of r) = thread_ends i h \<and> phase_of t = Armed (1 - k) \<and>
    sd_orders t = (sd_orders s)[1 - k := old\<lparr>o_quantity := fround_dec (fsub (o_quantity old) c) 6\<rparr>]"
proof -
  note rep = dbg_report_fill [OF assms(1-4)]
  have step: "sd_step s < 2" "k = sd_step s" "length (sd_orders s) = 2"
    using sd_invD(5,6) [OF assms(1)] open_step [OF assms(1,2)] by simp_all
  have new: "sd_step (filled (report_in j s)) = 1 - k"
    using stepped_new [OF step(1), of j] step(2) by simp
  have size: "sd_stepSize (filled (report_in j s)) = Fin z m"
    using assms(9) by simp
  have cur: "current_order (filled (report_in j s)) = sd_orders s ! (1 - k)"
    using new unfolding current_order_def by simp
  have report: "sd_report (filled (report_in j s)) = Some j"
    by (simp add: report_in_def)
  have in_range: "sd_step (filled (report_in j s)) < length (sd_orders (filled (report_in j s)))"
    unfolding new by (simp add: step(3))
  note settle = dbg_settle_quantity [OF report assms(5-7) in_range size assms(10) assms(8), unfolded cur new]
  define q where "q = fround_dec (fsub (o_quantity (sd_orders s ! (1 - k))) c) 6"
  have "phase_of (rearmed (requantify (1 - k) q (filled (report_in j s)))) = Armed (1 - k)"
    using phase_rearmed [of "requantify (1 - k) q (filled (report_in j s))"] machine_filled [OF sd_invD(1) [OF assms(1)], of j] new
    by (simp add: machine_ok_def upd_order_def)
  with rep settle show ?thesis
    by (simp add: Let_def q_def upd_order_def)
qed

definition timed_host :: dbg_host where
  "timed_host = StrategyInstance\<lparr>db_timer := Some 0, db_threads := [\<lparr>th_func = Some ''BTC'', th_interval = 5, th_live = True\<rparr>]\<rparr>"

theorem dbg_fill_commission_witness:
  "map o_quantity (sd_orders (snd (state_of (dbg_sd_on_order_report (fill_report ''BTC'' (Fin False (1/2)) (Fin False 99))
     (timed_host, demo D5))))) = [Fin False 2, Fin False (3/2)]"
proof -
  obtain z m where m: "sd_stepSize (demo D5) = Fin z m" "0 \<le> m"
    by (rule demo_step_finite)
  obtain ord0 ord1 where "sd_orders (demo D5) = [ord0, ord1]"
    using demo_quantities(1) by (auto simp: numeral_2_eq_2 length_Suc_conv)
  then show ?thesis
    using dbg_fill_commission [OF demo_inv demo_D5_phase demo_reports [of "''BTC''" "Fin False (1/2)" "Fin False 99"],
      of timed_host 0 "JStr ''BTC''" "JFloat (Fin False (1/2))" "Fin False (1/2)" z m] demo_quantities m demo_correction
    by (simp add: fill_report_def dict_get_def float_at_def Let_def timed_host_def)
qed

section \<open>A stop without a timer\<close>

text \<open>What holds of a currency whose stop has failed: it runs, its machine is at the end of a
  trade, no order is out.\<close>

definition ending :: "symbol_data \<Rightarrow> bool" where
  "ending s \<longleftrightarrow> machine_ok s \<and> fsm_state (sd_fsm s) = ST_RESUME \<and> sd_running s \<and> sd_wait_order_fill s = NewOrder"

definition stuck :: "dbg_host \<times> symbol_data \<Rightarrow> bool" where
  "stuck p \<longleftrightarrow> db_timer (fst p) = None \<and> ending (snd p)"

lemma under_self: "under ending P m \<Longrightarrow> under stuck P (self m)"
  by (auto simp: under_def stuck_def self_def p_lift_def split_beta)

lemma ending_upd:
  "ending (s\<lparr>sd_trade_state := d\<rparr>) = ending s" "ending (s\<lparr>sd_report := r\<rparr>) = ending s"
  "ending (s\<lparr>sd_price := ps\<rparr>) = ending s" "ending (s\<lparr>sd_step := k\<rparr>) = ending s"
  "ending (s\<lparr>sd_temp_trigger := ps\<rparr>) = ending s" "ending (s\<lparr>sd_temp_price := ps\<rparr>) = ending s"
  "ending (s\<lparr>sd_temp_quantity := x\<rparr>) = ending s" "ending (take_temp_data s) = ending s"
  "ending (s\<lparr>sd_quotePrecision := i\<rparr>) = ending s" "ending (s\<lparr>sd_quoteAssetPrecision := i\<rparr>) = ending s"
  "ending (s\<lparr>sd_tickSize := x\<rparr>) = ending s" "ending (s\<lparr>sd_stepSize := x\<rparr>) = ending s"
  "ending (s\<lparr>sd_minNotional := x\<rparr>) = ending s" "ending (s\<lparr>sd_multiplierUp := j\<rparr>) = ending s"
  "ending (s\<lparr>sd_multiplierDown := x\<rparr>) = ending s"
  by (simp_all add: ending_def machine_ok_def)

lemma ending_not_acting: "ending s \<Longrightarrow> \<not> wait_order_act s"
  by (simp add: ending_def wait_order_act_def waited_order_def deref_order_def Order_def)

lemma ending_resume: "ending s \<Longrightarrow> ending (s\<lparr>sd_fsm := set_state ST_RESUME (sd_fsm s)\<rparr>)"
  by (simp add: ending_def machine_ok_def)

text \<open>Where a condition is known, the other branch does not matter.\<close>

lemma under_known:
  "(\<And>s. I s \<Longrightarrow> b s) \<Longrightarrow> under I P c \<Longrightarrow> under I P (p_if b c d)"
  "(\<And>s. I s \<Longrightarrow> \<not> b s) \<Longrightarrow> under I P d \<Longrightarrow> under I P (p_if b c d)"
  by (simp_all add: under_def p_if_def)

text \<open>Whatever makes the machine run, the handler of the end fails at the timer.\<close>

lemma dbg_run_stuck:
  assumes "stuck (h, s)"
  shows "\<exists>L. dbg_fsm_run (h, s) = ((h, s), [ToLog L, StopTimer (compl_timer (sd_symbol s))], Raised AttributeError)"
proof -
  have s: "machine_ok s" "fsm_state (sd_fsm s) = ST_RESUME" "db_timer h = None"
    using assms by (simp_all add: stuck_def ending_def)
  then have "dbg_fsm_run (h, s) = dbg_fsm_resume (h, s)"
    using dbg_fsm_run_handler [OF s(1), of H_resume] by simp
  then show ?thesis
    by (simp add: dbg_fsm_resume_def dbg_log_fsm_def log_fsm_def self_def p_lift_def run_prog dbg_stop_timer_none [OF s(3)])
qed

lemma under_dbg_run: "under stuck no_trade dbg_fsm_run"
proof (rule underI)
  fix p e
  assume p: "stuck p"
  obtain h s where "p = (h, s)"
    by (cases p)
  with dbg_run_stuck [of h s] p show "stuck (state_of (dbg_fsm_run p))" and "e \<in> set (effects_of (dbg_fsm_run p)) \<Longrightarrow> no_trade e"
    by auto
qed

lemmas ending_statements = under_self under_dbg_run under_upd under_emit ending_upd

lemma under_ending:
  "under ending no_trade (set_temp_data j)" "under ending no_trade (trade_run_change side)"
  "under ending no_trade (dbg_sd_on_exchange_info j)" "under ending no_trade (sd_set_state ST_RESUME)"
  "under ending no_trade (ts_set k v)" "under ending no_trade send_trade_state" "under ending no_trade (h_to_journal m)"
  "under ending no_trade (log_fsm f)"
  unfolding set_temp_data_def trade_run_change_def dbg_sd_on_exchange_info_def sd_set_state_def ts_set_def send_trade_state_def
    h_to_journal_def log_fsm_def choose_step_def
  by (intro under_intros under_known(2) ending_not_acting; simp add: ending_upd ending_resume)+

lemma under_stuck_event: "under stuck no_trade (dbg_sd_handle ev)"
proof (cases ev)
  case (TradeData j)
  show ?thesis
    unfolding TradeData dbg_sd_handle.simps dbg_sd_on_trade_data_def Let_def dbg_set_state_def dbg_ts_set_def dbg_send_trade_state_def
    by (cases j; simp only: json.case; intro under_intros under_self under_ending under_known(2)) (auto simp: stuck_def ending_def)
next
  case (TradeRun j)
  have stop: "under stuck no_trade dbg_trade_run_stop"
    unfolding dbg_trade_run_stop_def dbg_set_state_def
    by (intro under_block under_read under_emit under_known(2) under_self under_ending under_dbg_run)
      (auto simp: stuck_def dest: ending_not_acting)
  show ?thesis
    unfolding TradeRun dbg_sd_handle.simps dbg_sd_on_trade_run_def Let_def
    by (intro under_val under_known(2) under_If under_self under_ending stop) (auto simp: stuck_def ending_def)
next
  case (Price j)
  show ?thesis
    unfolding Price dbg_sd_handle.simps dbg_sd_on_price_def
    by (intro under_intros under_self under_dbg_run) (simp_all add: ending_upd)
next
  case (Report j)
  show ?thesis
    unfolding Report dbg_sd_handle.simps dbg_sd_on_order_report_def dbg_log_fsm_def
    by (intro under_intros under_self under_ending under_dbg_run) (simp_all add: ending_upd)
next
  case Timeout
  show ?thesis
    unfolding Timeout dbg_sd_handle.simps dbg_sd_on_order_complete_timeout_def dbg_log_fsm_def dbg_set_state_def dbg_ts_set_def
      dbg_send_trade_state_def
    by (intro under_intros under_self under_ending under_dbg_run) (simp_all add: ending_def machine_ok_def)
next
  case (ExchangeInfo j)
  show ?thesis
    unfolding ExchangeInfo dbg_sd_handle.simps by (intro under_self under_ending)
qed

interpretation stuck_events: event_system dbg_sd_handle p0 "\<lambda>p. stuck p0 \<longrightarrow> stuck p" for p0
  by unfold_locales (auto intro: underD(1) [OF under_stuck_event])

text \<open>C30. The user's stop, while trading runs, no order is out and the host has not started a timer: the
  call of the host raises; \<open>running\<close> stays set with the machine at its end, and no event of the currency
  stops the trading or places or deletes an order after that.\<close>

theorem dbg_stop_without_timer:
  assumes "sd_inv coin s" and "sd_running s" and "order_out (phase_of s) = None" and "db_timer h = None"
    and "run_request j = Inr (False, side)"
  shows "let r = dbg_sd_on_trade_run j (h, s); r' = run_events dbg_sd_handle evs (state_of r) in
    outcome_of r = Raised AttributeError \<and> sd_running (snd (fst r')) \<and> fsm_state (sd_fsm (snd (fst r'))) = ST_RESUME \<and>
    orders_of (snd r') = [] \<and> deleted_of (snd r') = []"
proof -
  define t where "t = s\<lparr>sd_fsm := set_state ST_RESUME (sd_fsm s)\<rparr>"
  have "sd_wait_order_fill s = NewOrder"
    using sd_invD(3) [OF assms(1)] assms(3) by (auto elim: phase_cases)
  then have st: "stuck (h, t)"
    using sd_invD(1) [OF assms(1)] assms(2,4) by (simp add: stuck_def ending_def t_def machine_ok_def)
  have "state_of (dbg_sd_on_trade_run j (h, s)) = (h, t)" "outcome_of (dbg_sd_on_trade_run j (h, s)) = Raised AttributeError"
    using assms(2,5) dbg_run_stuck [OF st] not_acting [OF assms(1,3)]
    by (auto simp: dbg_sd_on_trade_run_def dbg_trade_run_stop_def dbg_set_state_def sd_set_state_def self_def p_lift_def run_prog
        run_request_def bind_sum_def t_def [symmetric] split: sum.splits)
  moreover have "stuck (fst (run_events dbg_sd_handle evs (h, t)))"
    using stuck_events.inv_run [of "(h, t)" "(h, t)" evs] st by simp
  moreover have "\<forall>e \<in> set (snd (run_events dbg_sd_handle evs (h, t))). no_trade e"
    using stuck_events.effects_run [of "(h, t)" no_trade "(h, t)" _ evs] underD(2) [OF under_stuck_event] st by blast
  ultimately show ?thesis
    using no_trade_effects by (simp add: Let_def stuck_def ending_def)
qed

theorem dbg_stop_without_timer_witness:
  "outcome_of (dbg_sd_on_trade_run (demo_run ''stop'') (StrategyInstance, demo D2)) = Raised AttributeError"
proof -
  have "phase_of (demo D2) = Armed 0"
    using sd_invD(1) [OF demo_inv [of D1]] by (simp add: demo_D2 phase_of_def started_def chosen_def)
  moreover have "sd_running (demo D2)"
    by (simp add: demo_D2 started_def)
  ultimately show ?thesis
    using dbg_stop_without_timer [OF demo_inv, of D2 StrategyInstance "demo_run ''stop''" "JStr ''BUY''" "[]"]
    by (simp add: Let_def StrategyInstance_def demo_request)
qed

end
