(* ===== verification/DebugEvents.thy ===== *)
theory DebugEvents
  imports DebugBehaviour
begin

text \<open>
  The events of one currency of the debug copy in closed form, on the branches that a cycle of
  trading takes: the state each leaves and the orders it places.
\<close>

definition trades :: "order list \<Rightarrow> effect list \<Rightarrow> bool" where
  "trades ords es \<longleftrightarrow> orders_of es = ords \<and> deleted_of es = []"

lemma trades_simps [simp]:
  "trades [] []" "no_trade e \<Longrightarrow> trades ords (e # es) \<longleftrightarrow> trades ords es"
  by (cases e; simp add: trades_def)+

lemma dbg_set_run:
  assumes "machine_ok s" and "\<not> sd_running s" and "dict_get d0 ''a'' = Inr (JStr ''set'')"
    and "length (sd_temp_trigger s) = 2" and "length (sd_temp_price s) = 2"
  defines "d \<equiv> dict_set ''e'' (JStr ''tradeData'') d0"
  assumes "float_at2 (JObj d) ''B'' ''t'' = Inr bt" and "float_at2 (JObj d) ''B'' ''p'' = Inr bp"
    and "float_at2 (JObj d) ''S'' ''t'' = Inr st" and "float_at2 (JObj d) ''S'' ''p'' = Inr sp"
    and "float_at (JObj d) ''q'' = Inr q"
  shows "\<exists>es. dbg_sd_on_trade_data (JObj d0) (h, s) = ((h, data_ready (with_temp bt bp st sp q s)), es, Done ()) \<and> trades [] es"
proof -
  define t where "t = with_temp bt bp st sp q s"
  have set: "set_temp_data (JObj d) s = (t, [], Done ())"
    using set_temp_data_run [OF assms(7-11), of s] list2 [OF assms(4)] list2 [OF assms(5)]
    by (simp add: t_def with_temp_def)
  have a: "dict_get d ''a'' = Inr (JStr ''set'')"
    using assms(3) by (simp add: d_def dict_get_set)
  have t: "machine_ok (t\<lparr>sd_fsm := set_state ST_READY (sd_fsm t)\<rparr>)" "\<not> sd_running t"
    using assms(1,2) by (simp_all add: t_def with_temp_def machine_ok_def)
  have "fsm_state (set_state ST_READY (sd_fsm t)) = ST_READY"
    using t(1) by (auto simp: machine_ok_def split: if_splits)
  then have run: "dbg_fsm_run (h, t\<lparr>sd_fsm := set_state ST_READY (sd_fsm t)\<rparr>) = dbg_fsm_ready (h, t\<lparr>sd_fsm := set_state ST_READY (sd_fsm t)\<rparr>)"
    using dbg_fsm_run_handler [OF t(1), of H_ready] by simp
  show ?thesis
    using t(2) by (simp add: dbg_sd_on_trade_data_def Let_def d_def [symmetric] a set run dbg_fsm_ready_def dbg_stmts sd_stmts
        self_def p_lift_def run_prog p_try_def p_if_def t_def [symmetric] data_ready_def fsm_ready_run ts3_def)
qed

lemma dbg_run_armed:
  assumes "machine_ok s" and "fsm_state (sd_fsm s) = ST_WAIT_PRICE"
  shows "dbg_fsm_run (h, s) = dbg_fsm_wait_price (dbg_run (Suc 398)) (h, s)"
  using dbg_fsm_run_handler [OF assms(1), of H_wait_price] assms(2) by (simp del: dbg_run.simps)

lemma dbg_run_quiet:
  assumes "machine_ok s" and "fsm_state (sd_fsm s) = ST_WAIT_PRICE"
    and "is_trigger_in_price (sd_trigger s ! sd_step s) s = Inr False"
  shows "dbg_fsm_run (h, s) = ((h, s), [], Done ())"
  unfolding dbg_run_armed [OF assms(1,2)] using assms(3) by (simp add: dbg_fsm_wait_price_def run_prog)

lemma dbg_run_fires:
  assumes "machine_ok s" and "fsm_state (sd_fsm s) = ST_WAIT_PRICE"
    and "is_trigger_in_price (sd_trigger s ! sd_step s) s = Inr True" and "sd_step s < 2" and "length (sd_orders s) = 2"
  shows "\<exists>es. dbg_fsm_run (h, s) = ((state_of (dbg_start_timer (compl_timer (sd_symbol s)) 5 h), fire s), es, Done ()) \<and>
    trades [placed_order s] es"
proof -
  define t where "t = s\<lparr>sd_wait_price := False, sd_fsm := set_state ST_IN_PRICE (sd_fsm s)\<rparr>"
  have t: "machine_ok t" "fsm_state (sd_fsm t) = ST_IN_PRICE" "sd_step t < 2" "length (sd_orders t) = 2"
    using assms(1,4,5) by (simp_all add: t_def machine_ok_def)
  have "dbg_run (Suc 398) (h, t) = dbg_fsm_in_price (h, t)"
    using dbg_owner.run_handler [of "(h, t)" H_in_price "dbg_run 398" "()"] t(1,2)
    unfolding dbg_run.simps(2) [of 398] by (simp add: machine_ok_def)
  then have go: "dbg_fsm_run (h, s) = dbg_fsm_in_price (h, t)"
    unfolding dbg_run_armed [OF assms(1,2)] using assms(3)
    by (simp add: dbg_fsm_wait_price_def run_prog dbg_stmts sd_stmts self_def p_lift_def t_def del: dbg_run.simps)
  have "sd_step t = 1 \<or> sd_step t = 0"
    using t(3) by linarith
  then have "\<exists>es. dbg_fsm_in_price (h, t) =
      ((state_of (dbg_start_timer (compl_timer (sd_symbol t)) 5 h), place_order t), es, Done ()) \<and> trades [placed_order t] es"
    using t(4)
    by (auto simp: dbg_fsm_in_price_def dbg_stmts dbg_h_start_timer_def sd_stmts self_def on_host_def p_lift_def run_prog start_timer_run
        place_order_def placed_order_def upd_order_def current_order_def ts3_def trades_def)
  then show ?thesis
    unfolding go by (simp add: fire_def t_def placed_order_def current_order_def)
qed

lemma dbg_start_run:
  assumes "machine_ok s" and "\<not> sd_running s" and "run_request j = Inr (True, side)"
    and "is_trigger_in_price (sd_trigger (started side s) ! chosen side) s = Inr False"
  shows "\<exists>es. dbg_sd_on_trade_run j (h, s) = ((h, started side s), es, Done ()) \<and> trades [] es"
proof -
  have t: "machine_ok (started side s)" "fsm_state (sd_fsm (started side s)) = ST_WAIT_PRICE"
    using assms(1) by (auto simp: machine_ok_def started_def)
  have "is_trigger_in_price (sd_trigger (started side s) ! sd_step (started side s)) (started side s) = Inr False"
    using assms(4) is_trigger_cong [of "started side s" s] by simp
  note run = dbg_run_quiet [OF t this, of h]
  have "\<exists>es. dbg_trade_run_start side (h, s) = ((h, started side s), es, Done ()) \<and> trades [] es"
    using run
    by (simp add: dbg_trade_run_start_def dbg_stmts sd_stmts self_def p_lift_def run_prog started_def retargeted_def chosen_def ts3_def)
  then show ?thesis
    using assms(2,3) by (auto simp: dbg_sd_on_trade_run_def run_request_def bind_sum_def run_prog split: sum.splits)
qed

lemma dbg_price_run:
  assumes "sd_price s \<noteq> []" and "float_of j = Inr x"
  shows "dbg_sd_on_price j (h, s) = (if sd_wait_price s then dbg_fsm_run (h, price_in x s) else ((h, price_in x s), [], Done ()))"
  using assms by (auto simp: dbg_sd_on_price_def self_def p_lift_def run_prog price_in_def split_beta split: outcome.split)

lemma dbg_confirm_run:
  assumes "machine_ok s" and "fsm_state (sd_fsm s) = ST_WAIT_ORDER_CMPL" and "reports j ''NEW'' s" and "timer_started h"
  shows "\<exists>h' es. dbg_sd_on_order_report j (h, s) = ((h', confirmed (report_in j s)), es, Done ()) \<and> timer_started h' \<and> trades [] es"
proof -
  obtain i where i: "db_timer h = Some i"
    using assms(4) by (auto simp: timer_started_def)
  have "machine_ok (report_in j s)" "fsm_state (sd_fsm (report_in j s)) = ST_WAIT_ORDER_CMPL"
    using assms(1,2) by (simp_all add: machine_ok_def report_in_def)
  then have run: "dbg_fsm_run (h, report_in j s) = dbg_fsm_wait_order_compl (h, report_in j s)"
    using dbg_fsm_run_handler [of "report_in j s" H_wait_order_compl] by simp
  have hit: "report_is ''NEW'' (report_in j s) = Inr True"
    using assms(3) by (simp add: report_is_in reports_def)
  have "\<exists>es. dbg_fsm_wait_order_compl (h, t) = ((thread_ends i h, confirmed t), es, Done ()) \<and> trades [] es"
    if "report_is ''NEW'' t = Inr True" for t
    using that by (simp add: dbg_fsm_wait_order_compl_def dbg_stmts sd_stmts self_def p_lift_def run_prog dbg_stop_timer_started [OF i]
        confirmed_def ts3_def Let_def)
  from this [OF hit] show ?thesis
    using assms(2) i run
    by (fastforce simp: dbg_sd_on_order_report_def dbg_log_fsm_def log_fsm_def self_def p_lift_def run_prog get_state_def report_in_def
        timer_started_def thread_ends_def)
qed

text \<open>A fill places nothing.\<close>

lemma emits_host: "emits_only P m \<Longrightarrow> emits_only P (self m)" "emits_only P m' \<Longrightarrow> emits_only P (on_host m')"
  by (auto simp: emits_only_def self_def on_host_def p_lift_def split_beta)

lemma emits_settle: "emits_only no_trade dbg_settle_commission"
  unfolding dbg_settle_commission_def dbg_apply_commission_def dbg_correct_quantity_def dbg_log_correction_def send_orders_change_def
    log_fsm_short_def
  by (intro emits_intros no_trade_simps)

lemma emits_stop: "emits_only no_trade dbg_h_stop_timer"
proof -
  have "emits_only no_trade (case t of None \<Rightarrow> p_raise AttributeError | Some i \<Rightarrow> p_upd (thread_ends i))" for t
    by (cases t) (simp_all add: emits_silent)
  then show ?thesis
    unfolding dbg_h_stop_timer_def dbg_stop_timer_def by (intro emits_intros emits_host no_trade_simps)
qed

lemma emits_fill: "emits_only no_trade dbg_fsm_wait_order_fill"
  unfolding dbg_fsm_wait_order_fill_def dbg_stmts sd_stmts next_step_def Let_def
  by (intro emits_intros emits_host emits_settle emits_stop no_trade_simps)

lemma dbg_fill_effects:
  assumes "machine_ok s" and "fsm_state (sd_fsm s) = ST_WAIT_ORDER_FILL"
  shows "trades [] (effects_of (dbg_sd_on_order_report j (h, s)))"
proof -
  have "machine_ok (report_in j s)" "fsm_state (sd_fsm (report_in j s)) = ST_WAIT_ORDER_FILL"
    using assms by (simp_all add: machine_ok_def report_in_def)
  then have "dbg_fsm_run (h, report_in j s) = dbg_fsm_wait_order_fill (h, report_in j s)"
    using dbg_fsm_run_handler [of "report_in j s" H_wait_order_fill] by simp
  moreover have "orders_of (effects_of (dbg_fsm_wait_order_fill p)) = []" "deleted_of (effects_of (dbg_fsm_wait_order_fill p)) = []" for p
    using emits_no_trade [OF emits_fill] .
  ultimately show ?thesis
    using assms(2)
    by (simp add: dbg_sd_on_order_report_def dbg_log_fsm_def log_fsm_def self_def p_lift_def run_prog get_state_def trades_def
        report_in_def [symmetric] split_beta)
qed

end
