(* ===== verification/ConsoleProps.thy ===== *)
theory ConsoleProps
  imports ConsoleText DebugEvents
begin

text \<open>
  The scenario of the console's command \<open>symb\<close>, message by message: total triples of the
  programs on the currency BTC, composed along the scenario; and the commands that call
  methods the debug copy has not.
\<close>

section \<open>Total triples\<close>

text \<open>From every state in \<open>P\<close> the program returns, in a state in \<open>Q\<close>, having placed the orders \<open>ords\<close>
  and deleted none.\<close>

definition leads :: "('s \<Rightarrow> bool) \<Rightarrow> ('s, effect, 'a) prog \<Rightarrow> ('s \<Rightarrow> bool) \<Rightarrow> order list \<Rightarrow> bool" where
  "leads P m Q ords \<longleftrightarrow>
     (\<forall>s. P s \<longrightarrow> (\<exists>t es v. m s = (t, es, Done v) \<and> Q t \<and> orders_of es = ords \<and> deleted_of es = []))"

named_theorems leads_intros \<open>total triples of composed programs\<close>

lemma leadsI:
  "(\<And>s. P s \<Longrightarrow> \<exists>t es v. m s = (t, es, Done v) \<and> Q t \<and> orders_of es = ords \<and> deleted_of es = []) \<Longrightarrow> leads P m Q ords"
  by (simp add: leads_def)

lemma leadsE:
  assumes "leads P m Q ords" and "P s"
  obtains t es v where "m s = (t, es, Done v)" and "Q t" and "orders_of es = ords" and "deleted_of es = []"
  using assms by (auto simp: leads_def)

lemma leads_conseq: "leads P m Q ords \<Longrightarrow> (\<And>s. P' s \<Longrightarrow> P s) \<Longrightarrow> (\<And>s. Q s \<Longrightarrow> Q' s) \<Longrightarrow> leads P' m Q' ords"
  unfolding leads_def by blast

lemma leads_bind:
  assumes "leads P m Q xs" and "\<And>v. leads Q (k v) R ys"
  shows "leads P (p_bind m k) R (xs @ ys)"
proof (rule leadsI)
  fix s
  assume "P s"
  with assms(1) obtain t es v where m: "m s = (t, es, Done v)" "Q t" "orders_of es = xs" "deleted_of es = []"
    by (rule leadsE)
  from assms(2) m(2) obtain u fs w where "k v t = (u, fs, Done w)" "R u" "orders_of fs = ys" "deleted_of fs = []"
    by (rule leadsE)
  with m show "\<exists>t es v. p_bind m k s = (t, es, Done v) \<and> R t \<and> orders_of es = xs @ ys \<and> deleted_of es = []"
    by simp
qed

lemma leads_block:
  "leads P (p_block []) P []"
  "leads P c Q xs \<Longrightarrow> leads Q (p_block cs) R ys \<Longrightarrow> leads P (p_block (c # cs)) R (xs @ ys)"
proof -
  show "leads P (p_block []) P []"
    by (simp add: leads_def p_skip_def)
  assume "leads P c Q xs" "leads Q (p_block cs) R ys"
  then show "leads P (p_block (c # cs)) R (xs @ ys)"
    unfolding p_block.simps by (rule leads_bind)
qed

text \<open>Statements that place nothing and keep \<open>P\<close>.\<close>

lemma leads_inv:
  "leads P (p_block []) P []" "leads P c P [] \<Longrightarrow> leads P (p_block cs) P [] \<Longrightarrow> leads P (p_block (c # cs)) P []"
  using leads_block(2) [of P c P "[]" cs P "[]"] by (simp_all add: leads_block(1) del: p_block.simps)

lemma leads_silent:
  "leads P p_skip P []" "leads P (p_ret v) P []" "no_trade e \<Longrightarrow> leads P (p_emit e) P []"
  by (cases e; simp add: leads_def prog_defs)+

lemma leads_upd: "(\<And>s. P s \<Longrightarrow> Q (f s)) \<Longrightarrow> leads P (p_upd f) Q []"
  by (simp add: leads_def prog_defs)

lemma leads_read: "(\<And>s. P s \<Longrightarrow> leads (\<lambda>t. t = s) (k (f s)) Q ords) \<Longrightarrow> leads P (p_read f k) Q ords"
  by (simp add: leads_def p_read_def)

lemma leads_known: "(\<And>s. P s \<Longrightarrow> f s = a) \<Longrightarrow> leads P (k a) Q ords \<Longrightarrow> leads P (p_read f k) Q ords"
  by (auto simp: leads_def p_read_def)

lemma leads_for: "(\<And>x. x \<in> set xs \<Longrightarrow> leads P (body x) P []) \<Longrightarrow> leads P (p_for xs body) P []"
proof (induction xs)
  case (Cons x xs)
  then have "leads P (p_bind (body x) (\<lambda>_. p_for xs body)) P ([] @ [])"
    by (intro leads_bind) simp_all
  then show ?case
    by simp
qed (simp add: leads_silent)

lemma leads_try: "leads P m Q ords \<Longrightarrow> leads P (p_try X m h) Q ords"
  by (fastforce simp: leads_def p_try_def)

lemma leads_self: "leads P m Q ords \<Longrightarrow> leads (\<lambda>p. H (fst p) \<and> P (snd p)) (self m) (\<lambda>p. H (fst p) \<and> Q (snd p)) ords"
  by (fastforce simp: leads_def self_def p_lift_def split_beta)

section \<open>The scenario\<close>

text \<open>The currencies of the scenario, whatever the balances and commissions are.\<close>

definition accounted :: "string \<Rightarrow> symbol_data \<Rightarrow> bool" where
  "accounted k sd \<longleftrightarrow> (\<exists>x y z w. sd = (SymbolData k)\<lparr>sd_balance := x, sd_balance_usdt := y, sd_t_commission := z, sd_m_commission := w\<rparr>)"

definition coins :: "string list" where
  "coins = [''BNB'', ''BTC'', ''SXP'']"

definition listed :: "strategy \<Rightarrow> bool" where
  "listed st \<longleftrightarrow> map fst (st_symbol_data st) = coins \<and>
     (\<forall>k \<in> set coins. \<exists>sd. map_of (st_symbol_data st) k = Some sd \<and> accounted k sd)"

definition at_stage :: "(dbg_host \<Rightarrow> bool) \<Rightarrow> (symbol_data \<Rightarrow> bool) \<Rightarrow> debug \<Rightarrow> bool" where
  "at_stage H Q d \<longleftrightarrow> H (fst d) \<and> (\<exists>sd. map_of (st_symbol_data (snd d)) ''BTC'' = Some sd \<and> Q sd) \<and>
     (\<exists>sd. map_of (st_symbol_data (snd d)) ''BNB'' = Some sd \<and> \<not> sd_wait_price sd \<and> sd_price sd \<noteq> [])"

lemma leads_on_btc:
  assumes "leads (\<lambda>p. H (fst p) \<and> Q (snd p)) m (\<lambda>p. H' (fst p) \<and> Q' (snd p)) ords"
  shows "leads (at_stage H Q) (dbg_on_symbol ''BTC'' m) (at_stage H' Q') ords"
proof (rule leadsI)
  fix d
  assume "at_stage H Q d"
  then obtain h st sd where d: "d = (h, st)" "H h" "map_of (st_symbol_data st) ''BTC'' = Some sd" "Q sd"
    "\<exists>sd. map_of (st_symbol_data st) ''BNB'' = Some sd \<and> \<not> sd_wait_price sd \<and> sd_price sd \<noteq> []"
    by (cases d) (auto simp: at_stage_def)
  then have "(\<lambda>p. H (fst p) \<and> Q (snd p)) (h, sd)"
    by simp
  with assms obtain p es v where "m (h, sd) = (p, es, Done v)" "H' (fst p) \<and> Q' (snd p)" "orders_of es = ords" "deleted_of es = []"
    by (rule leadsE)
  with d show "\<exists>t es v. dbg_on_symbol ''BTC'' m d = (t, es, Done v) \<and> at_stage H' Q' t \<and> orders_of es = ords \<and> deleted_of es = []"
    by (cases p) (auto simp: dbg_on_symbol_def at_stage_def)
qed

subsection \<open>The account\<close>

lemma leads_assign:
  assumes "k \<in> set coins" and "\<And>sd. accounted k sd \<Longrightarrow> accounted k (f sd)"
  shows "leads listed (sd_assign k f) listed []"
proof (rule leadsI)
  fix st
  assume st: "listed st"
  with assms(1) obtain sd where sd: "map_of (st_symbol_data st) k = Some sd" "accounted k sd"
    by (auto simp: listed_def)
  have "map fst (dict_set k (f sd) (st_symbol_data st)) = map fst (st_symbol_data st)"
    by (rule keys_dict_set) (simp add: dict_has_def sd(1))
  with st sd assms(2) [OF sd(2)]
  show "\<exists>t es v. sd_assign k f st = (t, es, Done v) \<and> listed t \<and> orders_of es = [] \<and> deleted_of es = []"
    by (auto simp: sd_assign_def on_symbol_def p_upd_def listed_def)
qed

lemma leads_on_listed:
  assumes "k \<in> set coins"
  shows "leads listed (on_symbol k (p_read f (\<lambda>args. p_emit (ToLog (g args))))) listed []"
proof (rule leadsI)
  fix st
  assume st: "listed st"
  with assms obtain sd where sd: "map_of (st_symbol_data st) k = Some sd" "accounted k sd"
    by (auto simp: listed_def)
  have "map fst (dict_set k sd (st_symbol_data st)) = map fst (st_symbol_data st)"
    by (rule keys_dict_set) (simp add: dict_has_def sd(1))
  with st sd show "\<exists>t es v. on_symbol k (p_read f (\<lambda>args. p_emit (ToLog (g args)))) st = (t, es, Done v) \<and> listed t \<and>
      orders_of es = [] \<and> deleted_of es = []"
    by (auto simp: on_symbol_def p_read_def p_emit_def listed_def)
qed

lemma accounted_upd:
  "accounted k sd \<Longrightarrow> accounted k (sd\<lparr>sd_balance := x\<rparr>)" "accounted k sd \<Longrightarrow> accounted k (sd\<lparr>sd_balance_usdt := x\<rparr>)"
  "accounted k sd \<Longrightarrow> accounted k (sd\<lparr>sd_t_commission := z\<rparr>)" "accounted k sd \<Longrightarrow> accounted k (sd\<lparr>sd_m_commission := z\<rparr>)"
  by (cases sd; force simp: accounted_def SymbolData_def)+

lemma leads_val: "\<not> isl v \<Longrightarrow> (\<And>a. leads P (k a) Q ords) \<Longrightarrow> leads P (p_val v k) Q ords"
  by (cases v) simp_all

lemma leads_own:
  assumes "k \<in> set coins"
    and "\<not> isl (bind_sum (float_at msg kt) (\<lambda>x. fdiv x (flit 100)))" and "\<not> isl (bind_sum (float_at msg km) (\<lambda>x. fdiv x (flit 100)))"
    and "\<not> isl (float_at symbol kf)" and "\<not> isl (float_at symbol kl)"
  shows "leads listed (own_balance fmt msg symbol kt km kf kl k) listed []"
  unfolding own_balance_def set_commission_def
  by (intro leads_inv leads_val assms leads_assign leads_on_listed accounted_upd)

lemma leads_usdt:
  assumes "\<not> isl (float_at symbol kf)" and "\<not> isl (float_at symbol kl)"
  shows "leads listed (usdt_balance symbol kf kl) listed []"
  unfolding usdt_balance_def
proof (intro leads_inv leads_val assms leads_silent no_trade_simps leads_known [where a = coins] leads_for
    leads_assign accounted_upd)
  show "map fst (st_symbol_data st) = coins" if "listed st" for st
    using that by (simp add: listed_def)
qed simp_all

lemma listed_in_dict:
  "listed st \<Longrightarrow> in_dict (JStr k) (st_symbol_data st) = Inr (k \<in> set coins)"
  by (simp add: dict_has_def map_of_eq_None_iff) (auto simp: listed_def simp flip: set_map)

lemma leads_listed_known:
  "k \<in> set coins \<Longrightarrow> leads listed (act k) Q ords \<Longrightarrow> leads listed (if_known (JStr k) act other) Q ords"
  "k \<notin> set coins \<Longrightarrow> leads listed other Q ords \<Longrightarrow> leads listed (if_known (JStr k) act other) Q ords"
  unfolding if_known_def
  by (rule leads_known [where a = "Inr (k \<in> set coins)"], simp only: listed_in_dict, simp)+

lemma leads_account:
  defines "amounts a f l \<equiv> JObj [(''asset'', JStr a), (''free'', JStr f), (''locked'', JStr l)]"
  defines "bals \<equiv> [amounts ''BTC'' ''0.01200'' ''0.00000000'', amounts ''LTC'' ''0.68006'' ''0.00000000'',
    amounts ''USDT'' ''1001.8500'' ''0.0000'']"
  shows "leads listed (update_balances fmt (JObj [(''makerCommission'', JInt 10), (''takerCommission'', JInt 10), (''balances'', JList bals)])
     ''balances'' ''asset'' ''takerCommission'' ''makerCommission'' ''free'' ''locked'') listed []"
proof -
  define acc where "acc = JObj [(''makerCommission'', JInt 10), (''takerCommission'', JInt 10), (''balances'', JList bals)]"
  have com: "\<not> isl (bind_sum (float_at acc ''takerCommission'') (\<lambda>x. fdiv x (flit 100)))"
    "\<not> isl (bind_sum (float_at acc ''makerCommission'') (\<lambda>x. fdiv x (flit 100)))"
    using con_amounts(5) by (simp_all add: acc_def float_at_def dict_get_def)
  have item: "getitem (amounts a f l) ''asset'' = Inr (JStr a)" "float_at (amounts a f l) ''free'' = float_of (JStr f)"
    "float_at (amounts a f l) ''locked'' = float_of (JStr l)" for a f l
    by (simp_all add: amounts_def float_at_def dict_get_def)
  define body where "body = (\<lambda>symbol. p_val (getitem symbol ''asset'') (\<lambda>s.
    if_known s (own_balance fmt acc symbol ''takerCommission'' ''makerCommission'' ''free'' ''locked'')
      (if s = JStr ''USDT'' then usdt_balance symbol ''free'' ''locked'' else p_skip)))"
  have own: "leads listed (body (amounts k f l)) listed []"
    if "k \<in> set coins" "\<not> isl (float_of (JStr f))" "\<not> isl (float_of (JStr l))" for k f l
    unfolding body_def item(1) p_val_Inr
    by (intro leads_listed_known(1) that(1) leads_own com) (simp_all only: item that not_False_eq_True)
  have usdt: "leads listed (body (amounts ''USDT'' f l)) listed []"
    if "\<not> isl (float_of (JStr f))" "\<not> isl (float_of (JStr l))" for f l
  proof -
    have "leads listed (usdt_balance (amounts ''USDT'' f l) ''free'' ''locked'') listed []"
      by (intro leads_usdt) (simp_all only: item that not_False_eq_True)
    then show ?thesis
      unfolding body_def item(1) p_val_Inr by (intro leads_listed_known(2)) (simp_all add: coins_def)
  qed
  have ltc: "leads listed (body (amounts ''LTC'' f l)) listed []" for f l
    unfolding body_def item(1) p_val_Inr by (intro leads_listed_known(2)) (simp_all add: coins_def leads_silent)
  have "leads listed (p_for bals body) listed []"
    unfolding bals_def using own [of "''BTC''"] usdt ltc con_amounts by (intro leads_for) (auto simp: coins_def)
  moreover have "getitem acc ''balances'' = Inr (JList bals)"
    by (simp add: acc_def dict_get_def)
  ultimately show ?thesis
    by (simp add: update_balances_def acc_def [symmetric] body_def)
qed

lemma leads_self_listed:
  "leads listed m listed [] \<Longrightarrow> leads (\<lambda>d. listed (snd d)) (self m) (\<lambda>d. listed (snd d)) []"
  using leads_self [of listed m listed "[]" "\<lambda>_. True"] by simp

lemma leads_on_account: "leads (\<lambda>d. listed (snd d)) (dbg_on_account con_account) (\<lambda>d. listed (snd d)) []"
  unfolding dbg_on_account_def con_parsed sum.case
  by (intro leads_inv leads_self_listed leads_try leads_account; unfold log_func_def log_text_def; intro leads_silent; simp)

lemma leads_symbols: "leads (\<lambda>d. d = DebugStrategy) (dbg_on_symbols_list [''BNB'', ''BTC'', ''SXP'']) (\<lambda>d. listed (snd d)) []"
proof (rule leadsI)
  fix d
  assume d: "d = DebugStrategy"
  have acc: "accounted k (SymbolData k)" for k
    by (force simp: accounted_def SymbolData_def)
  show "\<exists>t es v. dbg_on_symbols_list [''BNB'', ''BTC'', ''SXP''] d = (t, es, Done v) \<and> listed (snd t) \<and> orders_of es = [] \<and> deleted_of es = []"
    using acc [of "''BNB''"] acc [of "''BTC''"] acc [of "''SXP''"]
    by (simp add: d DebugStrategy_def dbg_on_symbols_list_def log_func_def self_def on_host_def p_lift_def run_prog create_timer_run
        Strategy_def dict_set_def listed_def coins_def)
qed

subsection \<open>The currency\<close>

text \<open>The states of BTC along the scenario, over the state \<open>s\<close> it has after the account.\<close>

definition S1 :: "symbol_data \<Rightarrow> symbol_data" where
  "S1 s = data_ready (with_temp (Fin False 11200) (Fin False 11300) (Fin False 10600) (Fin False 10630) (flit (1 / 500)) s)"

definition S2 :: "symbol_data \<Rightarrow> symbol_data" where "S2 s = started (JStr ''BUY'') (S1 s)"
definition S3 :: "symbol_data \<Rightarrow> symbol_data" where "S3 s = price_in (Fin False 11000) (S2 s)"
definition S4 :: "symbol_data \<Rightarrow> symbol_data" where "S4 s = price_in (Fin False 11100) (S3 s)"
definition S5 :: "symbol_data \<Rightarrow> symbol_data" where "S5 s = fire (price_in (Fin False 11250) (S4 s))"

definition new_json :: json where
  "new_json = JObj [(''c'', JStr ''order_USDT_to_BTC_0''), (''X'', JStr ''NEW''), (''s'', JStr ''BTCUSDT'')]"

definition filled_json :: json where
  "filled_json = JObj [(''c'', JStr ''order_USDT_to_BTC_0''), (''X'', JStr ''FILLED''), (''s'', JStr ''BTCUSDT''),
     (''N'', JStr ''USDT''), (''p'', JStr ''10630''), (''n'', JStr ''0.00012'')]"

definition S6 :: "symbol_data \<Rightarrow> symbol_data" where "S6 s = confirmed (report_in new_json (S5 s))"

lemma accounted_inv: "accounted k s \<Longrightarrow> sd_inv k s"
proof -
  assume "accounted k s"
  then obtain x y z w where s: "s = (SymbolData k)\<lparr>sd_balance := x, sd_balance_usdt := y, sd_t_commission := z, sd_m_commission := w\<rparr>"
    by (auto simp: accounted_def)
  show "sd_inv k s"
    using sd_inv_init [of k] mode_ok_cong [of s "SymbolData k"] by (simp add: s sd_inv_def data_ok_def machine_ok_def)
qed

lemma accounted_simps:
  assumes "accounted k s"
  shows "sd_price s = [f0, f0]" "sd_trigger s = [f0, f0]" "\<not> sd_running s" "\<not> sd_wait_price s" "sd_step s = 0" "sd_counter s = 0"
    "sd_symbol s = k" "sd_stepSize s = flit (1 / 1000000)" "sd_change_mode s = False" "sd_orders s = sd_orders (SymbolData k)"
    "phase_of s = Idle"
  using assms by (auto simp: accounted_def SymbolData_def phase_of_def)

lemma S1_simps:
  assumes "accounted ''BTC'' s"
  shows "sd_price (S1 s) = [f0, f0]" "sd_trigger (S1 s) = [f0, f0]" "\<not> sd_running (S1 s)" "sd_step (S1 s) = 0" "sd_counter (S1 s) = 0"
    "sd_temp_trigger (S1 s) = [Fin False 11200, Fin False 10600]" "sd_temp_price (S1 s) = [Fin False 11300, Fin False 10630]"
    "sd_temp_quantity (S1 s) = flit (1 / 500)" "sd_symbol (S1 s) = ''BTC''" "sd_stepSize (S1 s) = flit (1 / 1000000)"
    "sd_orders (S1 s) = sd_orders (SymbolData ''BTC'')"
  using accounted_simps [OF assms] by (simp_all add: S1_def with_temp_def)

lemma S1_inv:
  assumes "accounted ''BTC'' s"
  shows "sd_inv ''BTC'' (S1 s)" and "phase_of (S1 s) = Idle"
proof -
  define u where "u = with_temp (Fin False 11200) (Fin False 11300) (Fin False 10600) (Fin False 10630) (flit (1 / 500)) s"
  note inv = accounted_inv [OF assms]
  then have "temp_changed s u"
    by (simp add: temp_changed_def u_def with_temp_def sd_inv_def data_ok_def)
  note t = inv_temp_changed [OF inv this]
  have "data_set u = S1 s"
    using accounted_simps(3) [OF assms] by (simp add: data_set_def S1_def u_def with_temp_def)
  then show "sd_inv ''BTC'' (S1 s)" and "phase_of (S1 s) = Idle"
    using inv_data_set(1,2) [OF t(1)] t(2) accounted_simps(11) [OF assms] by simp_all
qed

lemma S2_inv:
  assumes "accounted ''BTC'' s"
  shows "sd_inv ''BTC'' (S2 s)" and "phase_of (S2 s) = Armed 0"
  using inv_started(1,2) [OF S1_inv [OF assms], of "JStr ''BUY''"] by (simp_all add: S2_def)

lemma S2_simps:
  assumes "accounted ''BTC'' s"
  shows "sd_price (S2 s) = [f0, f0]" "sd_trigger (S2 s) = [Fin False 11200, Fin False 10600]" "sd_wait_price (S2 s)" "sd_step (S2 s) = 0"
    "sd_counter (S2 s) = 0" "sd_symbol (S2 s) = ''BTC''" "sd_stepSize (S2 s) = flit (1 / 1000000)"
    "sd_orders (S2 s) = map (\<lambda>(ord, p). ord\<lparr>o_price := p, o_quantity := flit (1 / 500)\<rparr>)
       (zip (sd_orders (SymbolData ''BTC'')) [Fin False 11300, Fin False 10630])"
  using S1_simps [OF assms]
  by (simp_all add: S2_def started_def retargeted_def take_temp_data_def upd_order_def SymbolData_def)

lemma price_in_simps [simp]:
  "sd_price (price_in x s) = x # butlast (sd_price s)" "sd_trigger (price_in x s) = sd_trigger s" "sd_step (price_in x s) = sd_step s"
  "sd_wait_price (price_in x s) = sd_wait_price s" "sd_orders (price_in x s) = sd_orders s" "sd_counter (price_in x s) = sd_counter s"
  "sd_symbol (price_in x s) = sd_symbol s" "sd_stepSize (price_in x s) = sd_stepSize s" "sd_fsm (price_in x s) = sd_fsm s"
  by (simp_all add: price_in_def)

lemma S34_simps:
  assumes "accounted ''BTC'' s"
  shows "sd_price (S3 s) = [Fin False 11000, f0]" "sd_price (S4 s) = [Fin False 11100, Fin False 11000]"
    "sd_trigger (S3 s) = [Fin False 11200, Fin False 10600]" "sd_trigger (S4 s) = [Fin False 11200, Fin False 10600]"
    "sd_wait_price (S3 s)" "sd_wait_price (S4 s)" "sd_step (S3 s) = 0" "sd_step (S4 s) = 0" "sd_orders (S4 s) = sd_orders (S2 s)"
    "sd_symbol (S4 s) = ''BTC''" "sd_counter (S4 s) = 0" "sd_stepSize (S4 s) = flit (1 / 1000000)"
  using S2_simps [OF assms] by (simp_all add: S3_def S4_def)

lemma S34_inv:
  assumes "accounted ''BTC'' s"
  shows "sd_inv ''BTC'' (S3 s)" "sd_inv ''BTC'' (S4 s)" "phase_of (S3 s) = Armed 0" "phase_of (S4 s) = Armed 0"
proof -
  show S3: "sd_inv ''BTC'' (S3 s)" "phase_of (S3 s) = Armed 0"
    using inv_price_in [OF S2_inv(1) [OF assms]] S2_inv(2) [OF assms] S2_simps(1) [OF assms] by (simp_all add: S3_def)
  then show "sd_inv ''BTC'' (S4 s)" "phase_of (S4 s) = Armed 0"
    using inv_price_in [OF S3(1)] S34_simps(1) [OF assms] by (simp_all add: S4_def)
qed

lemma armed_state: "sd_inv k s \<Longrightarrow> phase_of s = Armed i \<Longrightarrow> fsm_state (sd_fsm s) = ST_WAIT_PRICE"
  by (rule phase_cases [OF sd_invD(3)]) auto

lemma submitted_state: "sd_inv k s \<Longrightarrow> phase_of s = Submitted i \<Longrightarrow> fsm_state (sd_fsm s) = ST_WAIT_ORDER_CMPL"
  by (rule phase_cases [OF sd_invD(3)]) auto

lemma open_state: "sd_inv k s \<Longrightarrow> phase_of s = Open i \<Longrightarrow> fsm_state (sd_fsm s) = ST_WAIT_ORDER_FILL"
  by (rule phase_cases [OF sd_invD(3)]) auto

lemma S5_before:
  assumes "accounted ''BTC'' s"
  shows "sd_inv ''BTC'' (price_in (Fin False 11250) (S4 s))" "fsm_state (sd_fsm (price_in (Fin False 11250) (S4 s))) = ST_WAIT_PRICE"
proof -
  show inv: "sd_inv ''BTC'' (price_in (Fin False 11250) (S4 s))"
    using inv_price_in(1) [OF S34_inv(2) [OF assms]] S34_simps(2) [OF assms] by simp
  show "fsm_state (sd_fsm (price_in (Fin False 11250) (S4 s))) = ST_WAIT_PRICE"
    using armed_state [OF S34_inv(2,4) [OF assms]] by simp
qed

definition the_purchase :: order where
  "the_purchase = Order\<lparr>o_symbol := ''BTCUSDT'', o_type := LIMIT, o_timeInForce := GTC, o_side := BUY, o_price := Fin False 11300,
     o_quantity := flit (1 / 500), o_newClientOrderId := ''order_USDT_to_BTC_0''\<rparr>"

lemma name_BTC: "order_id 0 ''BTC'' 0 = ''order_USDT_to_BTC_0''"
  by code_simp

lemma placed_purchase:
  assumes "accounted ''BTC'' s"
  shows "placed_order (S4 s) = the_purchase"
  using S34_simps [OF assms] S2_simps [OF assms]
  by (simp add: placed_order_def current_order_def the_purchase_def name_BTC SymbolData_def)

lemma S5_inv:
  assumes "accounted ''BTC'' s"
  shows "sd_inv ''BTC'' (S5 s)" "phase_of (S5 s) = Submitted 0" "sd_step (S5 s) = 0" "current_order (S5 s) = the_purchase"
    "o_quantity (sd_orders (S5 s) ! 1) = flit (1 / 500)" "sd_stepSize (S5 s) = flit (1 / 1000000)"
proof -
  define t where "t = price_in (Fin False 11250) (S4 s)"
  have t: "sd_step t = 0" "placed_order t = the_purchase" "length (sd_orders t) = 2" "sd_stepSize t = flit (1 / 1000000)"
    "o_quantity (sd_orders t ! 1) = flit (1 / 500)"
    using S34_simps [OF assms] S2_simps [OF assms] placed_purchase [OF assms]
    by (simp_all add: t_def placed_order_def current_order_def SymbolData_def)
  show "sd_inv ''BTC'' (S5 s)" "phase_of (S5 s) = Submitted 0"
    using inv_fire(1,2) [OF S5_before [OF assms]] t(1) by (simp_all add: S5_def t_def)
  have "sd_orders (S5 s) = (sd_orders t)[0 := the_purchase]"
    using t(1,2) by (simp add: S5_def t_def [symmetric] fire_def place_order_def) (simp add: placed_order_def current_order_def)
  moreover have "sd_step (S5 s) = 0" "sd_stepSize (S5 s) = flit (1 / 1000000)"
    using t(1,4) by (simp_all add: S5_def t_def [symmetric] fire_def place_order_def)
  ultimately show "sd_step (S5 s) = 0" "current_order (S5 s) = the_purchase"
    "o_quantity (sd_orders (S5 s) ! 1) = flit (1 / 500)" "sd_stepSize (S5 s) = flit (1 / 1000000)"
    using t(3,5) by (simp_all add: current_order_def)
qed

lemma S6_inv:
  assumes "accounted ''BTC'' s"
  shows "sd_inv ''BTC'' (S6 s)" "phase_of (S6 s) = Open 0" "current_order (S6 s) = the_purchase"
    "o_quantity (sd_orders (S6 s) ! 1) = flit (1 / 500)" "sd_stepSize (S6 s) = flit (1 / 1000000)" "sd_step (S6 s) = 0"
proof -
  have "fsm_state (sd_fsm (report_in new_json (S5 s))) = ST_WAIT_ORDER_CMPL"
    using submitted_state [OF S5_inv(1,2) [OF assms]] by (simp add: report_in_def)
  from inv_confirmed(1,2) [OF inv_report_in(1) [OF S5_inv(1) [OF assms]] this]
  show "sd_inv ''BTC'' (S6 s)" "phase_of (S6 s) = Open 0" "current_order (S6 s) = the_purchase"
    "o_quantity (sd_orders (S6 s) ! 1) = flit (1 / 500)" "sd_stepSize (S6 s) = flit (1 / 1000000)" "sd_step (S6 s) = 0"
    using S5_inv [OF assms] by (simp_all add: S6_def)
qed

section \<open>The steps of the scenario\<close>

definition stage :: "(symbol_data \<Rightarrow> symbol_data) \<Rightarrow> symbol_data \<Rightarrow> bool" where
  "stage S sd \<longleftrightarrow> (\<exists>s. accounted ''BTC'' s \<and> sd = S s)"

abbreviation anyhost :: "dbg_host \<Rightarrow> bool" where
  "anyhost \<equiv> \<lambda>_. True"

lemma leads_stage:
  assumes "\<And>h s. H h \<Longrightarrow> accounted ''BTC'' s \<Longrightarrow>
    \<exists>h' es. m (h, S s) = ((h', S' s), es, Done ()) \<and> H' h' \<and> trades ords es"
  shows "leads (at_stage H (stage S)) (dbg_on_symbol ''BTC'' m) (at_stage H' (stage S')) ords"
proof (rule leads_on_btc, rule leadsI)
  fix p
  assume "H (fst p) \<and> stage S (snd p)"
  then obtain h s where "p = (h, S s)" "H h" "accounted ''BTC'' s"
    by (cases p) (auto simp: stage_def)
  with assms [of h s] show "\<exists>t es v. m p = (t, es, Done v) \<and> (H' (fst t) \<and> stage S' (snd t)) \<and> orders_of es = ords \<and> deleted_of es = []"
    by (auto simp: stage_def trades_def)
qed

lemma leads_if_known:
  assumes "k \<in> {''BTC'', ''BNB''}" and "leads (at_stage H Q) (act k) R ords"
  shows "leads (at_stage H Q) (dbg_if_known (JStr k) act other) R ords"
  unfolding dbg_if_known_def
proof (rule leads_known [where a = "Inr True"])
  show "(case d of (h, st) \<Rightarrow> in_dict (JStr k) (st_symbol_data st)) = Inr True" if "at_stage H Q d" for d
    using that assms(1) by (auto simp: at_stage_def dict_has_def split_beta)
qed (simp add: assms(2))

lemma leads_says: "leads P (self (log_func f)) P []" "leads P (self (log_text t)) P []" "leads P (p_emit (ToLog j)) P []"
  by (simp_all add: leads_def log_func_def log_text_def self_def p_lift_def p_emit_def)

lemma leads_after: "leads P c P [] \<Longrightarrow> leads P m Q ords \<Longrightarrow> leads P (p_bind c (\<lambda>_. m)) Q ords"
  using leads_bind [of P c P "[]" "\<lambda>_. m" Q ords] by simp

lemma leads_trade_data:
  "leads (\<lambda>d. listed (snd d)) (dbg_on_trade_data con_trade_data) (at_stage anyhost (stage S1)) []"
proof -
  define j where "j = [(''c'', JStr ''tradeData''), (''a'', JStr ''set''), (''s'', JStr ''BTC''), (''q'', JStr ''0.002''), (''r'', JStr ''1s''),
     (''B'', JObj [(''t'', JStr ''11200.00000000''), (''p'', JStr ''11300.00000000'')]),
     (''S'', JObj [(''t'', JStr ''10600.00000000''), (''p'', JStr ''10630.00000000'')])]"
  have items: "dict_get j ''a'' = Inr (JStr ''set'')" "getitem (JObj j) ''s'' = Inr (JStr ''BTC'')" "getitem (JObj j) ''a'' = Inr (JStr ''set'')"
    by (simp_all add: j_def dict_get_def)
  define d where "d = dict_set ''e'' (JStr ''tradeData'') j"
  have floats: "float_at2 (JObj d) ''B'' ''t'' = Inr (Fin False 11200)" "float_at2 (JObj d) ''B'' ''p'' = Inr (Fin False 11300)"
    "float_at2 (JObj d) ''S'' ''t'' = Inr (Fin False 10600)" "float_at2 (JObj d) ''S'' ''p'' = Inr (Fin False 10630)"
    "float_at (JObj d) ''q'' = Inr (flit (1 / 500))"
    by (simp_all add: d_def float_at2_def float_at_def dict_get_set del: float_of.simps)
      (simp_all add: j_def dict_get_def con_floats del: float_of.simps)
  have set: "leads (at_stage anyhost (stage (\<lambda>s. s))) (dbg_on_symbol ''BTC'' (dbg_sd_on_trade_data (JObj j))) (at_stage anyhost (stage S1)) []"
  proof (rule leads_stage)
    fix h s
    assume acc: "accounted ''BTC'' s"
    have "machine_ok s" "length (sd_temp_trigger s) = 2" "length (sd_temp_price s) = 2"
      using accounted_inv [OF acc] by (simp_all add: sd_inv_def data_ok_def)
    from dbg_set_run [OF this(1) accounted_simps(3) [OF acc] items(1) this(2,3) floats [unfolded d_def], of h]
    show "\<exists>h' es. dbg_sd_on_trade_data (JObj j) (h, s) = ((h', S1 s), es, Done ()) \<and> anyhost h' \<and> trades [] es"
      unfolding S1_def by blast
  qed
  have "leads (at_stage anyhost (stage (\<lambda>s. s))) (dbg_on_trade_data con_trade_data) (at_stage anyhost (stage S1)) []"
    unfolding dbg_on_trade_data_def con_parsed(2) j_def [symmetric] sum.case
    using set items(2,3)
    by (auto intro!: leads_after leads_says leads_silent leads_if_known)
  moreover have "at_stage anyhost (stage (\<lambda>s. s)) d" if "listed (snd d)" for d
  proof -
    have "accounted k sd \<Longrightarrow> \<not> sd_wait_price sd \<and> sd_price sd \<noteq> []" for k sd
      by (simp add: accounted_simps)
    with that show ?thesis
      by (fastforce simp: at_stage_def stage_def listed_def coins_def)
  qed
  ultimately show ?thesis
    by (rule leads_conseq)
qed

lemma leads_steps: "leads (at_stage anyhost (stage S)) (dbg_get_trade_steps ''BTC'') (at_stage anyhost (stage S)) []"
proof (rule leadsI)
  fix d
  assume d: "at_stage anyhost (stage S) d"
  then obtain h st sd where hs: "d = (h, st)" "map_of (st_symbol_data st) ''BTC'' = Some sd"
    by (cases d) (auto simp: at_stage_def)
  have "\<exists>v L. sd_get_trade_steps sd = (sd, [ToLog L], Done v)"
  proof (cases "f0 < sd_temp_price sd ! 0")
    case True
    then obtain q where "fdiv (fadd (b_free (sd_balance_usdt sd)) (b_locked (sd_balance sd))) (sd_temp_price sd ! 0) = Inr q"
      using positive_divides by blast
    with True show ?thesis
      by (simp add: sd_get_trade_steps_def log_fsm_def Let_def run_prog)
  qed (simp add: sd_get_trade_steps_def log_fsm_def Let_def run_prog)
  with hs d show "\<exists>t es v. dbg_get_trade_steps ''BTC'' d = (t, es, Done v) \<and> at_stage anyhost (stage S) t \<and> orders_of es = [] \<and> deleted_of es = []"
    by (auto simp: dbg_get_trade_steps_def st_get_trade_steps_def self_def p_lift_def log_func_def on_symbol_def dict_has_def run_prog
        at_stage_def)
qed

lemma leads_on_price:
  assumes "json_loads t = Inr (JObj [(''symbol'', JStr smb), (''price'', JStr p)])" and "py_remove ''USDT'' smb = k"
    and "k \<in> {''BTC'', ''BNB''}" and "leads (at_stage H Q) (dbg_on_symbol k (dbg_sd_on_price (JStr p))) R ords"
  shows "leads (at_stage H Q) (dbg_on_price t) R ords"
  using assms(2-4) by (auto simp: dbg_on_price_def assms(1) dict_get_def intro!: leads_try leads_if_known)

text \<open>A price for BNB does nothing to BTC.\<close>

lemma leads_price_other:
  assumes "float_of (JStr p) = Inr x"
  shows "leads (at_stage H Q) (dbg_on_symbol ''BNB'' (dbg_sd_on_price (JStr p))) (at_stage H Q) []"
proof (rule leadsI)
  fix d
  assume "at_stage H Q d"
  then obtain h st sd where d: "d = (h, st)" "map_of (st_symbol_data st) ''BNB'' = Some sd" "\<not> sd_wait_price sd" "sd_price sd \<noteq> []"
    "H h" "\<exists>sd. map_of (st_symbol_data st) ''BTC'' = Some sd \<and> Q sd"
    by (cases d) (auto simp: at_stage_def)
  then show "\<exists>t es v. dbg_on_symbol ''BNB'' (dbg_sd_on_price (JStr p)) d = (t, es, Done v) \<and> at_stage H Q t \<and> orders_of es = [] \<and> deleted_of es = []"
    using dbg_price_run [OF d(4) assms, of h] by (simp add: dbg_on_symbol_def at_stage_def)
qed

lemma stage_quiet:
  assumes "accounted ''BTC'' s \<Longrightarrow> sd_inv ''BTC'' (S s) \<and> phase_of (S s) = Armed 0 \<and> sd_wait_price (S s) \<and> sd_price (S s) \<noteq> [] \<and>
      is_trigger_in_price (sd_trigger (S s) ! sd_step (S s)) (price_in x (S s)) = Inr False"
    and "float_of (JStr p) = Inr x" and "accounted ''BTC'' s"
  shows "\<exists>h' es. dbg_sd_on_price (JStr p) (h, S s) = ((h', price_in x (S s)), es, Done ()) \<and> anyhost h' \<and> trades [] es"
proof -
  note s = assms(1) [OF assms(3)]
  have "machine_ok (price_in x (S s))" "fsm_state (sd_fsm (price_in x (S s))) = ST_WAIT_PRICE"
    using s sd_invD(1) [of "''BTC''" "S s"] armed_state [of "''BTC''" "S s"] by (simp_all add: machine_ok_def)
  from dbg_run_quiet [OF this] s show ?thesis
    by (simp add: dbg_price_run [OF _ assms(2)])
qed

lemma leads_run:
  "leads (at_stage anyhost (stage S1)) (dbg_on_trade_run con_trade_run) (at_stage anyhost (stage S2)) []"
proof -
  define j where "j = JObj [(''c'', JStr ''runTrade''), (''s'', JStr ''BTC''), (''p'', JStr ''BUY''), (''a'', JStr ''start'')]"
  have items: "run_request j = Inr (True, JStr ''BUY'')" "getitem j ''s'' = Inr (JStr ''BTC'')"
    by (simp_all add: j_def run_request_def dict_get_def)
  have "leads (at_stage anyhost (stage S1)) (dbg_on_symbol ''BTC'' (dbg_sd_on_trade_run j)) (at_stage anyhost (stage S2)) []"
  proof (rule leads_stage)
    fix h s
    assume acc: "accounted ''BTC'' s"
    show "\<exists>h' es. dbg_sd_on_trade_run j (h, S1 s) = ((h', S2 s), es, Done ()) \<and> anyhost h' \<and> trades [] es"
      using dbg_start_run [OF sd_invD(1) [OF S1_inv(1) [OF acc]] S1_simps(3) [OF acc] items(1) trigger_zero [OF S1_simps(1) [OF acc]], of h]
      unfolding S2_def by blast
  qed
  then show ?thesis
    unfolding dbg_on_trade_run_def con_parsed(3) j_def [symmetric] using items(2)
    by (auto intro!: leads_after leads_says leads_try leads_if_known)
qed

text \<open>A thread of the host is about to call its function.\<close>

definition alarmed :: "dbg_host \<Rightarrow> bool" where
  "alarmed h \<longleftrightarrow> timer_started h \<and> (\<exists>i. thread_fires i h)"

lemma alarmed_started: "alarmed (state_of (dbg_start_timer name k h))"
  by (auto simp: alarmed_def timer_started_def start_timer_run thread_fires_def intro!: exI [of _ "length (db_threads h)"])

lemma leads_prices:
  "leads (at_stage anyhost (stage S2)) (dbg_on_price con_price_1) (at_stage anyhost (stage S3)) []"
  "leads (at_stage anyhost (stage S3)) (dbg_on_price con_price_2) (at_stage anyhost (stage S3)) []"
  "leads (at_stage anyhost (stage S3)) (dbg_on_price con_price_3) (at_stage anyhost (stage S4)) []"
  "leads (at_stage anyhost (stage S4)) (dbg_on_price con_price_4) (at_stage alarmed (stage S5)) [the_purchase]"
proof -
  have below: "is_trigger_in_price (Fin False 11200) t = Inr False"
    if "sd_price t = [Fin False 11000, f0] \<or> sd_price t = [Fin False 11100, Fin False 11000]" for t
    using that by (auto simp: is_trigger_in_price_def py_nth_def less_eq_pyfloat_def signed_def f0_def)
  show "leads (at_stage anyhost (stage S2)) (dbg_on_price con_price_1) (at_stage anyhost (stage S3)) []"
    by (intro leads_on_price [OF con_parsed(4) con_currencies(1)] leads_stage)
      (simp, use stage_quiet [of _ S2, OF _ con_floats(1)] S2_inv S2_simps below in \<open>simp add: S3_def\<close>)
  show "leads (at_stage anyhost (stage S3)) (dbg_on_price con_price_2) (at_stage anyhost (stage S3)) []"
    by (intro leads_on_price [OF con_parsed(5) con_currencies(2)] leads_price_other [OF con_floats(4)]) simp
  show "leads (at_stage anyhost (stage S3)) (dbg_on_price con_price_3) (at_stage anyhost (stage S4)) []"
    by (intro leads_on_price [OF con_parsed(6) con_currencies(1)] leads_stage)
      (simp, use stage_quiet [of _ S3, OF _ con_floats(2)] S34_inv S34_simps below in \<open>simp add: S4_def\<close>)
  have fires: "\<exists>h' es. dbg_sd_on_price (JStr ''11250'') (h, S4 s) = ((h', S5 s), es, Done ()) \<and> alarmed h' \<and> trades [the_purchase] es"
    if acc: "accounted ''BTC'' s" for h s
  proof -
    have hit: "is_trigger_in_price (sd_trigger (price_in (Fin False 11250) (S4 s)) ! sd_step (price_in (Fin False 11250) (S4 s)))
        (price_in (Fin False 11250) (S4 s)) = Inr True"
      using S34_simps [OF acc] by (simp add: is_trigger_in_price_def py_nth_def less_eq_pyfloat_def signed_def)
    have "placed_order (price_in (Fin False 11250) (S4 s)) = placed_order (S4 s)"
      by (simp add: placed_order_def current_order_def)
    then show ?thesis
      using dbg_run_fires [OF sd_invD(1) [OF S5_before(1) [OF acc]] S5_before(2) [OF acc] hit sd_invD(5,6) [OF S5_before(1) [OF acc]], of h]
        S34_simps [OF acc] placed_purchase [OF acc] alarmed_started
      by (auto simp: dbg_price_run [OF _ con_floats(3)] S5_def)
  qed
  show "leads (at_stage anyhost (stage S4)) (dbg_on_price con_price_4) (at_stage alarmed (stage S5)) [the_purchase]"
    by (intro leads_on_price [OF con_parsed(7) con_currencies(1)] leads_stage) (simp_all add: fires del: float_of.simps)
qed

lemma leads_purchase: "leads (at_stage anyhost (stage S4)) (dbg_on_price con_price_4) (at_stage timer_started (stage S5)) [the_purchase]"
  by (rule leads_conseq [OF leads_prices(4)]) (auto simp: at_stage_def alarmed_def)

lemma leads_report:
  assumes "json_loads t = Inr j" and "getitem j ''s'' = Inr (JStr ''BTCUSDT'')"
    and "leads (at_stage H Q) (dbg_on_symbol ''BTC'' (dbg_sd_on_order_report j)) R ords"
  shows "leads (at_stage H Q) (dbg_on_order_report t) R ords"
  using assms(3)
  by (auto simp: dbg_on_order_report_def assms(1,2) con_currencies intro!: leads_after leads_says leads_try leads_if_known)

lemma leads_new: "leads (at_stage timer_started (stage S5)) (dbg_on_order_report con_new_report) (at_stage timer_started (stage S6)) []"
proof (rule leads_report [OF con_parsed(8) [folded new_json_def]])
  show "getitem new_json ''s'' = Inr (JStr ''BTCUSDT'')"
    by (simp add: new_json_def dict_get_def)
  show "leads (at_stage timer_started (stage S5)) (dbg_on_symbol ''BTC'' (dbg_sd_on_order_report new_json)) (at_stage timer_started (stage S6)) []"
  proof (rule leads_stage)
    fix h s
    assume h: "timer_started h" and acc: "accounted ''BTC'' s"
    have "reports new_json ''NEW'' (S5 s)"
      by (simp add: reports_def new_json_def dict_get_def S5_inv(4) [OF acc] the_purchase_def)
    from dbg_confirm_run [OF sd_invD(1) [OF S5_inv(1) [OF acc]] submitted_state [OF S5_inv(1,2) [OF acc]] this h]
    show "\<exists>h' es. dbg_sd_on_order_report new_json (h, S5 s) = ((h', S6 s), es, Done ()) \<and> timer_started h' \<and> trades [] es"
      unfolding S6_def .
  qed
qed

text \<open>The order of the sale, corrected, keeps its quantity in six digits.\<close>

definition S7 :: "symbol_data \<Rightarrow> symbol_data" where
  "S7 s = rearmed (requantify 1 (flit (1 / 500)) (filled (report_in filled_json (S6 s))))"

lemma leads_filled:
  "leads (at_stage timer_started (stage S6)) (dbg_on_order_report con_filled_report) (at_stage timer_started (stage S7)) []"
proof (rule leads_report [OF con_parsed(9) [folded filled_json_def]])
  show "getitem filled_json ''s'' = Inr (JStr ''BTCUSDT'')"
    by (simp add: filled_json_def dict_get_def)
  show "leads (at_stage timer_started (stage S6)) (dbg_on_symbol ''BTC'' (dbg_sd_on_order_report filled_json)) (at_stage timer_started (stage S7)) []"
  proof (rule leads_stage)
    fix h s
    assume h: "timer_started h" and acc: "accounted ''BTC'' s"
    obtain i where i: "db_timer h = Some i"
      using h by (auto simp: timer_started_def)
    note inv = S6_inv [OF acc]
    obtain z m where size: "flit (1 / 1000000) = Fin z m" "0 \<le> m"
      using demo_step_finite demo_stepSize by metis
    obtain c where c: "bind_sum (float_of (JStr ''0.00012'')) (\<lambda>n. fdiv n (Fin False 10630)) = Inr c"
      "fround_dec (fsub (flit (1 / 500)) c) 6 = flit (1 / 500)"
      using con_commission by (auto split: sum.splits)
    define t where "t = filled (report_in filled_json (S6 s))"
    have rep: "reports filled_json ''FILLED'' (S6 s)"
      by (simp add: reports_def filled_json_def dict_get_def inv(3) the_purchase_def)
    have t: "sd_report t = Some filled_json" "sd_step t = 1" "length (sd_orders t) = 2" "sd_stepSize t = Fin z m"
      "o_quantity (current_order t) = flit (1 / 500)"
      using stepped_new [of "S6 s" filled_json] sd_invD(6) [OF inv(1)] inv(4-6) size(1)
      by (simp_all add: t_def current_order_def) (simp add: report_in_def)
    have items: "getitem filled_json ''N'' = Inr (JStr ''USDT'')" "getitem filled_json ''n'' = Inr (JStr ''0.00012'')"
      "getitem filled_json ''p'' = Inr (JStr ''10630'')"
      by (simp_all add: filled_json_def dict_get_def)
    have com: "(if JStr ''USDT'' = JStr ''USDT'' then bind_sum (float_at filled_json ''n'') (\<lambda>n. bind_sum (float_at filled_json ''p'') (fdiv n))
        else float_at filled_json ''n'') = Inr c"
      using c(1) by (simp add: float_at_def items con_floats del: float_of.simps)
    have settle: "state_of (dbg_settle_commission t) = requantify 1 (flit (1 / 500)) t" "outcome_of (dbg_settle_commission t) = Done ()"
      using dbg_settle_quantity [OF t(1) items(1) _ items(2) _ t(4) size(2) com] t(2,3,5) c(2) by simp_all
    have "state_of (dbg_sd_on_order_report filled_json (h, S6 s)) = (thread_ends i h, S7 s)"
      "outcome_of (dbg_sd_on_order_report filled_json (h, S6 s)) = Done ()"
      using dbg_report_fill [OF inv(1,2) rep i, folded t_def] settle by (simp_all add: S7_def t_def)
    moreover have "trades [] (effects_of (dbg_sd_on_order_report filled_json (h, S6 s)))"
      using open_state [OF inv(1,2)] sd_invD(1) [OF inv(1)] by (intro dbg_fill_effects)
    moreover have "timer_started (thread_ends i h)"
      by (simp add: timer_started_def thread_ends_def i)
    ultimately show "\<exists>h' es. dbg_sd_on_order_report filled_json (h, S6 s) = ((h', S7 s), es, Done ()) \<and> timer_started h' \<and> trades [] es"
      by (metis prod.collapse)
  qed
qed

lemma S7_phase: "accounted ''BTC'' s \<Longrightarrow> phase_of (S7 s) = Armed 1"
  using machine_filled [OF sd_invD(1) [OF S6_inv(1)], of s filled_json] stepped_new [of "S6 s" filled_json] S6_inv(6)
  by (simp add: S7_def phase_rearmed machine_ok_def upd_order_def)

text \<open>C32. The scenario of the console's command \<open>symb\<close>: with the messages of the console, from the list of symbols and the
  account to the report that fills the purchase, every call returns, the one order placed is the purchase of
  0.002 BTC at 11300 USDT, none is deleted, and the machine of BTC ends waiting for the price of the sale.\<close>

theorem con_symb_trades:
  "let r = con_symb DebugStrategy in
    outcome_of r = Done () \<and> orders_of (effects_of r) = [the_purchase] \<and> deleted_of (effects_of r) = [] \<and>
    (\<exists>sd. map_of (st_symbol_data (snd (state_of r))) ''BTC'' = Some sd \<and> phase_of sd = Armed 1)"
proof -
  have "leads (\<lambda>d. d = DebugStrategy) con_symb (at_stage timer_started (stage S7))
    ([] @ [] @ [] @ ([] @ []) @ [] @ [] @ [] @ [] @ [the_purchase] @ [] @ [] @ [])"
    unfolding con_symb_def
    by (rule leads_block leads_symbols leads_on_account leads_trade_data leads_bind leads_steps leads_silent leads_run leads_prices(1-3)
        leads_purchase leads_new leads_filled)+
  then obtain d es v where r: "con_symb DebugStrategy = (d, es, Done v)" "at_stage timer_started (stage S7) d"
    "orders_of es = [the_purchase]" "deleted_of es = []"
    by (rule leadsE) auto
  from r(2) obtain sd where "map_of (st_symbol_data (snd d)) ''BTC'' = Some sd" "phase_of sd = Armed 1"
    by (auto simp: at_stage_def stage_def S7_phase)
  with r show ?thesis
    by (simp add: Let_def)
qed

text \<open>The commands that call a method the debug copy has not end the session.\<close>

lemma con_missing_methods:
  assumes "py_split (CHR '' '') line = cmd # args" and "cmd \<in> {''start'', ''stop'', ''val''}"
  shows "console (line # lines) d = (d, [], Raised AttributeError)"
  using assms by (auto simp: dbg_on_start_def dbg_on_stop_def con_on_user_value_def run_prog)

end
