(* ===== verification/DebugTimers.thy ===== *)
theory DebugTimers
  imports DebugProps ConsoleProps
begin

text \<open>
  The timers of the debug host, and the scenario of the console up to the timeout of its order.
\<close>

section \<open>Whose timers they are\<close>

text \<open>C31. The timers of the debug host belong to one currency: after a list of symbols, whatever messages, timeouts and
  requests follow, but for another list, every thread calls the timeout of the last currency of the list, whichever currency placed
  the order it was started for.\<close>

theorem dbg_timers_of_last:
  assumes "\<forall>ev \<in> set evs. \<not> lists_symbols ev"
  shows "let d = fst (run_events dbg_handle (DbgSymbolsList (ks @ [k]) # evs) DebugStrategy) in
    (\<forall>th \<in> set (db_threads (fst d)). th_func th = Some k) \<and>
    (thread_fires i (fst d) \<longrightarrow>
      state_of (dbg_handle (DbgElapsed i) d) =
      state_of (dbg_on_symbol k dbg_sd_on_order_complete_timeout (thread_ends i (fst d), snd d)))"
proof -
  define d0 where "d0 = state_of (dbg_on_symbols_list (ks @ [k]) DebugStrategy)"
  define d where "d = fst (run_events dbg_handle evs d0)"
  have "timers_call k (fst d0)"
    by (simp add: d0_def DebugStrategy_def symbols_list_host) (simp add: timers_call_def StrategyInstance_def)
  then have calls: "timers_call k (fst d)"
    unfolding d_def by (rule last_timer.run_events_keeps [OF assms])
  have "state_of (dbg_handle (DbgElapsed i) d) =
      state_of (dbg_on_symbol k dbg_sd_on_order_complete_timeout (thread_ends i (fst d), snd d))" if "thread_fires i (fst d)"
  proof -
    obtain h st where hs: "d = (h, st)"
      by (cases d)
    have i: "i < length (db_threads h)"
      using that by (simp add: hs thread_fires_def)
    with calls have "th_func (db_threads h ! i) = Some k"
      by (simp add: hs timers_call_def)
    with i that show ?thesis
      by (simp add: hs dbg_elapsed_def p_when_def p_if_def run_prog on_host_def p_lift_def thread_ends_def split_beta)
  qed
  with calls show ?thesis
    by (simp add: Let_def timers_call_def d_def d0_def split_beta)
qed

text \<open>The messages of the console's scenario, up to the price that places the order of BTC.\<close>

definition con_messages :: "dbg_event list" where
  "con_messages = [DbgTradeData con_trade_data, DbgTradeRun con_trade_run,
     DbgPrice con_price_1, DbgPrice con_price_3, DbgPrice con_price_4]"

definition leads_events :: "(debug \<Rightarrow> bool) \<Rightarrow> dbg_event list \<Rightarrow> (debug \<Rightarrow> bool) \<Rightarrow> order list \<Rightarrow> bool" where
  "leads_events P evs Q ords \<longleftrightarrow>
     (\<forall>d. P d \<longrightarrow> Q (fst (run_events dbg_handle evs d)) \<and> orders_of (snd (run_events dbg_handle evs d)) = ords)"

lemma leads_events_cons:
  assumes "leads P (dbg_handle ev) Q xs" and "leads_events Q evs R ys"
  shows "leads_events P (ev # evs) R (xs @ ys)"
  using assms by (fastforce simp: leads_events_def leads_def split_beta)

lemma leads_con_messages:
  "leads_events (\<lambda>d. d = DebugStrategy) (DbgSymbolsList [''BNB'', ''BTC'', ''SXP''] # con_messages)
     (at_stage alarmed (stage S5)) [the_purchase]"
proof -
  have "leads_events (at_stage alarmed (stage S5)) [] (at_stage alarmed (stage S5)) []"
    by (simp add: leads_events_def)
  then have "leads_events (\<lambda>d. d = DebugStrategy) (DbgSymbolsList [''BNB'', ''BTC'', ''SXP''] # con_messages)
      (at_stage alarmed (stage S5)) ([] @ [] @ [] @ [] @ [] @ [the_purchase] @ [])"
    unfolding con_messages_def
    by - ((rule leads_events_cons, unfold dbg_handle.simps, rule leads_symbols leads_trade_data leads_run leads_prices)+)
  then show ?thesis
    by simp
qed

theorem dbg_timers_of_last_witness:
  "\<exists>i. let r = run_events dbg_handle (DbgSymbolsList [''BNB'', ''BTC'', ''SXP''] # con_messages) DebugStrategy; d = fst r in
    orders_of (snd r) = [the_purchase] \<and> thread_fires i (fst d) \<and> th_func (db_threads (fst d) ! i) = Some ''SXP'' \<and>
    map_of (st_symbol_data (snd (state_of (dbg_handle (DbgElapsed i) d)))) ''BTC'' = map_of (st_symbol_data (snd d)) ''BTC''"
proof -
  define r where "r = run_events dbg_handle (DbgSymbolsList [''BNB'', ''BTC'', ''SXP''] # con_messages) DebugStrategy"
  have r: "at_stage alarmed (stage S5) (fst r)" "orders_of (snd r) = [the_purchase]"
    using leads_con_messages by (simp_all add: leads_events_def r_def del: run_events.simps)
  then obtain i where i: "thread_fires i (fst (fst r))"
    by (auto simp: at_stage_def alarmed_def)
  have "\<forall>ev \<in> set con_messages. \<not> lists_symbols ev"
    by (simp add: con_messages_def)
  from dbg_timers_of_last [OF this, of "[''BNB'', ''BTC'']" "''SXP''" i]
  have last: "\<forall>th \<in> set (db_threads (fst (fst r))). th_func th = Some ''SXP''"
    "state_of (dbg_handle (DbgElapsed i) (fst r)) =
      state_of (dbg_on_symbol ''SXP'' dbg_sd_on_order_complete_timeout (thread_ends i (fst (fst r)), snd (fst r)))"
    using i by (simp_all add: Let_def r_def del: run_events.simps dbg_handle.simps)
  have "th_func (db_threads (fst (fst r)) ! i) = Some ''SXP''"
    using last(1) i by (simp add: thread_fires_def)
  moreover have "map_of (st_symbol_data (snd (state_of (dbg_on_symbol ''SXP'' m (h, st))))) ''BTC'' = map_of (st_symbol_data st) ''BTC''"
    for m h st
    by (simp add: dbg_on_symbol_def split_beta split: option.split)
  ultimately show ?thesis
    unfolding Let_def r_def [symmetric] last(2) [symmetric] using r(2) i last(2) by (intro exI [of _ i]) simp
qed

end
