(* ===== verification/Spec2Isabelle.thy ===== *)
theory Spec2Isabelle
  imports Bot SingleBehaviour Packaged DebugTimers
begin

text \<open>
  Trading strategies of bot_trader.

  \<^bold>\<open>The program.\<close>  A C++ host (src/application.cpp, src/binance.cpp, src/py_wrapper.cpp) keeps the
  connections to the exchange, to a chat and to a web client and runs one Python script, whose object
  \<open>Strategy\<close> it drives: one method call per message, price, report or timer, one at a time.  The script
  answers by calling methods of the host.  src/mstrategy.py is the script that is deployed; it trades
  several currencies, each by an object \<open>SymbolData\<close> with a state machine.  src/strategy.py is the earlier
  script, for one currency, driven by commands and numbers typed into a chat.  Two edited copies of
  src/mstrategy.py lie beside it: the one that the Debian package installs (src/distrib) and the one that runs
  without the bot (src/scrdbg), on a host written in Python and driven from a console.  This development
  models both scripts, every method and every handler, and what the copies, the debug host and the console
  do otherwise; it proves what makes them correct, or says exactly where they are not.

  \<^bold>\<open>How the code is rendered.\<close>  A method is a program (\<open>prog\<close>, Prelude): from the state of the object it
  returns the new state, the list of calls of the host in order (\<open>effect\<close>, Framework), and \<open>Done\<close> or the
  exception \<open>Raised\<close>.  What was assigned or sent before an exception stays, as in Python.  An object is a
  record with the fields of \<open>__init__\<close>; a reference to one of the two orders (\<open>wait_order_fill\<close>, which
  aliases an element of \<open>orders\<close>) is the index of the order, so that a write through it is seen in the
  list.  Attributes and keys that are missing, indexes out of range and wrong types raise what Python raises.

  \<^bold>\<open>The theories.\<close>
  \<^item> Prelude: exceptions, programs and their combinators, invariants and effects of programs, reachable
    states and the locale \<open>event_system\<close>; strings and dictionaries of Python.
  \<^item> PyFloat, FloatBounds: \<open>float\<close> as IEEE 754 binary64 over rationals, with \<open>float(str)\<close>,
    \<open>round\<close> and \<open>'%f'\<close>; how far rounding moves a number.
  \<^item> PyJson, JsonText: JSON values and the scanner of \<open>json.loads\<close>.
  \<^item> Framework: \<open>Order\<close>, \<open>Balance\<close>, the enumerations and the calls of the host (src/mstrategy.py lines
    65-190; the same classes in src/strategy.py).
  \<^item> Fsm: the class \<open>StateMachine\<close> and the locale \<open>fsm_host\<close> of an object that owns one.
  \<^item> SymbolData, SymbolFsm: the class \<open>SymbolData\<close> of src/mstrategy.py: its state and helpers, its handlers
    (\<open>fsm_ready\<close> to \<open>fsm_resume\<close>) and the methods \<open>on_price\<close>, \<open>on_trade_run\<close>, \<open>on_trade_data\<close>,
    \<open>on_order_report\<close>, \<open>on_order_complete_timeout\<close>, \<open>on_exchange_info\<close>, \<open>get_trade_steps\<close>
    (\<open>sd_...\<close> in the model).
  \<^item> SymbolFacts, SymbolEvents: each handler and event in closed form, branch by branch.
  \<^item> SymbolInv, SymbolSpec: the invariant \<open>sd_inv\<close>; the abstract phase machine \<open>cycle\<close> and the proof that
    every event refines it.
  \<^item> SymbolProps, SymbolBehaviour, SymbolCycle: the properties of one currency.
  \<^item> HostTimers: the timers the bot keeps for its script (\<open>Timer\<close> and \<open>TimerMap\<close> of src/timer.h).
  \<^item> SymbolTimers: what every event of one currency does to its timer, and that an order that stays out
    keeps its name.
  \<^item> Market: one currency in its surroundings, a world of the currency, the exchange and the timers; its
    steps \<open>wstep\<close>, the worlds \<open>wreach\<close> they lead to and what holds in all of them.  MarketProps: an exchange that
    keeps a list of open orders (\<open>book\<close>), runs against it, and the properties.
  \<^item> Bot: the whole script at the exchange (\<open>bstep\<close>, \<open>breach\<close>): all its currencies, driven by the bot's messages.
  \<^item> MStrategy, MStrategyFacts, MStrategyProps: the class \<open>Strategy\<close> of src/mstrategy.py (\<open>st_...\<close>): the
    dictionary of currencies, the parsing and routing of messages, the account; and its properties.
  \<^item> SingleStrategy, SingleFsm, SingleEvents: the class \<open>Strategy\<close> of src/strategy.py (\<open>sg_...\<close>): state and
    helpers, the handlers of its machine, the events of the host and of the user.
  \<^item> Triples, SingleFacts: judgements on programs under an invariant, and what every statement and
    handler of src/strategy.py keeps and may send, on any host.
  \<^item> Recursion: a judgement that a program never raises an exception, with one rule per combinator, and the library
    functions that do not raise \<open>RecursionError\<close>; used for both machines.
  \<^item> SingleProps, SingleBehaviour: the properties of src/strategy.py.
  \<^item> Simulation, LogSimulation: when two programs do the same up to a relation of their states and a view
    of their effects; one rule per combinator, and programs that differ in what they log.
  \<^item> Packaged: the methods in which the packaged copy differs (\<open>pkg_...\<close>), and its equivalence.
  \<^item> DebugHost, DebugSymbol, DebugStrategy: the debug copy (\<open>dbg_...\<close>): the class \<open>StrategyInstance\<close> with its
    timers as threads, and the methods of \<open>SymbolData\<close> and \<open>Strategy\<close> on the object and its host.  A method whose
    text is the one of src/mstrategy.py and that does not reach the host's timers is the same definition.
  \<^item> DebugFacts, DebugBehaviour, DebugEvents, DebugProps: the debug copy simulates the script up to the
    quantities of orders; its events in closed form; its properties.
  \<^item> Console, ConsoleText, ConsoleProps: src/scrdbg/strategy_dbg.py, its messages as JSON, and its
    scenario \<open>symb\<close> followed to the end.  DebugTimers: whose timers the debug host's are, shown on that scenario.
\<close>

text \<open>
  \<^bold>\<open>What the properties show.\<close>
  \<^item> One currency (SymbolProps, SymbolBehaviour, SymbolCycle): every event is a step of the abstract cycle,
    which places at most the order it is armed for, and none while one may be out; when a price places an
    order; a whole round of purchase and sale; the settlement of a filled order; deletion, timeout, start,
    stop and change of data; the round trip of the web client's data; order names and rounding; what
    happens on reports and prices that cannot be read.
  \<^item> One currency, the exchange and the timers (MarketProps): the timer watches an order until it is confirmed; a
    fill that crosses a request to delete leaves the currency waiting for ever.  Three lemmas show what else can
    happen: a timeout that is already queued gives up a confirmed order (\<open>late_timeout\<close>); of every deletion the
    script hears twice, and a report that comes late confirms the next deletion (\<open>late_deletion\<close>); the report
    made of the answer to a request has no commission (\<open>rest_fill_unsettles\<close>).
  \<^item> The script at the exchange (Bot): every order open at the exchange is the one its currency waits for, so a
    pair never has two, as long as no timeout gives up an order and no late deletion comes (\<open>bot_orderly\<close>).
    The exchange is a parameter, a record of functions, with the hypothesis \<open>documented\<close>: the first report of
    something is about an open order, by its pair \<open>s\<close> and its name \<open>c\<close> (or \<open>C\<close>, when it was deleted), and a
    final status closes it (execution reports of the user data stream of Binance); a report that comes again is of an
    order no longer open or of a deletion, because the bot reports twice: from the stream and from the answer
    to its own request (\<open>http_data_handler\<close>, src/binance.cpp).  The exchange \<open>book\<close> satisfies it.
  \<^item> All currencies (MStrategyProps): every currency keeps its invariant, a message is an event of the
    currency it names and of no other, what may be sent, the account, and the errors of the routing.
  \<^item> The chat script (SingleProps, SingleBehaviour): its state stays well-formed and its orders are right on any
    host.  The repository has two hosts for it, and each lacks a method that the script calls: the bot
    (src/py_wrapper.cpp, \<open>bot_methods\<close>) has no \<open>trade_state\<close>, and the host in the script itself, for debugging
    (src/strategy.py lines 110-169, \<open>stub_methods\<close>), has no \<open>to_alert_channel\<close>; on neither does it ever send an
    order.  What its price, inputs and messages do is stated for every host with the methods these two share
    (\<open>common_host\<close>), with and without \<open>trade_state\<close> (\<open>answers_web\<close>) where that makes a difference.
  \<^item> The copies (Packaged, DebugProps, DebugBehaviour, ConsoleProps, DebugTimers): the packaged copy is the script but for
    its logs; the debug copy trades as the script does, quantities apart, on a host that has started a timer; what it
    does with a commission; a stop on a host without a timer, which raises and leaves the currency stuck; the timers,
    which all belong to the last currency; and the console's scenario, which places one order.

  \<^bold>\<open>Interfaces.\<close>  \<open>event_system\<close> (an invariant kept by every event holds in every reachable state) is
  interpreted for one currency (\<open>sd_events\<close>), for the strategy (\<open>st_events\<close>) and for the chat script
  (\<open>sg_events\<close>); \<open>fsm_host\<close> for the machines of the scripts and of the debug copy
  (\<open>sd_host\<close>, \<open>sg_host\<close>, \<open>dbg_owner\<close>); \<open>sg_quiet\<close> and \<open>sg_effects\<close>, what
  the handlers of src/strategy.py keep and send, for three sets of effects: any, orders that are right,
  and none on a host without \<open>trade_state\<close>; \<open>simulation\<close> for the debug copy at three places (a currency next to
  its host, the strategy, the strategy next to its host: \<open>sh\<close>, \<open>ss\<close>, \<open>sd\<close>) and its extension
  \<open>logged_simulation\<close> for the currency itself (\<open>sq\<close>) and the packaged copy (\<open>quiet\<close>); \<open>host_invariant\<close>, what
  the events keep of the debug host, for a timer that was started (\<open>started_timer\<close>) and for the function the
  timers call (\<open>last_timer\<close>).

  \<^bold>\<open>Recursion.\<close>  \<open>StateMachine.run\<close> calls a handler, and a handler may call \<open>run\<close>.  The model counts nested
  calls: \<open>run_depth\<close> is 400, beyond which Python's default limit raises \<open>RecursionError\<close> and so does the
  model.  The bound is never met: for one currency two nested calls behave as any greater number
  (\<open>sd_run_depth\<close>), for the chat script three (\<open>sg_run_depth\<close>), and no run ends with \<open>RecursionError\<close>.  That
  the deeper runs agree would not be enough, since a machine that always calls itself agrees with itself at every
  depth; the second part compares with a machine whose last call of \<open>run\<close> just returns
  (\<open>one_run\<close>, \<open>sg_bounded\<close>).

  \<^bold>\<open>Not modelled.\<close>
  \<^item> The C++ host but for its timers (network, chat, web server, logs): its calls are the events, its methods the
    effects; which methods it has is a field of the state of the chat script.  Time: a timer that waits may run
    out at any moment; \<open>del_timer\<close>, which no script calls.
  \<^item> \<open>print\<close>, and the text of what is sent: \<open>str(float)\<close>, \<open>format\<close> and \<open>json.dumps\<close> are constructors of
    JSON values (\<open>JStrOf\<close>, \<open>JFmt\<close>) with an English gloss of the Russian text.
  \<^item> Limits of the interpreter on the nesting of JSON and on the number of digits of an integer.
  \<^item> In the debug copy a thread's call is one event: the interleaving of two threads inside a method is not
    modelled.  The function of a timer is named by its currency; a thread started before a second list of
    symbols calls the object of that name in the dictionary, not the object it replaced.
  \<^item> After a second list of symbols the timers of the bot keep the function of the object that was replaced
    (\<open>emplace\<close>, src/timer.h); in the model they call the object of that name.  The bot sends the list once, at the
    start (src/application.cpp line 337).
  \<^item> \<open>create_timer\<close> of src/strategy.py passes an interval, which the bot's method does not take; the model lets the
    call succeed on any host that has the method.  On the bot no handler gets that far.
  \<^item> The class \<open>SymbolData\<close> of src/strategy.py, which is never constructed; src/strategy_sceleton.py, which
    does not parse (line 274); what the console's command \<open>go\<close> does after its first call of
    \<open>on_user_value\<close>, which raises.
\<close>

end
